(* ===== verification/Prelude.thy ===== *)
theory Prelude
  imports Main "HOL-Library.Char_ord" "HOL-Library.List_Lexorder" "HOL-Library.Multiset"
begin

text \<open>
  Shared vocabulary of the development: Go strings as byte lists with the functions of the
  packages \<^verbatim>\<open>strings\<close> and \<^verbatim>\<open>strconv\<close> that the proxy calls, Go errors as values that carry a
  message and the sentinels they wrap, and association lists for Go maps.  A Go map is an
  association list with distinct keys; a \<^verbatim>\<open>for ... range\<close> over it visits the entries in list
  order, and since Go leaves that order open, results that depend on it are stated for every
  permutation of the list.

  Case folding and white space are those of ASCII: \<^verbatim>\<open>strings.ToLower\<close> and \<^verbatim>\<open>strings.TrimSpace\<close>
  agree with the functions below on every string of bytes below 0x80, and bytes from 0x80
  upwards are left alone here.
\<close>

named_theorems go_strings \<open>rewrite rules for the string functions\<close>
named_theorems go_maps \<open>rewrite rules for association lists\<close>

section \<open>Strings\<close>

definition byte_of :: "char \<Rightarrow> nat" where
  "byte_of c = of_char c"

definition lower_byte :: "char \<Rightarrow> char" where
  "lower_byte c = (if 65 \<le> byte_of c \<and> byte_of c \<le> 90 then char_of (byte_of c + 32) else c)"

definition upper_byte :: "char \<Rightarrow> char" where
  "upper_byte c = (if 97 \<le> byte_of c \<and> byte_of c \<le> 122 then char_of (byte_of c - 32) else c)"

definition ToLower :: "string \<Rightarrow> string" where
  "ToLower s = map lower_byte s"

definition ascii_space :: "char \<Rightarrow> bool" where
  "ascii_space c = ((9 \<le> byte_of c \<and> byte_of c \<le> 13) \<or> byte_of c = 32)"

definition TrimSpace :: "string \<Rightarrow> string" where
  "TrimSpace s = rev (dropWhile ascii_space (rev (dropWhile ascii_space s)))"

definition HasPrefix :: "string \<Rightarrow> string \<Rightarrow> bool" where
  "HasPrefix s p = (take (length p) s = p)"

definition HasSuffix :: "string \<Rightarrow> string \<Rightarrow> bool" where
  "HasSuffix s p = HasPrefix (rev s) (rev p)"

definition TrimPrefix :: "string \<Rightarrow> string \<Rightarrow> string" where
  "TrimPrefix s p = (if HasPrefix s p then drop (length p) s else s)"

definition TrimSuffix :: "string \<Rightarrow> string \<Rightarrow> string" where
  "TrimSuffix s p = (if HasSuffix s p then take (length s - length p) s else s)"

definition TrimRight :: "string \<Rightarrow> char \<Rightarrow> string" where
  "TrimRight s c = rev (dropWhile (\<lambda>x. x = c) (rev s))"

fun IndexByte :: "string \<Rightarrow> char \<Rightarrow> nat option" where
  "IndexByte [] b = None"
| "IndexByte (c # s) b = (if c = b then Some 0 else map_option Suc (IndexByte s b))"

fun Contains :: "string \<Rightarrow> string \<Rightarrow> bool" where
  "Contains [] sub = (sub = [])"
| "Contains (c # s) sub = (HasPrefix (c # s) sub \<or> Contains s sub)"

fun split_comma :: "string \<Rightarrow> string \<Rightarrow> string list" where
  "split_comma acc [] = [rev acc]"
| "split_comma acc (c # s) = (if c = CHR '','' then rev acc # split_comma [] s else split_comma (c # acc) s)"

text \<open>\<^verbatim>\<open>bytes.ReplaceAll\<close> and \<^verbatim>\<open>strings.ReplaceAll\<close> for a non-empty \<^verbatim>\<open>old\<close>: leftmost,
  non-overlapping.\<close>

function ReplaceAll :: "string \<Rightarrow> string \<Rightarrow> string \<Rightarrow> string" where
  "ReplaceAll s old new =
     (if old = [] \<or> s = [] then s
      else if HasPrefix s old then new @ ReplaceAll (drop (length old) s) old new
      else hd s # ReplaceAll (tl s) old new)"
  by pat_completeness auto
termination
  by (relation "measure (\<lambda>(s, old, new). length s)") (auto simp: neq_Nil_conv)

declare ReplaceAll.simps [simp del]

lemma ReplaceAll_Nil [simp]: "ReplaceAll [] old new = []"
  by (simp add: ReplaceAll.simps)

lemma byte_of_less_256 [simp]: "byte_of c < 256"
  by (simp add: byte_of_def)

lemma byte_of_char_of [simp]: "n < 256 \<Longrightarrow> byte_of (char_of n) = n"
  by (simp add: byte_of_def)

lemma char_of_byte_of [simp]: "char_of (byte_of c) = c"
  by (simp add: byte_of_def)

lemma byte_of_inject [simp]: "byte_of c = byte_of d \<longleftrightarrow> c = d"
  by (simp add: byte_of_def)

lemma lower_byte_idem [simp]: "lower_byte (lower_byte c) = lower_byte c"
  by (auto simp: lower_byte_def)

lemma ToLower_idem [simp, go_strings]: "ToLower (ToLower s) = ToLower s"
  by (simp add: ToLower_def)

lemma ToLower_Nil [simp]: "ToLower s = [] \<longleftrightarrow> s = []" "ToLower [] = []"
  by (simp_all add: ToLower_def)

lemma ToLower_append [go_strings]: "ToLower (s @ t) = ToLower s @ ToLower t"
  by (simp add: ToLower_def)

lemma ascii_space_lower [simp]: "ascii_space (lower_byte c) = ascii_space c"
  by (auto simp: ascii_space_def lower_byte_def)

lemma dropWhile_ToLower:
  "dropWhile ascii_space (map lower_byte s) = map lower_byte (dropWhile ascii_space s)"
  by (simp add: dropWhile_map comp_def)

lemma TrimSpace_ToLower [go_strings]: "TrimSpace (ToLower s) = ToLower (TrimSpace s)"
  by (simp add: TrimSpace_def ToLower_def dropWhile_ToLower rev_map)

lemma dropWhile_id_iff: "dropWhile P xs = xs \<longleftrightarrow> xs = [] \<or> \<not> P (hd xs)"
  by (cases xs) (auto, metis Suc_n_not_le_n length_Cons length_dropWhile_le)

lemma TrimSpace_idem [simp, go_strings]: "TrimSpace (TrimSpace s) = TrimSpace s"
proof -
  define u where "u = dropWhile ascii_space s"
  define v where "v = rev (dropWhile ascii_space (rev u))"
  have v: "dropWhile ascii_space (rev v) = rev v"
    by (simp add: v_def)
  have "dropWhile ascii_space v = v"
  proof (cases "v = []")
    case False
    obtain w where w: "u = v @ w"
      unfolding v_def by (metis rev_append rev_rev_ident takeWhile_dropWhile_id)
    with False have "hd u = hd v" "u \<noteq> []" by simp_all
    then have "\<not> ascii_space (hd v)" unfolding u_def by (metis hd_dropWhile)
    then show ?thesis by (simp add: dropWhile_id_iff)
  qed simp
  then show ?thesis by (simp add: TrimSpace_def u_def[symmetric] v_def[symmetric] v)
qed

lemma HasPrefix_iff [go_strings]: "HasPrefix s p \<longleftrightarrow> (\<exists>r. s = p @ r)"
  by (auto simp: HasPrefix_def) (metis append_take_drop_id)

lemma HasPrefix_Nil [simp]: "HasPrefix s []"
  by (simp add: HasPrefix_def)

lemma HasPrefix_refl [simp]: "HasPrefix s s"
  by (simp add: HasPrefix_def)

lemma HasPrefix_append [simp]: "HasPrefix (p @ r) p"
  by (simp add: HasPrefix_def)

lemma HasSuffix_iff [go_strings]: "HasSuffix s p \<longleftrightarrow> (\<exists>r. s = r @ p)"
proof
  assume "HasSuffix s p"
  then obtain r where "rev s = rev p @ r" by (auto simp: HasSuffix_def HasPrefix_iff)
  then have "s = rev r @ p" by (metis rev_append rev_rev_ident)
  then show "\<exists>r. s = r @ p" ..
qed (auto simp: HasSuffix_def HasPrefix_iff)

lemma TrimPrefix_append [simp]: "TrimPrefix (p @ r) p = r"
  by (simp add: TrimPrefix_def)

lemma TrimRight_iff [go_strings]: "\<exists>n. s = TrimRight s c @ replicate n c"
proof -
  have "rev s = takeWhile (\<lambda>x. x = c) (rev s) @ dropWhile (\<lambda>x. x = c) (rev s)" by simp
  moreover have "takeWhile (\<lambda>x. x = c) (rev s) = replicate (length (takeWhile (\<lambda>x. x = c) (rev s))) c"
    by (rule replicate_eqI[symmetric, THEN sym]) (auto dest: set_takeWhileD)
  ultimately have "s = TrimRight s c @ replicate (length (takeWhile (\<lambda>x. x = c) (rev s))) c"
    unfolding TrimRight_def by (metis rev_append rev_replicate rev_rev_ident)
  then show ?thesis ..
qed

lemma TrimRight_last: "TrimRight s c \<noteq> [] \<Longrightarrow> last (TrimRight s c) \<noteq> c"
  unfolding TrimRight_def by (metis (mono_tags) hd_dropWhile last_rev rev_is_Nil_conv)

lemma IndexByte_None [go_strings]: "IndexByte s b = None \<longleftrightarrow> b \<notin> set s"
  by (induction s) auto

lemma IndexByte_take:
  "take (case IndexByte s b of None \<Rightarrow> length s | Some i \<Rightarrow> i) s = takeWhile (\<lambda>c. c \<noteq> b) s"
  by (induction s) (auto split: option.splits)

lemma Contains_iff [go_strings]: "Contains s sub \<longleftrightarrow> (\<exists>u v. s = u @ sub @ v)"
proof (induction s)
  case (Cons c s)
  have "(\<exists>u v. c # s = u @ sub @ v) \<longleftrightarrow> (\<exists>v. c # s = sub @ v) \<or> (\<exists>u v. s = u @ sub @ v)"
    by (auto simp: Cons_eq_append_conv)
  then show ?case using Cons by (simp add: HasPrefix_iff)
qed simp

lemma fixed_mem_image: "(\<And>x. f x = c \<longleftrightarrow> x = c) \<Longrightarrow> c \<in> f ` S \<longleftrightarrow> c \<in> S"
  by (metis image_iff)

section \<open>Decimal numerals\<close>

function show_nat :: "nat \<Rightarrow> string" where
  "show_nat n = (if n < 10 then [char_of (48 + n)] else show_nat (n div 10) @ [char_of (48 + n mod 10)])"
  by pat_completeness auto
termination
  by (relation "measure id") auto

declare show_nat.simps [simp del]

definition show_int :: "int \<Rightarrow> string" where
  "show_int i = (if i < 0 then CHR ''-'' # show_nat (nat (- i)) else show_nat (nat i))"

lemma show_nat_digits: "c \<in> set (show_nat n) \<Longrightarrow> 48 \<le> byte_of c \<and> byte_of c \<le> 57"
  by (induction n rule: show_nat.induct) (subst (asm) (2) show_nat.simps, auto split: if_splits)

lemma show_nat_nonempty [simp]: "show_nat n \<noteq> []"
  by (subst show_nat.simps) simp

text \<open>\<^verbatim>\<open>strconv.Quote\<close>, the verb \<^verbatim>\<open>%q\<close>, on ASCII strings; a byte from 0x80 on, which Go prints as
  part of a rune when it can, is escaped here.\<close>

definition hex_nibble :: "nat \<Rightarrow> char" where
  "hex_nibble n = char_of (if n < 10 then 48 + n else 87 + n)"

definition quote_byte :: "char \<Rightarrow> string" where
  "quote_byte c =
     (let b = byte_of c in
      if b = 34 \<or> b = 92 then [CHR 0x5C, c]
      else if b = 7 then [CHR 0x5C, CHR ''a'']
      else if b = 8 then [CHR 0x5C, CHR ''b'']
      else if b = 9 then [CHR 0x5C, CHR ''t'']
      else if b = 10 then [CHR 0x5C, CHR ''n'']
      else if b = 11 then [CHR 0x5C, CHR ''v'']
      else if b = 12 then [CHR 0x5C, CHR ''f'']
      else if b = 13 then [CHR 0x5C, CHR ''r'']
      else if 32 \<le> b \<and> b \<le> 126 then [c]
      else [CHR 0x5C, CHR ''x'', hex_nibble (b div 16), hex_nibble (b mod 16)])"

definition go_quote :: "string \<Rightarrow> string" where
  "go_quote s = CHR 0x22 # concat (map quote_byte s) @ [CHR 0x22]"

section \<open>Errors\<close>

text \<open>A Go error: its message, and the sentinel values \<^verbatim>\<open>errors.Is\<close> finds in its chain.\<close>

datatype sentinel =
  ErrUnknownEngine | ErrNoEngineForFacade | ErrTooLarge | ErrNotFound | RedisNil | SkipRetry

record go_error =
  err_msg :: string
  err_chain :: "sentinel list"

definition plain_error :: "string \<Rightarrow> go_error" where
  "plain_error m = \<lparr>err_msg = m, err_chain = []\<rparr>"

definition sentinel_error :: "string \<Rightarrow> sentinel \<Rightarrow> go_error" where
  "sentinel_error m s = \<lparr>err_msg = m, err_chain = [s]\<rparr>"

text \<open>\<^verbatim>\<open>fmt.Errorf("prefix: %w", err)\<close>.\<close>

definition wrap_error :: "string \<Rightarrow> go_error \<Rightarrow> go_error" where
  "wrap_error p e = \<lparr>err_msg = p @ err_msg e, err_chain = err_chain e\<rparr>"

definition errors_Is :: "go_error \<Rightarrow> sentinel \<Rightarrow> bool" where
  "errors_Is e s = (s \<in> set (err_chain e))"

type_synonym 'a result = "go_error + 'a"

lemma errors_Is_simps [simp]:
  "errors_Is (plain_error m) s = False"
  "errors_Is (sentinel_error m t) s = (s = t)"
  "errors_Is (wrap_error p e) s = errors_Is e s"
  by (auto simp: errors_Is_def plain_error_def sentinel_error_def wrap_error_def)

lemma err_msg_simps [simp]:
  "err_msg (plain_error m) = m"
  "err_msg (sentinel_error m t) = m"
  "err_msg (wrap_error p e) = p @ err_msg e"
  by (simp_all add: plain_error_def sentinel_error_def wrap_error_def)

section \<open>Maps as association lists\<close>

type_synonym ('k, 'v) gomap = "('k \<times> 'v) list"

definition map_ok :: "('k, 'v) gomap \<Rightarrow> bool" where
  "map_ok m = distinct (map fst m)"

fun map_put :: "'k \<Rightarrow> 'v \<Rightarrow> ('k, 'v) gomap \<Rightarrow> ('k, 'v) gomap" where
  "map_put k v [] = [(k, v)]"
| "map_put k v ((a, b) # m) = (if a = k then (k, v) # m else (a, b) # map_put k v m)"

definition map_del :: "'k \<Rightarrow> ('k, 'v) gomap \<Rightarrow> ('k, 'v) gomap" where
  "map_del k m = filter (\<lambda>e. fst e \<noteq> k) m"

lemma map_of_put [simp, go_maps]: "map_of (map_put k v m) = (map_of m)(k \<mapsto> v)"
  by (induction k v m rule: map_put.induct) auto

lemma keys_put [simp, go_maps]: "fst ` set (map_put k v m) = insert k (fst ` set m)"
  by (induction k v m rule: map_put.induct) auto

lemma map_ok_put [simp, intro]: "map_ok m \<Longrightarrow> map_ok (map_put k v m)"
  by (induction k v m rule: map_put.induct) (auto simp: map_ok_def)

lemma map_of_del [simp, go_maps]: "map_of (map_del k m) = (map_of m)(k := None)"
  by (induction m) (auto simp: map_del_def fun_eq_iff)

lemma keys_del [simp, go_maps]: "fst ` set (map_del k m) = fst ` set m - {k}"
  by (auto simp: map_del_def)

lemma map_ok_del [simp, intro]: "map_ok m \<Longrightarrow> map_ok (map_del k m)"
  by (simp add: map_ok_def map_del_def distinct_map_filter)

lemma map_ok_Nil [simp]: "map_ok []"
  by (simp add: map_ok_def)

lemma length_put: "map_ok m \<Longrightarrow>
  length (map_put k v m) = (if k \<in> fst ` set m then length m else Suc (length m))"
  by (induction k v m rule: map_put.induct) (auto simp: map_ok_def)

lemma length_del: "map_ok m \<Longrightarrow> k \<in> fst ` set m \<Longrightarrow> length (map_del k m) = length m - 1"
proof (induction m)
  case (Cons e m)
  show ?case
  proof (cases "fst e = k")
    case True
    with Cons.prems have "map_del k m = m"
      unfolding map_del_def map_ok_def filter_id_conv by (metis distinct.simps(2) image_eqI
          list.simps(9) set_map)
    with True show ?thesis by (simp add: map_del_def)
  next
    case False
    with Cons.prems have "k \<in> fst ` set m" "map_ok m" by (auto simp: map_ok_def)
    with Cons.IH False show ?thesis by (cases m) (auto simp: map_del_def)
  qed
qed simp

lemma map_of_perm:
  "map_ok m \<Longrightarrow> mset m = mset m' \<Longrightarrow> map_of m' = map_of m"
  by (metis map_ok_def map_of_inject_set mset_eq_imp_distinct_iff mset_eq_setD mset_map)

section \<open>Loops that stop at the first error\<close>

fun first_error :: "('a \<Rightarrow> 'e option) \<Rightarrow> 'a list \<Rightarrow> 'e option" where
  "first_error f [] = None"
| "first_error f (x # xs) = (case f x of Some e \<Rightarrow> Some e | None \<Rightarrow> first_error f xs)"

lemma first_error_None [simp]: "first_error f xs = None \<longleftrightarrow> (\<forall>x \<in> set xs. f x = None)"
  by (induction xs) (auto split: option.split)

lemma first_error_Some: "first_error f xs = Some e \<Longrightarrow> \<exists>x \<in> set xs. f x = Some e"
  by (induction xs) (auto split: option.splits)

text \<open>The regular expressions of the program have the form \<^verbatim>\<open>^[first][rest]{0,n}$\<close>.\<close>

definition reToken :: "(char \<Rightarrow> bool) \<Rightarrow> (char \<Rightarrow> bool) \<Rightarrow> nat \<Rightarrow> string \<Rightarrow> bool" where
  "reToken first rest n s = (case s of [] \<Rightarrow> False | c # cs \<Rightarrow> first c \<and> list_all rest cs \<and> length cs \<le> n)"

lemma reToken_all: "reToken first rest n s \<Longrightarrow> (\<And>c. first c \<Longrightarrow> P c) \<Longrightarrow> (\<And>c. rest c \<Longrightarrow> P c) \<Longrightarrow> list_all P s"
  by (auto simp: reToken_def list_all_iff split: list.splits)

lemma reToken_nonempty: "reToken first rest n s \<Longrightarrow> s \<noteq> []"
  by (auto simp: reToken_def)

end
