(* ===== verification/Http_Header.thy ===== *)
theory Http_Header
  imports Prelude
begin

text \<open>
  \<^verbatim>\<open>net/http\<close> headers as the proxy uses them, and the two allowlists that guard the boundary:
  \<^verbatim>\<open>compatutil.AllowlistedHeaders\<close> for requests and \<^verbatim>\<open>handlers.copyResponseHeaders\<close> for responses.
  A header map is an association list from keys to value lists.  Its contract is the locale
  \<^verbatim>\<open>header_store\<close>, in which stamping a list of headers is analysed once.
\<close>

section \<open>Canonical keys\<close>

definition isAlnum :: "char \<Rightarrow> bool" where
  "isAlnum c = ((48 \<le> byte_of c \<and> byte_of c \<le> 57) \<or> (65 \<le> byte_of c \<and> byte_of c \<le> 90)
     \<or> (97 \<le> byte_of c \<and> byte_of c \<le> 122))"

text \<open>The token bytes of RFC 7230, other than letters and digits: \<^verbatim>\<open>! # $ % & ' * + - . ^ _ ` | ~\<close>.\<close>

definition validHeaderFieldByte :: "char \<Rightarrow> bool" where
  "validHeaderFieldByte c = (isAlnum c \<or> byte_of c \<in> {33, 35, 36, 37, 38, 39, 42, 43, 45, 46, 94, 95, 96, 124, 126})"

fun canonBytes :: "bool \<Rightarrow> string \<Rightarrow> string" where
  "canonBytes upper [] = []"
| "canonBytes upper (c # s) =
     (if upper then upper_byte c else lower_byte c) # canonBytes (c = CHR ''-'') s"

definition CanonicalHeaderKey :: "string \<Rightarrow> string" where
  "CanonicalHeaderKey s = (if list_all validHeaderFieldByte s then canonBytes True s else s)"

section \<open>Header maps\<close>

type_synonym Header = "(string, string list) gomap"

definition header_Values :: "Header \<Rightarrow> string \<Rightarrow> string list" where
  "header_Values h k = (case map_of h (CanonicalHeaderKey k) of None \<Rightarrow> [] | Some vs \<Rightarrow> vs)"

definition header_Get :: "Header \<Rightarrow> string \<Rightarrow> string" where
  "header_Get h k = (case header_Values h k of [] \<Rightarrow> [] | v # _ \<Rightarrow> v)"

definition header_Set :: "Header \<Rightarrow> string \<Rightarrow> string \<Rightarrow> Header" where
  "header_Set h k v = map_put (CanonicalHeaderKey k) [v] h"

definition header_Add :: "Header \<Rightarrow> string \<Rightarrow> string \<Rightarrow> Header" where
  "header_Add h k v = map_put (CanonicalHeaderKey k) (header_Values h k @ [v]) h"

definition header_Del :: "Header \<Rightarrow> string \<Rightarrow> Header" where
  "header_Del h k = map_del (CanonicalHeaderKey k) h"

text \<open>What \<^verbatim>\<open>net/http\<close> guarantees of the headers of a received message: one entry per key, and
  every key canonical.\<close>

definition header_ok :: "Header \<Rightarrow> bool" where
  "header_ok h = (map_ok h \<and> list_all (\<lambda>e. CanonicalHeaderKey (fst e) = fst e) h)"

section \<open>The request allowlist\<close>

definition inboundHeaderAllowlist :: "string list" where
  "inboundHeaderAllowlist =
     [''Accept'', ''Accept-Encoding'', ''Accept-Language'', ''User-Agent'', ''X-Request-Id'', ''Content-Type'']"

definition AllowlistedHeaders :: "Header \<Rightarrow> Header" where
  "AllowlistedHeaders src =
     fold (\<lambda>k out. let vs = header_Values src k in
             if vs \<noteq> [] then map_put (CanonicalHeaderKey k) vs out else out)
       inboundHeaderAllowlist []"

section \<open>The response allowlist\<close>

definition outboundResponseHeaderAllowlist :: "string list" where
  "outboundResponseHeaderAllowlist =
     [''Content-Type'', ''Content-Length'', ''Content-Encoding'', ''Content-Language'', ''Etag'',
      ''Last-Modified'', ''Cache-Control'', ''Expires'', ''Vary'', ''X-Request-Id'']"

definition alwaysDroppedHeaders :: "string list" where
  "alwaysDroppedHeaders =
     [''Set-Cookie'', ''Set-Cookie2'', ''Server'', ''X-Powered-By'', ''X-Aspnet-Version'', ''X-Aspnetmvc-Version'']"

definition hasCRLF :: "string \<Rightarrow> bool" where
  "hasCRLF v = list_ex (\<lambda>c. byte_of c = 13 \<or> byte_of c = 10) v"

definition addValues :: "string \<Rightarrow> string list \<Rightarrow> Header \<Rightarrow> Header" where
  "addValues k vs dst = fold (\<lambda>v d. if hasCRLF v then d else header_Add d k v) vs dst"

definition copyResponseHeaders :: "Header \<Rightarrow> Header \<Rightarrow> Header" where
  "copyResponseHeaders dst src =
     fold (\<lambda>(k, vs) d.
             let canonical = CanonicalHeaderKey k in
             if canonical \<in> set alwaysDroppedHeaders then d
             else if canonical \<notin> set outboundResponseHeaderAllowlist then d
             else addValues canonical vs d)
       src dst"

section \<open>Lemmas on keys\<close>

lemma lower_byte_upper: "lower_byte (upper_byte c) = lower_byte c"
  by (auto simp: lower_byte_def upper_byte_def)

lemma upper_byte_lower: "upper_byte (lower_byte c) = upper_byte c"
  by (auto simp: lower_byte_def upper_byte_def)

lemma upper_byte_idem [simp]: "upper_byte (upper_byte c) = upper_byte c"
  by (auto simp: upper_byte_def)

lemma isAlnum_case [simp]: "isAlnum (upper_byte c) = isAlnum c" "isAlnum (lower_byte c) = isAlnum c"
  by (auto simp: isAlnum_def upper_byte_def lower_byte_def)

lemma upper_byte_other: "\<not> isAlnum c \<Longrightarrow> upper_byte c = c"
  by (auto simp: isAlnum_def upper_byte_def)

lemma lower_byte_other: "\<not> isAlnum c \<Longrightarrow> lower_byte c = c"
  by (auto simp: isAlnum_def lower_byte_def)

lemma valid_upper [simp]: "validHeaderFieldByte (upper_byte c) = validHeaderFieldByte c"
  by (cases "isAlnum c") (simp_all add: validHeaderFieldByte_def upper_byte_other)

lemma valid_lower [simp]: "validHeaderFieldByte (lower_byte c) = validHeaderFieldByte c"
  by (cases "isAlnum c") (simp_all add: validHeaderFieldByte_def lower_byte_other)

lemma dash_byte: "c = CHR ''-'' \<longleftrightarrow> byte_of c = 45"
proof -
  have "byte_of (CHR ''-'') = 45" by (simp add: byte_of_def)
  then show ?thesis by (metis byte_of_inject)
qed

lemma fold_case_dash [simp]: "upper_byte c = CHR ''-'' \<longleftrightarrow> c = CHR ''-''" "lower_byte c = CHR ''-'' \<longleftrightarrow> c = CHR ''-''"
  by (auto simp: dash_byte upper_byte_def lower_byte_def)

lemma list_all_canonBytes [simp]:
  "list_all validHeaderFieldByte (canonBytes u s) = list_all validHeaderFieldByte s"
  by (induction s arbitrary: u) auto

lemma canonBytes_idem [simp]: "canonBytes u (canonBytes u s) = canonBytes u s"
  by (induction s arbitrary: u) auto

lemma canonBytes_lower: "canonBytes u (ToLower s) = canonBytes u s"
  by (induction s arbitrary: u) (auto simp: ToLower_def upper_byte_lower)

lemma lower_canonBytes: "ToLower (canonBytes u s) = ToLower s"
  by (induction s arbitrary: u) (auto simp: ToLower_def lower_byte_upper)

lemma canonical_idem [simp]: "CanonicalHeaderKey (CanonicalHeaderKey s) = CanonicalHeaderKey s"
  by (simp add: CanonicalHeaderKey_def)

text \<open>Two well-formed keys have the same canonical form exactly when they differ in case only.\<close>

lemma canonical_eq_iff_fold:
  assumes "list_all validHeaderFieldByte s" "list_all validHeaderFieldByte t"
  shows "CanonicalHeaderKey s = CanonicalHeaderKey t \<longleftrightarrow> ToLower s = ToLower t"
  using assms unfolding CanonicalHeaderKey_def by simp (metis canonBytes_lower lower_canonBytes)

section \<open>The contract of a header store\<close>

locale header_store =
  fixes canon :: "string \<Rightarrow> string"
    and vals :: "'h \<Rightarrow> string \<Rightarrow> string list"
    and set_header :: "'h \<Rightarrow> string \<Rightarrow> string \<Rightarrow> 'h"
    and add_header :: "'h \<Rightarrow> string \<Rightarrow> string \<Rightarrow> 'h"
    and del_header :: "'h \<Rightarrow> string \<Rightarrow> 'h"
  assumes values_canon: "canon k = canon k' \<Longrightarrow> vals h k = vals h k'"
    and values_set: "vals (set_header h k v) k' = (if canon k = canon k' then [v] else vals h k')"
    and values_add: "vals (add_header h k v) k' = vals h k' @ (if canon k = canon k' then [v] else [])"
    and values_del: "vals (del_header h k) k' = (if canon k = canon k' then [] else vals h k')"
begin

definition stamp_all :: "(string \<times> string) list \<Rightarrow> 'h \<Rightarrow> 'h" where
  "stamp_all kvs h = fold (\<lambda>(k, v) h. set_header h k v) kvs h"

text \<open>Of several stamps on one key the last one stands, and no other key is touched.\<close>

lemma values_stamp_all:
  "vals (stamp_all kvs h) k =
     (case map_of (rev (map (\<lambda>(a, v). (canon a, v)) kvs)) (canon k) of Some v \<Rightarrow> [v] | None \<Rightarrow> vals h k)"
  unfolding stamp_all_def
proof (induction kvs arbitrary: h)
  case (Cons e kvs)
  obtain a v where e: "e = (a, v)" by fastforce
  show ?case unfolding e
    by (simp add: Cons.IH map_add_def values_set split: option.split)
qed simp

text \<open>When no two stamps share a canonical key, their order does not matter.\<close>

lemma stamp_all_order:
  assumes "distinct (map (canon \<circ> fst) kvs)" "mset kvs = mset kvs'"
  shows "vals (stamp_all kvs h) k = vals (stamp_all kvs' h) k"
proof -
  let ?f = "\<lambda>(a, v). (canon a, v)"
  have d: "distinct (map fst (map ?f kvs))" using assms(1) by (simp add: comp_def split_beta)
  have m: "mset (map ?f kvs) = mset (map ?f kvs')" using assms(2) by simp
  have "map_ok (rev (map ?f kvs))" "mset (rev (map ?f kvs)) = mset (rev (map ?f kvs'))"
    using d m by (simp_all add: map_ok_def rev_map[symmetric])
  from map_of_perm[OF this] show ?thesis by (simp add: values_stamp_all)
qed

lemma values_dels:
  "vals (fold (\<lambda>k h. del_header h k) ks h) k' = (if canon k' \<in> canon ` set ks then [] else vals h k')"
  by (induction ks arbitrary: h) (auto simp: values_del)

end

interpretation go_header: header_store CanonicalHeaderKey header_Values header_Set header_Add header_Del
  by unfold_locales (auto simp: header_Values_def header_Set_def header_Add_def header_Del_def split: option.split)

lemma header_Get_Set [simp]:
  "header_Get (header_Set h k v) k' = (if CanonicalHeaderKey k = CanonicalHeaderKey k' then v else header_Get h k')"
  by (simp add: header_Get_def go_header.values_set)

lemma header_ok_ops [simp, intro]:
  "header_ok h \<Longrightarrow> header_ok (header_Set h k v)"
  "header_ok h \<Longrightarrow> header_ok (header_Add h k v)"
  "header_ok h \<Longrightarrow> header_ok (header_Del h k)"
proof -
  have "fst e \<in> insert (CanonicalHeaderKey k) (fst ` set h)"
    if "e \<in> set (map_put (CanonicalHeaderKey k) vs h)" for e vs
    using that keys_put[of "CanonicalHeaderKey k" vs h] by (metis image_eqI)
  then show "header_ok h \<Longrightarrow> header_ok (header_Set h k v)" "header_ok h \<Longrightarrow> header_ok (header_Add h k v)"
    by (fastforce simp: header_ok_def header_Set_def header_Add_def list_all_iff)+
  show "header_ok h \<Longrightarrow> header_ok (header_Del h k)"
    by (auto simp: header_ok_def header_Del_def list_all_iff map_del_def map_ok_def distinct_map_filter)
qed

section \<open>What the allowlists let through\<close>

lemma addValues_values:
  "header_Values (addValues k vs dst) k' =
     header_Values dst k' @ (if CanonicalHeaderKey k = CanonicalHeaderKey k' then filter (\<lambda>v. \<not> hasCRLF v) vs else [])"
  unfolding addValues_def by (induction vs arbitrary: dst) (auto simp: go_header.values_add)

lemma copyResponseHeaders_Cons:
  "copyResponseHeaders dst ((a, vs) # src) =
     copyResponseHeaders
       (if CanonicalHeaderKey a \<in> set outboundResponseHeaderAllowlist - set alwaysDroppedHeaders
        then addValues (CanonicalHeaderKey a) vs dst else dst) src"
  by (simp add: copyResponseHeaders_def Let_def)

lemma header_Values_Cons:
  assumes "CanonicalHeaderKey a = a"
  shows "header_Values ((a, vs) # src) k = (if a = CanonicalHeaderKey k then vs else header_Values src k)"
  by (simp add: header_Values_def)

lemma header_Values_absent: "CanonicalHeaderKey k \<notin> fst ` set h \<Longrightarrow> header_Values h k = []"
  by (simp add: header_Values_def map_of_eq_None_iff[THEN iffD2])

text \<open>
  C28: the response filter, key by key, for the headers of a received response: a key on the
  allowlist and not on the deny list gains the upstream values without CR or LF, after what the
  response already had; every other key, \<^verbatim>\<open>Set-Cookie\<close> and \<^verbatim>\<open>Server\<close> among them, gains nothing.
\<close>

theorem response_headers_filtered:
  assumes "header_ok src"
  shows "header_Values (copyResponseHeaders dst src) k =
     header_Values dst k @
       (if CanonicalHeaderKey k \<in> set outboundResponseHeaderAllowlist - set alwaysDroppedHeaders
        then filter (\<lambda>v. \<not> hasCRLF v) (header_Values src k) else [])"
  using assms
proof (induction src arbitrary: dst)
  case Nil
  then show ?case by (simp add: copyResponseHeaders_def header_Values_def)
next
  case (Cons e src)
  obtain a vs where e: "e = (a, vs)" by fastforce
  have a: "CanonicalHeaderKey a = a" "a \<notin> fst ` set src" and ok: "header_ok src"
    using Cons.prems by (auto simp: e header_ok_def map_ok_def)
  show ?case
    unfolding e copyResponseHeaders_Cons Cons.IH[OF ok] header_Values_Cons[OF a(1)]
    using a header_Values_absent[of k src] by (auto simp: addValues_values)
qed

theorem response_headers_filtered_witness:
  "header_Values (copyResponseHeaders []
      [(''Content-Type'', [''text/plain'', [char_of (13::nat), CHR ''x'']]), (''Set-Cookie'', [''s=1''])]) ''content-type''
     = [''text/plain'']"
proof -
  let ?s = "[(''Content-Type'', [''text/plain'', [char_of (13::nat), CHR ''x'']]), (''Set-Cookie'', [''s=1''])]"
  have ok: "header_ok ?s" by code_simp
  have v: "(if CanonicalHeaderKey ''content-type'' \<in> set outboundResponseHeaderAllowlist - set alwaysDroppedHeaders
        then filter (\<lambda>v. \<not> hasCRLF v) (header_Values ?s ''content-type'') else []) = [''text/plain'']" by code_simp
  show ?thesis unfolding response_headers_filtered[OF ok] v by (simp add: header_Values_def)
qed

lemma allowlist_fold:
  assumes "list_all (\<lambda>k. CanonicalHeaderKey k = k) ks"
  shows "header_Values (fold (\<lambda>k out. let vs = header_Values src k in
             if vs \<noteq> [] then map_put (CanonicalHeaderKey k) vs out else out) ks out) k =
     (if CanonicalHeaderKey k \<in> set ks \<and> header_Values src k \<noteq> [] then header_Values src k else header_Values out k)"
  using assms
proof (induction ks arbitrary: out)
  case (Cons a ks)
  have "CanonicalHeaderKey a = a" using Cons.prems by simp
  then have "header_Values src (CanonicalHeaderKey k) = header_Values src k" by (simp add: header_Values_def)
  moreover have "header_Values (map_put a vs out) k = (if a = CanonicalHeaderKey k then vs else header_Values out k)" for vs
    by (simp add: header_Values_def)
  ultimately show ?case using Cons by (auto simp: Let_def)
qed simp

lemma inboundHeaderAllowlist_canonical: "list_all (\<lambda>k. CanonicalHeaderKey k = k) inboundHeaderAllowlist"
  by code_simp

text \<open>
  The request filter, key by key: the adapters see the inbound values of the six allowlisted
  keys and nothing else, so \<^verbatim>\<open>Authorization\<close>, \<^verbatim>\<open>Cookie\<close> and the proxy's own API key never reach a
  backend on the facade routes.
\<close>

theorem request_headers_filtered:
  "header_Values (AllowlistedHeaders src) k =
     (if CanonicalHeaderKey k \<in> set inboundHeaderAllowlist then header_Values src k else [])"
  unfolding AllowlistedHeaders_def allowlist_fold[OF inboundHeaderAllowlist_canonical]
  by (simp add: header_Values_def[of "[]"])

end
