(* ===== verification/Netip.thy ===== *)
theory Netip
  imports Prelude "HOL-Library.Word"
begin

text \<open>
  IP addresses as the proxy meets them in package \<^verbatim>\<open>net\<close>: a \<^verbatim>\<open>net.IP\<close> is a byte list of length 4 or
  16 (nil is the empty list), with the classification methods, \<^verbatim>\<open>IPNet.Contains\<close>, and the parsers
  \<^verbatim>\<open>net.ParseIP\<close> and \<^verbatim>\<open>net.ParseCIDR\<close> of the standard library.  The SSRF policy, the trusted-proxy
  check and the configuration validation are built on these.
\<close>

unbundle bit_operations_syntax

type_synonym byte = "8 word"
type_synonym IP = "byte list"

section \<open>Classification\<close>

definition v4InV6Prefix :: "byte list" where
  "v4InV6Prefix = replicate 10 0 @ [255, 255]"

definition To4 :: "IP \<Rightarrow> IP option" where
  "To4 ip = (if length ip = 4 then Some ip
             else if length ip = 16 \<and> take 12 ip = v4InV6Prefix then Some (drop 12 ip)
             else None)"

definition IPv4zero :: IP where "IPv4zero = v4InV6Prefix @ [0, 0, 0, 0]"
definition IPv6unspecified :: IP where "IPv6unspecified = replicate 16 0"
definition IPv6loopback :: IP where "IPv6loopback = replicate 15 0 @ [1]"

definition ip_Equal :: "IP \<Rightarrow> IP \<Rightarrow> bool" where
  "ip_Equal ip x =
     (if length ip = length x then ip = x
      else if length ip = 4 \<and> length x = 16 then take 12 x = v4InV6Prefix \<and> ip = drop 12 x
      else if length ip = 16 \<and> length x = 4 then take 12 ip = v4InV6Prefix \<and> drop 12 ip = x
      else False)"

definition IsUnspecified :: "IP \<Rightarrow> bool" where
  "IsUnspecified ip = (ip_Equal ip IPv4zero \<or> ip_Equal ip IPv6unspecified)"

definition IsLoopback :: "IP \<Rightarrow> bool" where
  "IsLoopback ip = (case To4 ip of Some ip4 \<Rightarrow> ip4 ! 0 = 127 | None \<Rightarrow> ip_Equal ip IPv6loopback)"

definition IsPrivate :: "IP \<Rightarrow> bool" where
  "IsPrivate ip =
     (case To4 ip of
        Some ip4 \<Rightarrow> ip4 ! 0 = 10 \<or> (ip4 ! 0 = 172 \<and> (ip4 ! 1) AND 240 = 16) \<or> (ip4 ! 0 = 192 \<and> ip4 ! 1 = 168)
      | None \<Rightarrow> length ip = 16 \<and> (ip ! 0) AND 254 = 252)"

definition IsMulticast :: "IP \<Rightarrow> bool" where
  "IsMulticast ip =
     (case To4 ip of Some ip4 \<Rightarrow> (ip4 ! 0) AND 240 = 224 | None \<Rightarrow> length ip = 16 \<and> ip ! 0 = 255)"

definition IsLinkLocalMulticast :: "IP \<Rightarrow> bool" where
  "IsLinkLocalMulticast ip =
     (case To4 ip of
        Some ip4 \<Rightarrow> ip4 ! 0 = 224 \<and> ip4 ! 1 = 0 \<and> ip4 ! 2 = 0
      | None \<Rightarrow> length ip = 16 \<and> ip ! 0 = 255 \<and> (ip ! 1) AND 15 = 2)"

definition IsLinkLocalUnicast :: "IP \<Rightarrow> bool" where
  "IsLinkLocalUnicast ip =
     (case To4 ip of
        Some ip4 \<Rightarrow> ip4 ! 0 = 169 \<and> ip4 ! 1 = 254
      | None \<Rightarrow> length ip = 16 \<and> ip ! 0 = 254 \<and> (ip ! 1) AND 192 = 128)"

section \<open>Networks\<close>

record IPNet =
  netIP :: IP
  netMask :: "byte list"

text \<open>\<^verbatim>\<open>networkNumberAndMask\<close>: the network number in its shortest form with a mask of its length.\<close>

definition networkNumberAndMask :: "IPNet \<Rightarrow> (IP \<times> byte list) option" where
  "networkNumberAndMask n =
     (case (case To4 (netIP n) of Some ip4 \<Rightarrow> Some ip4 | None \<Rightarrow> if length (netIP n) = 16 then Some (netIP n) else None) of
        None \<Rightarrow> None
      | Some ip \<Rightarrow>
          (let m = netMask n in
           if length m = 4 then (if length ip \<noteq> 4 then None else Some (ip, m))
           else if length m = 16 then (if length ip = 4 then Some (ip, drop 12 m) else Some (ip, m))
           else None))"

definition IPNet_Contains :: "IPNet \<Rightarrow> IP \<Rightarrow> bool" where
  "IPNet_Contains n ip0 =
     (case networkNumberAndMask n of
        None \<Rightarrow> length (case To4 ip0 of Some x \<Rightarrow> x | None \<Rightarrow> ip0) = 0
      | Some (nn, m) \<Rightarrow>
          (let ip = (case To4 ip0 of Some x \<Rightarrow> x | None \<Rightarrow> ip0) in
           length ip = length nn \<and> list_all (\<lambda>i. (nn ! i) AND (m ! i) = (ip ! i) AND (m ! i)) [0..<length ip]))"

definition CIDRMask :: "nat \<Rightarrow> nat \<Rightarrow> byte list" where
  "CIDRMask ones bits =
     map (\<lambda>i. if 8 * i + 8 \<le> ones then 255
              else if ones \<le> 8 * i then 0
              else 256 - 2 ^ (8 - (ones - 8 * i))) [0..<bits div 8]"

definition ip_Mask :: "IP \<Rightarrow> byte list \<Rightarrow> IP" where
  "ip_Mask ip0 mask0 =
     (let mask = (if length mask0 = 16 \<and> length ip0 = 4 \<and> list_all (\<lambda>b. b = 255) (take 12 mask0) then drop 12 mask0 else mask0);
          ip = (if length mask = 4 \<and> length ip0 = 16 \<and> take 12 ip0 = v4InV6Prefix then drop 12 ip0 else ip0)
      in if length ip \<noteq> length mask then [] else map2 (AND) ip mask)"

section \<open>Parsers\<close>

definition digit_val :: "char \<Rightarrow> nat option" where
  "digit_val c = (if 48 \<le> byte_of c \<and> byte_of c \<le> 57 then Some (byte_of c - 48) else None)"

definition hex_val :: "char \<Rightarrow> nat option" where
  "hex_val c =
     (if 48 \<le> byte_of c \<and> byte_of c \<le> 57 then Some (byte_of c - 48)
      else if 97 \<le> byte_of c \<and> byte_of c \<le> 102 then Some (byte_of c - 97 + 10)
      else if 65 \<le> byte_of c \<and> byte_of c \<le> 70 then Some (byte_of c - 65 + 10)
      else None)"

text \<open>\<^verbatim>\<open>parseIPv4Fields\<close>: current value and number of digits of the octet, octets so far.\<close>

fun parseIPv4Fields :: "nat \<Rightarrow> nat \<Rightarrow> byte list \<Rightarrow> string \<Rightarrow> byte list option" where
  "parseIPv4Fields val digLen octets [] =
     (if length octets < 3 then None else Some (octets @ [of_nat val]))"
| "parseIPv4Fields val digLen octets (c # s) =
     (case digit_val c of
        Some d \<Rightarrow>
          (if digLen = 1 \<and> val = 0 then None
           else if val * 10 + d > 255 then None
           else parseIPv4Fields (val * 10 + d) (Suc digLen) octets s)
      | None \<Rightarrow>
          (if c = CHR ''.'' then
             (if digLen = 0 \<or> s = [] then None
              else if length octets = 3 then None
              else parseIPv4Fields 0 0 (octets @ [of_nat val]) s)
           else None))"

text \<open>The leading hexadecimal digits of a group: their value and number, and the rest.  More than
  four digits fail.\<close>

fun parseHexGroup :: "int \<Rightarrow> nat \<Rightarrow> string \<Rightarrow> (int \<times> nat \<times> string) option" where
  "parseHexGroup acc off [] = Some (acc, off, [])"
| "parseHexGroup acc off (c # s) =
     (case hex_val c of
        None \<Rightarrow> Some (acc, off, c # s)
      | Some d \<Rightarrow> (if off > 3 then None else parseHexGroup (acc * 16 + int d) (Suc off) s))"

text \<open>The loop of \<^verbatim>\<open>parseIPv6\<close>.  The first argument bounds the groups left (eight at the start); the
  second holds the bytes so far, the third the position of \<^verbatim>\<open>::\<close>.  The result has the unread rest.\<close>

fun parseIPv6Groups :: "nat \<Rightarrow> byte list \<Rightarrow> nat option \<Rightarrow> string \<Rightarrow> (byte list \<times> nat option \<times> string) option" where
  "parseIPv6Groups 0 ip ell s = Some (ip, ell, s)"
| "parseIPv6Groups (Suc n) ip ell s =
     (case parseHexGroup 0 0 s of
        None \<Rightarrow> None
      | Some (acc, off, rest) \<Rightarrow>
          (if off = 0 then None
           else case rest of
             [] \<Rightarrow> Some (ip @ [of_int (acc div 256), of_int (acc mod 256)], ell, [])
           | c # tail \<Rightarrow>
               (if c = CHR ''.'' then
                  (if ell = None \<and> length ip \<noteq> 12 then None
                   else if length ip + 4 > 16 then None
                   else case parseIPv4Fields 0 0 [] s of
                          None \<Rightarrow> None
                        | Some four \<Rightarrow> Some (ip @ four, ell, []))
                else if c \<noteq> CHR '':'' then None
                else if tail = [] then None
                else let ip' = ip @ [of_int (acc div 256), of_int (acc mod 256)] in
                     if hd tail = CHR '':'' then
                       (if ell \<noteq> None then None
                        else if tl tail = [] then Some (ip', Some (length ip'), [])
                        else parseIPv6Groups n ip' (Some (length ip')) (tl tail))
                     else parseIPv6Groups n ip' ell tail)))"

definition parseIPv6 :: "string \<Rightarrow> IP option" where
  "parseIPv6 s =
     (if HasPrefix s ''::'' \<and> length s = 2 then Some IPv6unspecified
      else case (if HasPrefix s ''::'' then parseIPv6Groups 8 [] (Some 0) (drop 2 s) else parseIPv6Groups 8 [] None s) of
        None \<Rightarrow> None
      | Some (ip, ell, rest) \<Rightarrow>
          (if rest \<noteq> [] then None
           else if length ip < 16 then
             (case ell of None \<Rightarrow> None | Some e \<Rightarrow> Some (take e ip @ replicate (16 - length ip) 0 @ drop e ip))
           else if ell \<noteq> None then None
           else Some ip))"

text \<open>\<^verbatim>\<open>netip.ParseAddr\<close> restricted to addresses without a zone, which is what \<^verbatim>\<open>net.ParseIP\<close> and
  \<^verbatim>\<open>net.ParseCIDR\<close> accept: the bytes, four or sixteen of them.\<close>

fun firstDotColon :: "string \<Rightarrow> char option" where
  "firstDotColon [] = None"
| "firstDotColon (c # s) = (if c = CHR ''.'' \<or> c = CHR '':'' \<or> c = CHR ''%'' then Some c else firstDotColon s)"

definition ParseAddr :: "string \<Rightarrow> IP option" where
  "ParseAddr s =
     (case firstDotColon s of
        None \<Rightarrow> None
      | Some c \<Rightarrow> (if c = CHR ''.'' then parseIPv4Fields 0 0 [] s
                  else if c = CHR '':'' then (if CHR ''%'' \<in> set s then None else parseIPv6 s)
                  else None))"

definition As16 :: "IP \<Rightarrow> IP" where
  "As16 ip = (if length ip = 4 then v4InV6Prefix @ ip else ip)"

definition ParseIP :: "string \<Rightarrow> IP option" where
  "ParseIP s = map_option As16 (ParseAddr s)"

fun dtoi :: "int \<Rightarrow> nat \<Rightarrow> string \<Rightarrow> (int \<times> nat \<times> bool)" where
  "dtoi n i [] = (n, i, i > 0)"
| "dtoi n i (c # s) =
     (case digit_val c of
        None \<Rightarrow> (n, i, i > 0)
      | Some d \<Rightarrow> (if n * 10 + int d \<ge> 16777215 then (16777215, i, False) else dtoi (n * 10 + int d) (Suc i) s))"

definition ParseCIDR :: "string \<Rightarrow> IPNet option" where
  "ParseCIDR s =
     (case IndexByte s (CHR ''/'') of
        None \<Rightarrow> None
      | Some i \<Rightarrow>
          (let mask = drop (Suc i) s in
           case ParseAddr (take i s) of
             None \<Rightarrow> None
           | Some ip \<Rightarrow>
               (case dtoi 0 0 mask of
                  (n, j, ok) \<Rightarrow>
                    (let bits = 8 * length ip in
                     if \<not> ok \<or> j \<noteq> length mask \<or> n < 0 \<or> n > int bits then None
                     else let m = CIDRMask (nat n) bits in Some \<lparr>netIP = ip_Mask (As16 ip) m, netMask = m\<rparr>))))"

section \<open>Printing\<close>

definition show_v4 :: "IP \<Rightarrow> string" where
  "show_v4 ip = show_nat (unat (ip ! 0)) @ ''.'' @ show_nat (unat (ip ! 1)) @ ''.'' @ show_nat (unat (ip ! 2)) @ ''.''
                @ show_nat (unat (ip ! 3))"

definition hex_digit :: "nat \<Rightarrow> char" where
  "hex_digit n = char_of (if n < 10 then 48 + n else 87 + n)"

function show_hex :: "nat \<Rightarrow> string" where
  "show_hex n = (if n < 16 then [hex_digit n] else show_hex (n div 16) @ [hex_digit (n mod 16)])"
  by pat_completeness auto
termination
  by (relation "measure id") auto

declare show_hex.simps [simp del]

definition v6u16 :: "IP \<Rightarrow> nat \<Rightarrow> nat" where
  "v6u16 ip i = unat (ip ! (2 * i)) * 256 + unat (ip ! (2 * i + 1))"

text \<open>The longest run of at least two zero groups, leftmost on ties.\<close>

definition zeroRun :: "IP \<Rightarrow> nat \<Rightarrow> nat" where
  "zeroRun ip i = length (takeWhile (\<lambda>j. v6u16 ip j = 0) [i..<8])"

definition longestZeroRun :: "IP \<Rightarrow> (nat \<times> nat) option" where
  "longestZeroRun ip =
     fold (\<lambda>i best. let l = zeroRun ip i; cur = (case best of None \<Rightarrow> 0 | Some (a, b) \<Rightarrow> b - a)
                    in if 2 \<le> l \<and> l > cur then Some (i, i + l) else best) [0..<8] None"

definition joinColon :: "string list \<Rightarrow> string" where
  "joinColon gs = (case gs of [] \<Rightarrow> [] | g # rest \<Rightarrow> g @ concat (map (\<lambda>x. CHR '':'' # x) rest))"

definition show_v6 :: "IP \<Rightarrow> string" where
  "show_v6 ip =
     (let grp = (\<lambda>i. show_hex (v6u16 ip i)) in
      case longestZeroRun ip of
        None \<Rightarrow> joinColon (map grp [0..<8])
      | Some (a, b) \<Rightarrow> joinColon (map grp [0..<a]) @ ''::'' @ joinColon (map grp [b..<8]))"

definition ip_String :: "IP \<Rightarrow> string" where
  "ip_String ip =
     (if ip = [] then ''<nil>''
      else case To4 ip of
             Some ip4 \<Rightarrow> show_v4 ip4
           | None \<Rightarrow> (if length ip = 16 then show_v6 ip
                      else CHR ''?'' # concat (map (\<lambda>b. [hex_digit (unat b div 16), hex_digit (unat b mod 16)]) ip)))"

section \<open>URLs\<close>

text \<open>A parsed \<^verbatim>\<open>url.URL\<close>.  The parser and the printer of \<^verbatim>\<open>net/url\<close> are arguments of the definitions
  that call them; the accessors \<^verbatim>\<open>Hostname\<close> and \<^verbatim>\<open>Port\<close> are given here.\<close>

record URL =
  urlScheme :: string
  urlUser :: "string option"
  urlHost :: string
  urlPath :: string
  urlRawPath :: string
  urlRawQuery :: string
  urlFragment :: string

definition isDigit :: "char \<Rightarrow> bool" where
  "isDigit c = (48 \<le> byte_of c \<and> byte_of c \<le> 57)"

definition validOptionalPort :: "string \<Rightarrow> bool" where
  "validOptionalPort port = (case port of [] \<Rightarrow> True | c # ds \<Rightarrow> c = CHR '':'' \<and> list_all isDigit ds)"

definition LastIndexByte :: "string \<Rightarrow> char \<Rightarrow> nat option" where
  "LastIndexByte s b = map_option (\<lambda>i. length s - Suc i) (IndexByte (rev s) b)"

definition unbracket :: "string \<Rightarrow> string" where
  "unbracket host = (if HasPrefix host ''['' \<and> HasSuffix host '']'' then butlast (tl host) else host)"

definition splitHostPort :: "string \<Rightarrow> string \<times> string" where
  "splitHostPort hostPort =
     (case LastIndexByte hostPort (CHR '':'') of
        None \<Rightarrow> (unbracket hostPort, [])
      | Some i \<Rightarrow> (if validOptionalPort (drop i hostPort)
                   then (unbracket (take i hostPort), drop (Suc i) hostPort)
                   else (unbracket hostPort, [])))"

definition Hostname :: "URL \<Rightarrow> string" where "Hostname u = fst (splitHostPort (urlHost u))"
definition url_Port :: "URL \<Rightarrow> string" where "url_Port u = snd (splitHostPort (urlHost u))"

text \<open>\<^verbatim>\<open>strconv.Atoi\<close> succeeds: an optional sign and digits in the range of \<^verbatim>\<open>int64\<close>.\<close>

definition digits_value :: "string \<Rightarrow> int" where
  "digits_value ds = foldl (\<lambda>n c. n * 10 + int (byte_of c) - 48) 0 ds"

definition atoi_ok :: "string \<Rightarrow> bool" where
  "atoi_ok s =
     (let neg = (case s of c # _ \<Rightarrow> c = CHR ''-'' | [] \<Rightarrow> False);
          ds = (case s of c # r \<Rightarrow> (if c = CHR ''-'' \<or> c = CHR ''+'' then r else s) | [] \<Rightarrow> [])
      in ds \<noteq> [] \<and> list_all isDigit ds \<and>
         (if neg then digits_value ds \<le> 2 ^ 63 else digits_value ds < 2 ^ 63))"

section \<open>Lemmas\<close>

lemma To4_length: "To4 ip = Some ip4 \<Longrightarrow> length ip4 = 4"
  by (auto simp: To4_def split: if_splits)

lemma To4_mapped [simp]: "length a = 4 \<Longrightarrow> To4 (v4InV6Prefix @ a) = Some a"
  by (simp add: To4_def v4InV6Prefix_def)

lemma To4_four [simp]: "length a = 4 \<Longrightarrow> To4 a = Some a"
  by (simp add: To4_def)

lemma length_four_cases:
  assumes "length (xs :: 'a list) = 4"
  obtains a b c d where "xs = [a, b, c, d]"
  using assms by (auto simp: length_Suc_conv numeral_eq_Suc)

text \<open>Masking off the low bits of a byte, as ranges.\<close>

lemma byte_and_255 [simp]: "(x :: byte) AND 255 = x"
proof -
  have "(255 :: byte) = - 1" by simp
  then show ?thesis by (metis and.right_neutral)
qed

lemma and_high: "unat ((x::byte) AND NOT (mask k)) = unat x div 2 ^ k * 2 ^ k"
proof -
  have "x AND NOT (take_bit k x) = x AND NOT (mask k)"
    by (rule bit_eqI) (auto simp: bit_simps)
  moreover have "NOT x AND take_bit k x = 0" by (rule bit_eqI) (auto simp: bit_simps)
  ultimately have e: "x AND NOT (mask k) = x - take_bit k x"
    by (simp add: disjunctive_diff_eq_and_not)
  have u: "unat (take_bit k x) = unat x mod 2 ^ k" by (simp only: unsigned_take_bit_eq) (simp add: take_bit_eq_mod)
  have "take_bit k x \<le> x" by (simp add: word_le_nat_alt u)
  then show ?thesis by (simp add: e unat_sub u minus_mod_eq_div_mult)
qed

lemma high_masks: "(240::byte) = NOT (mask 4)" "(192::byte) = NOT (mask 6)" "(254::byte) = NOT (mask 1)" "(15::byte) = mask 4"
  by (simp_all add: mask_eq_exp_minus_1)

lemma div_eq_range: "0 < d \<Longrightarrow> (n::nat) div d = q \<longleftrightarrow> d * q \<le> n \<and> n < d * Suc q"
  by (auto intro: div_nat_eqI simp: dividend_less_times_div)

lemma and_high_eq:
  assumes "(m::byte) = NOT (mask k)" "unat y = q * 2 ^ k"
  shows "(x AND m = y) \<longleftrightarrow> 2 ^ k * q \<le> unat x \<and> unat x < 2 ^ k * Suc q"
proof -
  have "(x AND m = y) \<longleftrightarrow> unat x div 2 ^ k * 2 ^ k = q * 2 ^ k"
    unfolding word_unat_eq_iff assms(2) by (simp only: assms(1) and_high)
  also have "\<dots> \<longleftrightarrow> unat x div 2 ^ k = q" by simp
  also have "\<dots> \<longleftrightarrow> 2 ^ k * q \<le> unat x \<and> unat x < 2 ^ k * Suc q" by (rule div_eq_range) simp
  finally show ?thesis .
qed

lemma byte_masks:
  "(x :: byte) AND 240 = 16 \<longleftrightarrow> 16 \<le> x \<and> x \<le> 31"
   "x AND 240 = 224 \<longleftrightarrow> 224 \<le> x \<and> x \<le> 239"
  "x AND 192 = 64 \<longleftrightarrow> 64 \<le> x \<and> x \<le> 127"
  "x AND 192 = 128 \<longleftrightarrow> 128 \<le> x \<and> x \<le> 191"
  "x AND 254 = 18 \<longleftrightarrow> x = 18 \<or> x = 19"
  "x AND 254 = 252 \<longleftrightarrow> x = 252 \<or> x = 253"
proof -
  note h = and_high_eq[OF high_masks(1), of _ 1] and_high_eq[OF high_masks(1), of _ 14]
    and_high_eq[OF high_masks(2), of _ 1] and_high_eq[OF high_masks(2), of _ 2]
    and_high_eq[OF high_masks(3), of _ 9] and_high_eq[OF high_masks(3), of _ 126]
  show "x AND 240 = 16 \<longleftrightarrow> 16 \<le> x \<and> x \<le> 31"
    by (subst h(1)) (auto simp: word_le_nat_alt)
  show  "x AND 240 = 224 \<longleftrightarrow> 224 \<le> x \<and> x \<le> 239" by (subst h(2)) (auto simp: word_le_nat_alt)
  show  "x AND 192 = 64 \<longleftrightarrow> 64 \<le> x \<and> x \<le> 127" by (subst h(3)) (auto simp: word_le_nat_alt)
  show  "x AND 192 = 128 \<longleftrightarrow> 128 \<le> x \<and> x \<le> 191" by (subst h(4)) (auto simp: word_le_nat_alt)
  show  "x AND 254 = 18 \<longleftrightarrow> x = 18 \<or> x = 19" by (subst h(5)) (auto simp: word_unat_eq_iff)
  show  "x AND 254 = 252 \<longleftrightarrow> x = 252 \<or> x = 253" by (subst h(6)) (auto simp: word_unat_eq_iff)
qed

end
