(* ===== verification/Routing.thy ===== *)
theory Routing
  imports Prelude
begin

text \<open>
  The engine registry of \<^verbatim>\<open>internal/engine\<close>: MIME and extension patterns, routing strategies,
  \<^verbatim>\<open>NewRegistry\<close> and the dispatcher \<^verbatim>\<open>PickRouteVerbose\<close>.  The dispatcher is proved to implement
  a declarative rule over the registered entries (the least engine name, in byte order, among
  those that accept the facade and claim the request, phase by phase), and the interface the
  handlers rely on is the locale \<^verbatim>\<open>engine_registry\<close>.
\<close>

section \<open>Data\<close>

type_synonym Name = string
type_synonym Facade = string
type_synonym RoutingStrategy = string

definition FacadeDocling :: Facade where "FacadeDocling = ''docling''"
definition FacadeExternal :: Facade where "FacadeExternal = ''external''"

record EngineCapabilities =
  Facades :: "Facade list"
  HTTPSources :: bool

fun AcceptsFacade_loop :: "Facade list \<Rightarrow> Facade \<Rightarrow> bool" where
  "AcceptsFacade_loop [] f = False"
| "AcceptsFacade_loop (x # xs) f = (if x = f then True else AcceptsFacade_loop xs f)"

definition AcceptsFacade :: "EngineCapabilities \<Rightarrow> Facade \<Rightarrow> bool" where
  "AcceptsFacade c f = AcceptsFacade_loop (Facades c) f"

text \<open>The value methods of the \<^verbatim>\<open>Engine\<close> interface.  \<^verbatim>\<open>engineRef\<close> is the identity of the adapter
  object: Go compares interface values holding pointers by it.\<close>

record Engine =
  engineRef :: nat
  engineName :: Name
  engineURL :: string
  Capabilities :: EngineCapabilities

definition StrategyMime :: RoutingStrategy where "StrategyMime = ''mime''"
definition StrategyExtension :: RoutingStrategy where "StrategyExtension = ''extension''"
definition StrategyMimeThenExt :: RoutingStrategy where "StrategyMimeThenExt = ''mime_then_extension''"
definition StrategyExtThenMime :: RoutingStrategy where "StrategyExtThenMime = ''extension_then_mime''"

lemmas strategy_defs = StrategyMime_def StrategyExtension_def StrategyMimeThenExt_def StrategyExtThenMime_def

record PickHint =
  hintMIME :: string
  hintFilename :: string

datatype PickSource = PickSourceMIME | PickSourceExtension | PickSourceDefault

definition ResolveStrategy :: "RoutingStrategy \<Rightarrow> RoutingStrategy" where
  "ResolveStrategy s =
     (if s \<in> {StrategyMime, StrategyExtension, StrategyMimeThenExt, StrategyExtThenMime} then s
      else StrategyMimeThenExt)"

section \<open>Patterns\<close>

record mimePattern =
  mp_full :: string
  mp_prefix :: string

fun compilePatterns :: "string list \<Rightarrow> mimePattern list" where
  "compilePatterns [] = []"
| "compilePatterns (x # xs) =
     (let s = ToLower (TrimSpace x) in
      if s = [] then compilePatterns xs
      else if HasSuffix s ''/*'' then \<lparr>mp_full = [], mp_prefix = TrimSuffix s ''*''\<rparr> # compilePatterns xs
      else if s = ''*/*'' then \<lparr>mp_full = [], mp_prefix = []\<rparr> # compilePatterns xs
      else \<lparr>mp_full = s, mp_prefix = []\<rparr> # compilePatterns xs)"

definition mimePattern_matches :: "mimePattern \<Rightarrow> string \<Rightarrow> bool" where
  "mimePattern_matches p mime = (if mp_full p \<noteq> [] then mp_full p = mime else HasPrefix mime (mp_prefix p))"

record extPattern =
  ep_ext :: string

fun compileExtensions :: "string list \<Rightarrow> extPattern list" where
  "compileExtensions [] = []"
| "compileExtensions (x # xs) =
     (let s = ToLower (TrimSpace x) in
      if s = [] then compileExtensions xs
      else \<lparr>ep_ext = (if HasPrefix s ''.'' then s else CHR ''.'' # s)\<rparr> # compileExtensions xs)"

definition extPattern_matches :: "extPattern \<Rightarrow> string \<Rightarrow> bool" where
  "extPattern_matches p ext = (if ext = [] then False else ep_ext p = ext)"

text \<open>\<^verbatim>\<open>filepathExt\<close> walks the name from its last byte.\<close>

fun filepathExt_loop :: "string \<Rightarrow> string \<Rightarrow> string" where
  "filepathExt_loop [] acc = []"
| "filepathExt_loop (c # rest) acc =
     (if c = CHR ''/'' \<or> c = CHR 0x5C then []
      else if c = CHR ''.'' then c # acc
      else filepathExt_loop rest (c # acc))"

definition filepathExt :: "string \<Rightarrow> string" where
  "filepathExt name = filepathExt_loop (rev name) []"

definition canonicalMIME :: "string \<Rightarrow> string" where
  "canonicalMIME s0 =
     (let s = TrimSpace s0;
          t = (case IndexByte s (CHR '';'') of None \<Rightarrow> s | Some i \<Rightarrow> take i s)
      in ToLower (TrimSpace t))"

section \<open>The registry\<close>

record RegistryEntry =
  entryEngine :: Engine
  MimeTypes :: "string list"
  Extensions :: "string list"

record namedRoute =
  routeEngine :: Engine
  mimePats :: "mimePattern list"
  extPats :: "extPattern list"

datatype dispatchPhase = phaseMime | phaseExt

record staticRegistry =
  engines :: "(Name, Engine) gomap"
  def_engine :: Engine
  defName :: Name
  order :: "Name list"
  pickOrder :: "namedRoute list"
  strategy :: RoutingStrategy
  phases :: "dispatchPhase list"

definition strategyPhases :: "RoutingStrategy \<Rightarrow> dispatchPhase list" where
  "strategyPhases s =
     (if s = StrategyMime then [phaseMime]
      else if s = StrategyExtension then [phaseExt]
      else if s = StrategyExtThenMime then [phaseExt, phaseMime]
      else [phaseMime, phaseExt])"

text \<open>\<^verbatim>\<open>stringSort\<close>: for each position the inner loop swaps the element down while it is smaller
  than its left neighbour.\<close>

fun siftDown :: "Name list \<Rightarrow> nat \<Rightarrow> Name list" where
  "siftDown xs 0 = xs"
| "siftDown xs (Suc j) =
     (if xs ! j > xs ! Suc j then siftDown (xs[j := xs ! Suc j, Suc j := xs ! j]) j else xs)"

definition stringSort :: "Name list \<Rightarrow> Name list" where
  "stringSort xs = fold (\<lambda>i ys. siftDown ys i) [1..<length xs] xs"

definition mkRoute :: "RegistryEntry \<Rightarrow> namedRoute" where
  "mkRoute e = \<lparr>routeEngine = entryEngine e, mimePats = compilePatterns (MimeTypes e),
                extPats = compileExtensions (Extensions e)\<rparr>"

text \<open>The names come from the map itself, so each lookup of the last loop succeeds.\<close>

definition routesFor :: "(Name, RegistryEntry) gomap \<Rightarrow> Name list \<Rightarrow> namedRoute list" where
  "routesFor entries ns =
     concat (map (\<lambda>n. case map_of entries n of None \<Rightarrow> [] | Some e \<Rightarrow> [mkRoute e]) ns)"

definition nonDefaultNames :: "(Name, RegistryEntry) gomap \<Rightarrow> Name \<Rightarrow> Name list" where
  "nonDefaultNames entries d = filter (\<lambda>n. n \<noteq> d) (map fst entries)"

definition NewRegistry ::
  "(Name, RegistryEntry) gomap \<Rightarrow> Name \<Rightarrow> RoutingStrategy \<Rightarrow> staticRegistry result" where
  "NewRegistry entries defaultEngine strat =
     (if entries = [] then Inl (plain_error ''engine: at least one engine must be registered'')
      else case map_of entries defaultEngine of
        None \<Rightarrow> Inl (sentinel_error ''engine: unknown engine name'' ErrUnknownEngine)
      | Some defEntry \<Rightarrow>
          (let nonDefault = stringSort (nonDefaultNames entries defaultEngine);
               resolved = ResolveStrategy strat
           in Inr \<lparr>engines = map (\<lambda>(n, e). (n, entryEngine e)) entries,
                   def_engine = entryEngine defEntry,
                   defName = defaultEngine,
                   order = nonDefault @ [defaultEngine],
                   pickOrder = routesFor entries nonDefault,
                   strategy = resolved,
                   phases = strategyPhases resolved\<rparr>))"

definition registry_Get :: "staticRegistry \<Rightarrow> Name \<Rightarrow> Engine result" where
  "registry_Get s name =
     (case map_of (engines s) name of
        None \<Rightarrow> Inl (sentinel_error ''engine: unknown engine name'' ErrUnknownEngine)
      | Some e \<Rightarrow> Inr e)"

definition registry_Default :: "staticRegistry \<Rightarrow> Engine" where
  "registry_Default s = def_engine s"

definition registry_Strategy :: "staticRegistry \<Rightarrow> RoutingStrategy" where
  "registry_Strategy s = strategy s"

definition registry_Names :: "staticRegistry \<Rightarrow> Name list" where
  "registry_Names s = order s"

section \<open>Dispatch\<close>

text \<open>The two loops of a phase: the first route that accepts the facade and has a matching
  pattern.\<close>

fun scanRoutes :: "(namedRoute \<Rightarrow> bool) \<Rightarrow> Facade \<Rightarrow> namedRoute list \<Rightarrow> Engine option" where
  "scanRoutes hit facade [] = None"
| "scanRoutes hit facade (np # rest) =
     (if \<not> AcceptsFacade (Capabilities (routeEngine np)) facade then scanRoutes hit facade rest
      else if hit np then Some (routeEngine np)
      else scanRoutes hit facade rest)"

definition mimeHit :: "string \<Rightarrow> namedRoute \<Rightarrow> bool" where
  "mimeHit mime np = list_ex (\<lambda>p. mimePattern_matches p mime) (mimePats np)"

definition extHit :: "string \<Rightarrow> namedRoute \<Rightarrow> bool" where
  "extHit ext np = list_ex (\<lambda>p. extPattern_matches p ext) (extPats np)"

fun runPhases ::
  "staticRegistry \<Rightarrow> Facade \<Rightarrow> string \<Rightarrow> string \<Rightarrow> dispatchPhase list \<Rightarrow> (Engine \<times> PickSource) option" where
  "runPhases s facade mime ext [] = None"
| "runPhases s facade mime ext (phaseMime # phs) =
     (if mime = [] then runPhases s facade mime ext phs
      else case scanRoutes (mimeHit mime) facade (pickOrder s) of
             Some e \<Rightarrow> Some (e, PickSourceMIME)
           | None \<Rightarrow> runPhases s facade mime ext phs)"
| "runPhases s facade mime ext (phaseExt # phs) =
     (if ext = [] then runPhases s facade mime ext phs
      else case scanRoutes (extHit ext) facade (pickOrder s) of
             Some e \<Rightarrow> Some (e, PickSourceExtension)
           | None \<Rightarrow> runPhases s facade mime ext phs)"

definition errNoEngine :: go_error where
  "errNoEngine = sentinel_error ''engine: no enabled engine accepts the requested facade'' ErrNoEngineForFacade"

definition PickRouteVerbose :: "staticRegistry \<Rightarrow> Facade \<Rightarrow> PickHint \<Rightarrow> (Engine \<times> PickSource) result" where
  "PickRouteVerbose s facade hint =
     (let mime = canonicalMIME (hintMIME hint);
          ext = ToLower (filepathExt (hintFilename hint))
      in case runPhases s facade mime ext (phases s) of
           Some r \<Rightarrow> Inr r
         | None \<Rightarrow>
             (if AcceptsFacade (Capabilities (def_engine s)) facade
              then Inr (def_engine s, PickSourceDefault)
              else Inl errNoEngine))"

definition PickRoute :: "staticRegistry \<Rightarrow> Facade \<Rightarrow> PickHint \<Rightarrow> Engine result" where
  "PickRoute s facade hint = (case PickRouteVerbose s facade hint of Inl e \<Rightarrow> Inl e | Inr (eng, _) \<Rightarrow> Inr eng)"

definition Pick :: "staticRegistry \<Rightarrow> Facade \<Rightarrow> string \<Rightarrow> Engine" where
  "Pick s facade mime =
     (case PickRoute s facade \<lparr>hintMIME = mime, hintFilename = []\<rparr> of Inr eng \<Rightarrow> eng | Inl _ \<Rightarrow> def_engine s)"

definition PickWithError :: "staticRegistry \<Rightarrow> Facade \<Rightarrow> string \<Rightarrow> Engine result" where
  "PickWithError s facade mime = PickRoute s facade \<lparr>hintMIME = mime, hintFilename = []\<rparr>"

section \<open>The declarative rule\<close>

text \<open>What dispatch promises, over the registered entries as a finite map: the names that claim
  a request in a phase, and the least of them in the first phase in which there is one.\<close>

definition claimants ::
  "(Name \<rightharpoonup> RegistryEntry) \<Rightarrow> Name \<Rightarrow> Facade \<Rightarrow> (RegistryEntry \<Rightarrow> bool) \<Rightarrow> Name set" where
  "claimants m d facade claims =
     {n. n \<noteq> d \<and> (\<exists>e. m n = Some e \<and> AcceptsFacade (Capabilities (entryEngine e)) facade \<and> claims e)}"

definition claims_mime :: "string \<Rightarrow> RegistryEntry \<Rightarrow> bool" where
  "claims_mime mime e \<longleftrightarrow> mime \<noteq> [] \<and> (\<exists>p \<in> set (compilePatterns (MimeTypes e)). mimePattern_matches p mime)"

definition claims_ext :: "string \<Rightarrow> RegistryEntry \<Rightarrow> bool" where
  "claims_ext ext e \<longleftrightarrow> ext \<noteq> [] \<and> (\<exists>p \<in> set (compileExtensions (Extensions e)). extPattern_matches p ext)"

definition phase_claimants ::
  "(Name \<rightharpoonup> RegistryEntry) \<Rightarrow> Name \<Rightarrow> Facade \<Rightarrow> string \<Rightarrow> string \<Rightarrow> dispatchPhase \<Rightarrow> Name set" where
  "phase_claimants m d facade mime ext ph =
     claimants m d facade (case ph of phaseMime \<Rightarrow> claims_mime mime | phaseExt \<Rightarrow> claims_ext ext)"

definition phase_source :: "dispatchPhase \<Rightarrow> PickSource" where
  "phase_source ph = (case ph of phaseMime \<Rightarrow> PickSourceMIME | phaseExt \<Rightarrow> PickSourceExtension)"

fun spec_phases ::
  "(Name \<rightharpoonup> RegistryEntry) \<Rightarrow> Name \<Rightarrow> Facade \<Rightarrow> string \<Rightarrow> string \<Rightarrow> dispatchPhase list \<Rightarrow> (Engine \<times> PickSource) option" where
  "spec_phases m d facade mime ext [] = None"
| "spec_phases m d facade mime ext (ph # phs) =
     (let C = phase_claimants m d facade mime ext ph in
      if C = {} then spec_phases m d facade mime ext phs
      else Some (entryEngine (the (m (Min C))), phase_source ph))"

definition pick_spec ::
  "(Name \<rightharpoonup> RegistryEntry) \<Rightarrow> Name \<Rightarrow> RoutingStrategy \<Rightarrow> Facade \<Rightarrow> PickHint \<Rightarrow> (Engine \<times> PickSource) result" where
  "pick_spec m d strat facade hint =
     (case spec_phases m d facade (canonicalMIME (hintMIME hint))
             (ToLower (filepathExt (hintFilename hint))) (strategyPhases (ResolveStrategy strat)) of
        Some r \<Rightarrow> Inr r
      | None \<Rightarrow> (if AcceptsFacade (Capabilities (entryEngine (the (m d)))) facade
                 then Inr (entryEngine (the (m d)), PickSourceDefault)
                 else Inl errNoEngine))"


section \<open>Lemmas on patterns and sorting\<close>

lemma AcceptsFacade_iff: "AcceptsFacade c f \<longleftrightarrow> f \<in> set (Facades c)"
proof -
  have "AcceptsFacade_loop xs f \<longleftrightarrow> f \<in> set xs" for xs by (induction xs) auto
  then show ?thesis by (simp add: AcceptsFacade_def)
qed

lemma ResolveStrategy_idem [simp]: "ResolveStrategy (ResolveStrategy s) = ResolveStrategy s"
  by (simp add: ResolveStrategy_def)

lemma filepathExt_loop_eq:
  "filepathExt_loop r acc =
     (let t = takeWhile (\<lambda>c. c \<noteq> CHR ''/'' \<and> c \<noteq> CHR 0x5C \<and> c \<noteq> CHR ''.'') r in
      if length t < length r \<and> r ! length t = CHR ''.'' then CHR ''.'' # rev t @ acc else [])"
  by (induction r arbitrary: acc) (auto simp: Let_def)

text \<open>The extension of a name: the bytes from the last dot, when no path separator follows it.\<close>

lemma filepathExt_suffix:
  assumes "CHR ''.'' \<notin> set t" "CHR ''/'' \<notin> set t" "CHR 0x5C \<notin> set t"
  shows "filepathExt (base @ CHR ''.'' # t) = CHR ''.'' # t"
proof -
  have "filepathExt_loop (rev t @ CHR ''.'' # r) acc = CHR ''.'' # t @ acc" for r acc
    using assms by (induction t arbitrary: acc rule: rev_induct) auto
  then show ?thesis by (simp add: filepathExt_def)
qed

lemma canonicalMIME_eq:
  "canonicalMIME s = ToLower (TrimSpace (takeWhile (\<lambda>c. c \<noteq> CHR '';'') (TrimSpace s)))"
  using IndexByte_take[of "TrimSpace s" "CHR '';''"]
  by (auto simp: canonicalMIME_def Let_def split: option.splits)

lemma set_TrimSpace: "set (TrimSpace s) \<subseteq> set s"
  unfolding TrimSpace_def by (metis set_dropWhileD set_rev subsetI)

lemma lower_byte_eq_semicolon [simp]: "lower_byte c = CHR '';'' \<longleftrightarrow> c = CHR '';''"
proof (cases "65 \<le> byte_of c \<and> byte_of c \<le> 90")
  case True
  then have "byte_of (lower_byte c) \<ge> 97" by (simp add: lower_byte_def)
  moreover have "byte_of (CHR '';'') = 59" by (simp add: byte_of_def)
  ultimately show ?thesis using True by force
next
  case False
  then have "lower_byte c = c" by (auto simp: lower_byte_def)
  then show ?thesis by simp
qed

lemma semicolon_canonicalMIME: "CHR '';'' \<notin> set (canonicalMIME s)"
proof
  assume "CHR '';'' \<in> set (canonicalMIME s)"
  then have "CHR '';'' \<in> lower_byte ` set (TrimSpace (takeWhile (\<lambda>c. c \<noteq> CHR '';'') (TrimSpace s)))"
    by (simp add: canonicalMIME_eq ToLower_def)
  then have "CHR '';'' \<in> set (TrimSpace (takeWhile (\<lambda>c. c \<noteq> CHR '';'') (TrimSpace s)))"
    by (simp only: fixed_mem_image[OF lower_byte_eq_semicolon])
  then have "CHR '';'' \<in> set (takeWhile (\<lambda>c. c \<noteq> CHR '';'') (TrimSpace s))"
    using set_TrimSpace by blast
  then show False by (blast dest: set_takeWhileD)
qed

lemma canonicalMIME_idem [simp]: "canonicalMIME (canonicalMIME s) = canonicalMIME s"
proof -
  have trim: "TrimSpace (canonicalMIME s) = canonicalMIME s"
    by (simp add: canonicalMIME_eq TrimSpace_ToLower)
  have cut: "takeWhile (\<lambda>c. c \<noteq> CHR '';'') (canonicalMIME s) = canonicalMIME s"
    unfolding takeWhile_eq_all_conv using semicolon_canonicalMIME by blast
  have low: "ToLower (canonicalMIME s) = canonicalMIME s"
    by (simp add: canonicalMIME_eq)
  have "canonicalMIME (canonicalMIME s)
      = ToLower (TrimSpace (takeWhile (\<lambda>c. c \<noteq> CHR '';'') (TrimSpace (canonicalMIME s))))"
    by (rule canonicalMIME_eq)
  then show ?thesis by (simp only: trim cut low)
qed

lemma insort_append_less:
  "sorted (xs @ [a]) \<Longrightarrow> x < a \<Longrightarrow> insort x (xs @ [a]) = insort x xs @ [a]"
  by (induction xs) (auto simp: sorted_append)

lemma insort_append_ge:
  assumes "sorted (xs @ [a])" "a \<le> x"
  shows "insort x (xs @ [a]) = xs @ [a, x]"
proof -
  have "sorted (xs @ [a, x])" using assms by (auto simp: sorted_append)
  moreover have "sorted (insort x (xs @ [a]))" using assms by (simp add: sorted_insort)
  moreover have "mset (insort x (xs @ [a])) = mset (xs @ [a, x])" by simp
  ultimately show ?thesis by (metis properties_for_sort)
qed

lemma siftDown_insort:
  "sorted xs \<Longrightarrow> siftDown (xs @ x # ys) (length xs) = insort x xs @ ys"
proof (induction xs arbitrary: ys rule: rev_induct)
  case (snoc a xs)
  have s: "sorted xs" using snoc.prems by (simp add: sorted_append)
  show ?case
  proof (cases "x < a")
    case True
    have "siftDown ((xs @ [a]) @ x # ys) (length (xs @ [a])) = siftDown (xs @ x # a # ys) (length xs)"
      using True by (simp add: nth_append list_update_append)
    also have "\<dots> = insort x xs @ a # ys" by (rule snoc.IH[OF s])
    finally show ?thesis using True snoc.prems by (simp add: insort_append_less)
  next
    case False
    then show ?thesis using snoc.prems by (simp add: nth_append insort_append_ge)
  qed
qed simp

lemma stringSort_loop:
  "sorted xs \<Longrightarrow> length xs = k \<Longrightarrow>
   fold (\<lambda>i ys. siftDown ys i) [k..<k + length zs] (xs @ zs) = fold insort zs xs"
proof (induction zs arbitrary: xs k)
  case (Cons z zs)
  have "fold (\<lambda>i ys. siftDown ys i) [k..<k + length (z # zs)] (xs @ z # zs)
      = fold (\<lambda>i ys. siftDown ys i) [Suc k..<Suc k + length zs] (siftDown (xs @ z # zs) k)"
    by (simp add: upt_rec)
  also have "siftDown (xs @ z # zs) k = insort z xs @ zs"
    using siftDown_insort[OF Cons.prems(1)] Cons.prems(2) by simp
  also have "fold (\<lambda>i ys. siftDown ys i) [Suc k..<Suc k + length zs] (insort z xs @ zs)
      = fold insort zs (insort z xs)"
    using Cons.IH[of "insort z xs" "Suc k"] Cons.prems by (simp add: sorted_insort)
  finally show ?case by simp
qed simp

lemma fold_insort_props: "sorted xs \<Longrightarrow> sorted (fold insort zs xs) \<and> mset (fold insort zs xs) = mset zs + mset xs"
  by (induction zs arbitrary: xs) (auto simp: sorted_insort)

lemma stringSort_eq_sort: "stringSort xs = sort xs"
proof (cases xs)
  case Nil
  then show ?thesis by (simp add: stringSort_def)
next
  case (Cons z zs)
  have "stringSort xs = fold insort zs [z]"
    using stringSort_loop[of "[z]" 1 zs] Cons by (simp add: stringSort_def)
  moreover have "sorted (fold insort zs [z])" "mset (fold insort zs [z]) = mset xs"
    using fold_insort_props[of "[z]" zs] Cons by auto
  ultimately show ?thesis by (metis properties_for_sort sorted_sort mset_sort)
qed

section \<open>Lemmas on construction and dispatch\<close>

lemma set_nonDefaultNames: "set (nonDefaultNames entries d) = dom (map_of entries) - {d}"
  by (auto simp: nonDefaultNames_def dom_map_of_conv_image_fst)

lemma distinct_nonDefaultNames: "map_ok entries \<Longrightarrow> distinct (nonDefaultNames entries d)"
  by (simp add: nonDefaultNames_def map_ok_def)

lemma routesFor_Cons:
  "map_of entries n = Some e \<Longrightarrow> routesFor entries (n # ns) = mkRoute e # routesFor entries ns"
  by (simp add: routesFor_def)

lemma routesFor_cong: "map_of entries = map_of entries' \<Longrightarrow> routesFor entries = routesFor entries'"
  by (simp add: routesFor_def fun_eq_iff)

lemma NewRegistry_Inr:
  assumes "NewRegistry entries d strat = Inr r"
  obtains e where "map_of entries d = Some e" "def_engine r = entryEngine e" "defName r = d"
    "order r = sort (nonDefaultNames entries d) @ [d]"
    "pickOrder r = routesFor entries (sort (nonDefaultNames entries d))"
    "strategy r = ResolveStrategy strat" "phases r = strategyPhases (ResolveStrategy strat)"
    "engines r = map (\<lambda>(n, e). (n, entryEngine e)) entries"
  using assms
  by (auto simp: NewRegistry_def Let_def stringSort_eq_sort split: if_splits option.splits)

lemma scanRoutes_Min:
  fixes hit :: "namedRoute \<Rightarrow> bool" and facade :: Facade
  assumes "sorted ns" "\<forall>n \<in> set ns. map_of entries n \<noteq> None"
  defines "C \<equiv> {n \<in> set ns. \<exists>e. map_of entries n = Some e \<and>
      AcceptsFacade (Capabilities (entryEngine e)) facade \<and> hit (mkRoute e)}"
  shows "scanRoutes hit facade (routesFor entries ns) =
      (if C = {} then None else Some (entryEngine (the (map_of entries (Min C)))))"
  using assms(1,2) unfolding C_def
proof (induction ns)
  case (Cons n ns)
  obtain e where e: "map_of entries n = Some e" using Cons.prems(2) by auto
  define good where "good = (\<lambda>m. \<exists>e. map_of entries m = Some e \<and>
      AcceptsFacade (Capabilities (entryEngine e)) facade \<and> hit (mkRoute e))"
  show ?case
  proof (cases "good n")
    case True
    then have "scanRoutes hit facade (routesFor entries (n # ns)) = Some (entryEngine e)"
      using e by (simp add: good_def routesFor_Cons[OF e] mkRoute_def)
    moreover have "Min {m \<in> set (n # ns). good m} = n"
      using True Cons.prems(1) by (intro Min_eqI) auto
    ultimately show ?thesis using True e by (auto simp: good_def)
  next
    case False
    then have "{m \<in> set (n # ns). good m} = {m \<in> set ns. good m}" by auto
    moreover have "scanRoutes hit facade (routesFor entries (n # ns)) =
        scanRoutes hit facade (routesFor entries ns)"
      using False e by (auto simp: good_def routesFor_Cons[OF e] mkRoute_def)
    ultimately show ?thesis using Cons by (simp add: good_def)
  qed
qed (simp add: routesFor_def)

lemma hit_mkRoute:
  "mimeHit mime (mkRoute e) \<longleftrightarrow> (\<exists>p \<in> set (compilePatterns (MimeTypes e)). mimePattern_matches p mime)"
  "extHit ext (mkRoute e) \<longleftrightarrow> (\<exists>p \<in> set (compileExtensions (Extensions e)). extPattern_matches p ext)"
  by (auto simp: mimeHit_def extHit_def mkRoute_def list_ex_iff)

lemma runPhases_spec:
  assumes "NewRegistry entries d strat = Inr r"
  shows "runPhases r facade mime ext phs = spec_phases (map_of entries) d facade mime ext phs"
proof -
  obtain e0 where po: "pickOrder r = routesFor entries (sort (nonDefaultNames entries d))"
    using assms by (rule NewRegistry_Inr)
  have scan: "scanRoutes hit facade (pickOrder r) =
      (let C = claimants (map_of entries) d facade (\<lambda>e. hit (mkRoute e)) in
       if C = {} then None else Some (entryEngine (the (map_of entries (Min C)))))" for hit
  proof -
    have "claimants (map_of entries) d facade (\<lambda>e. hit (mkRoute e)) =
        {n \<in> set (sort (nonDefaultNames entries d)). \<exists>e. map_of entries n = Some e \<and>
          AcceptsFacade (Capabilities (entryEngine e)) facade \<and> hit (mkRoute e)}"
      by (auto simp: claimants_def set_nonDefaultNames)
    then show ?thesis unfolding po Let_def
      by (subst scanRoutes_Min) (auto simp: set_nonDefaultNames)
  qed
  have empty: "claimants (map_of entries) d facade (claims_mime []) = {}"
    "claimants (map_of entries) d facade (claims_ext []) = {}"
    by (auto simp: claimants_def claims_mime_def claims_ext_def)
  have nonempty: "mime \<noteq> [] \<Longrightarrow> claims_mime mime = (\<lambda>e. mimeHit mime (mkRoute e))"
    "ext \<noteq> [] \<Longrightarrow> claims_ext ext = (\<lambda>e. extHit ext (mkRoute e))"
    by (auto simp: fun_eq_iff claims_mime_def claims_ext_def hit_mkRoute)
  show ?thesis
  proof (induction phs)
    case (Cons ph phs)
    then show ?case
      by (cases ph) (auto simp: phase_claimants_def phase_source_def empty nonempty scan Let_def)
  qed simp
qed

lemma spec_phases_Some:
  assumes "spec_phases m d facade mime ext phs = Some (eng, src)" "finite (dom m)"
  obtains n e where "m n = Some e" "eng = entryEngine e" "n \<noteq> d" "src \<noteq> PickSourceDefault"
    "AcceptsFacade (Capabilities eng) facade"
  using assms(1)
proof (induction phs)
  case (Cons ph phs)
  define C where "C = phase_claimants m d facade mime ext ph"
  show ?case
  proof (cases "C = {}")
    case True
    with Cons show ?thesis by (auto simp: C_def)
  next
    case False
    have "C \<subseteq> dom m" by (auto simp: C_def phase_claimants_def claimants_def)
    then have "finite C" using assms(2) finite_subset by blast
    then have "Min C \<in> C" using False by (rule Min_in)
    then obtain e where "m (Min C) = Some e" "Min C \<noteq> d"
      "AcceptsFacade (Capabilities (entryEngine e)) facade"
      by (auto simp: C_def phase_claimants_def claimants_def)
    moreover have "eng = entryEngine (the (m (Min C)))" "src = phase_source ph"
      using Cons.prems(2) False by (auto simp: C_def Let_def)
    ultimately show ?thesis using Cons.prems(1)
      by (auto simp: phase_source_def split: dispatchPhase.splits)
  qed
qed simp

section \<open>The interface the handlers use\<close>

text \<open>A registry state is well formed when \<^verbatim>\<open>NewRegistry\<close> built it from a map.\<close>

definition registry_ok :: "staticRegistry \<Rightarrow> bool" where
  "registry_ok r \<longleftrightarrow> (\<exists>entries d strat. map_ok entries \<and> NewRegistry entries d strat = Inr r)"

locale engine_registry =
  fixes invar :: "'r \<Rightarrow> bool"
    and pick :: "'r \<Rightarrow> Facade \<Rightarrow> PickHint \<Rightarrow> (Engine \<times> PickSource) result"
    and default :: "'r \<Rightarrow> Engine"
    and get :: "'r \<Rightarrow> Name \<Rightarrow> Engine result"
    and names :: "'r \<Rightarrow> Name list"
  assumes pick_accepts: "invar r \<Longrightarrow> pick r f h = Inr (e, src) \<Longrightarrow> AcceptsFacade (Capabilities e) f"
    and pick_default_source: "invar r \<Longrightarrow> pick r f h = Inr (e, PickSourceDefault) \<Longrightarrow> e = default r"
    and pick_fails: "invar r \<Longrightarrow> pick r f h = Inl err \<Longrightarrow>
          err = errNoEngine \<and> \<not> AcceptsFacade (Capabilities (default r)) f"
    and pick_registered: "invar r \<Longrightarrow> pick r f h = Inr (e, src) \<Longrightarrow> \<exists>n \<in> set (names r). get r n = Inr e"
    and names_get: "invar r \<Longrightarrow> n \<in> set (names r) \<longleftrightarrow> (\<exists>e. get r n = Inr e)"
    and default_registered: "invar r \<Longrightarrow> \<exists>n \<in> set (names r). get r n = Inr (default r)"
begin

text \<open>A default engine that accepts a facade makes dispatch on that facade total.\<close>

lemma pick_total:
  "invar r \<Longrightarrow> AcceptsFacade (Capabilities (default r)) f \<Longrightarrow> \<exists>e src. pick r f h = Inr (e, src)"
  by (cases "pick r f h") (auto dest: pick_fails)

text \<open>The permissive use of the handlers: keep the default when dispatch fails.\<close>

lemma pick_or_default_registered:
  "invar r \<Longrightarrow> \<exists>n \<in> set (names r). get r n = Inr (case pick r f h of Inr (e, _) \<Rightarrow> e | Inl _ \<Rightarrow> default r)"
  by (auto split: sum.splits dest: pick_registered default_registered)

lemma names_nonempty: "invar r \<Longrightarrow> names r \<noteq> []"
  by (auto dest: default_registered)

end

lemma map_of_engines: "map_of (map (\<lambda>(n, e). (n, entryEngine e)) m) = map_option entryEngine \<circ> map_of m"
  by (induction m) auto

lemma PickRouteVerbose_spec:
  assumes "NewRegistry entries d strat = Inr r"
  shows "PickRouteVerbose r facade hint = pick_spec (map_of entries) d strat facade hint"
  using assms
  by (elim NewRegistry_Inr) (auto simp: PickRouteVerbose_def pick_spec_def Let_def runPhases_spec[OF assms]
      split: option.splits)

lemma registry_Get_of:
  "NewRegistry entries d strat = Inr r \<Longrightarrow>
   registry_Get r n = (case map_of entries n of None \<Rightarrow> Inl (sentinel_error ''engine: unknown engine name'' ErrUnknownEngine)
                       | Some e \<Rightarrow> Inr (entryEngine e))"
  by (elim NewRegistry_Inr) (auto simp: registry_Get_def map_of_engines split: option.splits)

lemma registry_Names_set:
  assumes "NewRegistry entries d strat = Inr r"
  shows "set (registry_Names r) = dom (map_of entries)"
  using assms by (elim NewRegistry_Inr) (auto simp: registry_Names_def set_nonDefaultNames)

interpretation static: engine_registry registry_ok PickRouteVerbose registry_Default registry_Get registry_Names
proof unfold_locales
  fix r :: staticRegistry and f h e src err n
  assume "registry_ok r"
  then obtain entries d strat where ok: "map_ok entries" and new: "NewRegistry entries d strat = Inr r"
    by (auto simp: registry_ok_def)
  obtain e0 where e0: "map_of entries d = Some e0" "def_engine r = entryEngine e0"
    using new by (rule NewRegistry_Inr)
  have fin: "finite (dom (map_of entries))" by (rule finite_dom_map_of)
  note facts = PickRouteVerbose_spec[OF new] pick_spec_def e0 registry_Default_def
  show "PickRouteVerbose r f h = Inr (e, src) \<Longrightarrow> AcceptsFacade (Capabilities e) f"
    by (auto simp: facts split: option.splits if_splits elim!: spec_phases_Some[OF _ fin])
  show "PickRouteVerbose r f h = Inr (e, PickSourceDefault) \<Longrightarrow> e = registry_Default r"
    by (auto simp: facts split: option.splits if_splits elim!: spec_phases_Some[OF _ fin])
  show "PickRouteVerbose r f h = Inl err \<Longrightarrow>
      err = errNoEngine \<and> \<not> AcceptsFacade (Capabilities (registry_Default r)) f"
    by (auto simp: facts split: option.splits if_splits)
  show "n \<in> set (registry_Names r) \<longleftrightarrow> (\<exists>e. registry_Get r n = Inr e)"
    by (auto simp: registry_Names_set[OF new] registry_Get_of[OF new] split: option.splits)
  show "\<exists>n \<in> set (registry_Names r). registry_Get r n = Inr (registry_Default r)"
    using e0 by (auto simp: registry_Names_set[OF new] registry_Get_of[OF new] registry_Default_def
        intro!: bexI[of _ d])
  show "PickRouteVerbose r f h = Inr (e, src) \<Longrightarrow> \<exists>n \<in> set (registry_Names r). registry_Get r n = Inr e"
  proof -
    assume "PickRouteVerbose r f h = Inr (e, src)"
    then consider "e = entryEngine e0" | "spec_phases (map_of entries) d f (canonicalMIME (hintMIME h))
        (ToLower (filepathExt (hintFilename h))) (strategyPhases (ResolveStrategy strat)) = Some (e, src)"
      by (auto simp: facts split: option.splits if_splits)
    then have "\<exists>n en. map_of entries n = Some en \<and> e = entryEngine en"
      using e0(1) by cases (blast, metis spec_phases_Some[OF _ fin])
    then obtain n en where "map_of entries n = Some en" "e = entryEngine en" by blast
    then show ?thesis
      by (auto simp: registry_Names_set[OF new] registry_Get_of[OF new] intro!: bexI[of _ n])
  qed
qed


section \<open>Properties\<close>

text \<open>A small registry for the witnesses: a Docling engine that is the default and claims every
  image type, and a Tika engine that claims PDF by type and mail by extension.\<close>

definition demo_docling :: Engine where
  "demo_docling = \<lparr>engineRef = 1, engineName = ''main'', engineURL = ''http://d:5001'',
     Capabilities = \<lparr>Facades = [FacadeDocling], HTTPSources = True\<rparr>\<rparr>"

definition demo_tika :: Engine where
  "demo_tika = \<lparr>engineRef = 2, engineName = ''tika'', engineURL = ''http://t:9998'',
     Capabilities = \<lparr>Facades = [FacadeDocling, FacadeExternal], HTTPSources = False\<rparr>\<rparr>"

definition demo_entries :: "(Name, RegistryEntry) gomap" where
  "demo_entries =
     [(''tika'', \<lparr>entryEngine = demo_tika, MimeTypes = [''application/PDF ''], Extensions = [''EML'']\<rparr>),
      (''main'', \<lparr>entryEngine = demo_docling, MimeTypes = [''image/*''], Extensions = []\<rparr>)]"

definition demo_registry :: staticRegistry where
  "demo_registry = projr (NewRegistry demo_entries ''main'' StrategyMimeThenExt)"

lemma demo_new: "NewRegistry demo_entries ''main'' StrategyMimeThenExt = Inr demo_registry"
  by code_simp

lemma demo_ok: "map_ok demo_entries"
  by code_simp

text \<open>C1: dispatch implements its declarative rule.  For every registry built by \<^verbatim>\<open>NewRegistry\<close>,
  \<^verbatim>\<open>PickRouteVerbose\<close> runs the phases of the resolved strategy in order; in the first phase in
  which some non-default engine accepts the facade and matches, it returns the engine with the
  least name in byte order; if no phase matches, the default engine when it accepts the facade,
  and otherwise \<^verbatim>\<open>ErrNoEngineForFacade\<close>.\<close>

theorem dispatch_implements_rule:
  assumes "NewRegistry entries d strat = Inr r"
  shows "PickRouteVerbose r facade hint = pick_spec (map_of entries) d strat facade hint"
  using assms by (rule PickRouteVerbose_spec)

theorem dispatch_implements_rule_witness:
  "PickRouteVerbose demo_registry FacadeDocling \<lparr>hintMIME = ''text/plain'', hintFilename = ''a.Eml''\<rparr>
     = pick_spec (map_of demo_entries) ''main'' StrategyMimeThenExt FacadeDocling
         \<lparr>hintMIME = ''text/plain'', hintFilename = ''a.Eml''\<rparr>
   \<and> PickRouteVerbose demo_registry FacadeDocling \<lparr>hintMIME = ''text/plain'', hintFilename = ''a.Eml''\<rparr>
     = Inr (demo_tika, PickSourceExtension)"
proof
  show "PickRouteVerbose demo_registry FacadeDocling \<lparr>hintMIME = ''text/plain'', hintFilename = ''a.Eml''\<rparr>
     = pick_spec (map_of demo_entries) ''main'' StrategyMimeThenExt FacadeDocling
         \<lparr>hintMIME = ''text/plain'', hintFilename = ''a.Eml''\<rparr>"
    by (rule dispatch_implements_rule[OF demo_new])
  show "PickRouteVerbose demo_registry FacadeDocling \<lparr>hintMIME = ''text/plain'', hintFilename = ''a.Eml''\<rparr>
     = Inr (demo_tika, PickSourceExtension)"
    by code_simp
qed

text \<open>The order in which Go happens to range over the entries map does not matter: the names,
  the default, every lookup and every routing decision of the registry are the same for each
  permutation of the entries.\<close>

theorem registration_order_irrelevant:
  assumes "map_ok entries" "mset entries' = mset entries" "NewRegistry entries d strat = Inr r"
  shows "\<exists>r'. NewRegistry entries' d strat = Inr r' \<and> registry_Names r' = registry_Names r
           \<and> registry_Default r' = registry_Default r \<and> registry_Get r' = registry_Get r
           \<and> registry_Strategy r' = registry_Strategy r \<and> PickRouteVerbose r' = PickRouteVerbose r"
proof -
  have m: "map_of entries' = map_of entries"
    using assms(1,2) by (metis map_of_perm)
  have ns: "sort (nonDefaultNames entries' d) = sort (nonDefaultNames entries d)"
    using assms(2) by (intro properties_for_sort)
      (simp_all add: nonDefaultNames_def sorted_sort mset_filter mset_map)
  obtain e where e: "map_of entries d = Some e" using assms(3) by (rule NewRegistry_Inr)
  have "entries' \<noteq> []" using assms(2) e by auto
  then obtain r' where r': "NewRegistry entries' d strat = Inr r'"
    using e by (simp add: NewRegistry_def m Let_def)
  have "registry_Get r' = registry_Get r"
    by (simp add: fun_eq_iff registry_Get_of[OF r'] registry_Get_of[OF assms(3)] m)
  moreover have "PickRouteVerbose r' = PickRouteVerbose r"
    by (simp add: fun_eq_iff PickRouteVerbose_spec[OF r'] PickRouteVerbose_spec[OF assms(3)] m)
  moreover have "registry_Names r' = registry_Names r \<and> registry_Default r' = registry_Default r
      \<and> registry_Strategy r' = registry_Strategy r"
    using r' assms(3)
    by (elim NewRegistry_Inr)
      (simp add: registry_Names_def registry_Default_def registry_Strategy_def ns m)
  ultimately show ?thesis using r' by blast
qed

theorem registration_order_irrelevant_witness:
  "\<exists>r'. NewRegistry (rev demo_entries) ''main'' StrategyMimeThenExt = Inr r'
      \<and> registry_Names r' = registry_Names demo_registry
      \<and> registry_Default r' = registry_Default demo_registry \<and> registry_Get r' = registry_Get demo_registry
      \<and> registry_Strategy r' = registry_Strategy demo_registry
      \<and> PickRouteVerbose r' = PickRouteVerbose demo_registry"
  by (rule registration_order_irrelevant[OF demo_ok _ demo_new]) simp

text \<open>Every decision is sound.  An engine that dispatch returns accepts the inbound facade and
  is one of the registered engines; a failure is always \<^verbatim>\<open>ErrNoEngineForFacade\<close> and only happens
  when the default engine does not accept the facade.\<close>

theorem dispatch_sound:
  assumes "registry_ok r"
  shows "case PickRouteVerbose r facade hint of
           Inr (e, src) \<Rightarrow> AcceptsFacade (Capabilities e) facade
             \<and> (\<exists>n \<in> set (registry_Names r). registry_Get r n = Inr e)
             \<and> (src = PickSourceDefault \<longrightarrow> e = registry_Default r)
         | Inl err \<Rightarrow> errors_Is err ErrNoEngineForFacade
             \<and> \<not> AcceptsFacade (Capabilities (registry_Default r)) facade"
proof (cases "PickRouteVerbose r facade hint")
  case (Inl err)
  with static.pick_fails[OF assms Inl] show ?thesis by (simp add: errNoEngine_def)
next
  case (Inr p)
  obtain e src where p: "p = (e, src)" by (cases p)
  note picked = Inr[unfolded p]
  have "AcceptsFacade (Capabilities e) facade" by (rule static.pick_accepts[OF assms picked])
  moreover have "\<exists>n \<in> set (registry_Names r). registry_Get r n = Inr e"
    by (rule static.pick_registered[OF assms picked])
  moreover have "src = PickSourceDefault \<longrightarrow> e = registry_Default r"
    using static.pick_default_source[OF assms] picked by blast
  ultimately show ?thesis by (simp add: Inr p)
qed

theorem dispatch_sound_witness:
  "(case PickRouteVerbose demo_registry FacadeExternal \<lparr>hintMIME = ''image/png'', hintFilename = []\<rparr> of
      Inr (e, src) \<Rightarrow> AcceptsFacade (Capabilities e) FacadeExternal
        \<and> (\<exists>n \<in> set (registry_Names demo_registry). registry_Get demo_registry n = Inr e)
        \<and> (src = PickSourceDefault \<longrightarrow> e = registry_Default demo_registry)
    | Inl err \<Rightarrow> errors_Is err ErrNoEngineForFacade
        \<and> \<not> AcceptsFacade (Capabilities (registry_Default demo_registry)) FacadeExternal)"
proof -
  have "registry_ok demo_registry" using demo_ok demo_new by (auto simp: registry_ok_def)
  then show ?thesis by (rule dispatch_sound)
qed

text \<open>The allowlists of the default engine are never consulted: replacing them leaves every
  routing decision unchanged, so the default engine is a pure catch-all.\<close>

theorem default_allowlists_ignored:
  assumes "map_of entries d = Some e" "NewRegistry entries d strat = Inr r"
    "NewRegistry (map_put d (e\<lparr>MimeTypes := ms, Extensions := xs\<rparr>) entries) d strat = Inr r'"
  shows "PickRouteVerbose r' facade hint = PickRouteVerbose r facade hint"
proof -
  define m where "m = map_of entries"
  define m' where "m' = map_of (map_put d (e\<lparr>MimeTypes := ms, Extensions := xs\<rparr>) entries)"
  have off: "m' n = m n" if "n \<noteq> d" for n using that by (simp add: m_def m'_def)
  have c: "claimants m' d facade P = claimants m d facade P" for P
    by (auto simp: claimants_def off)
  have not_d: "Min (claimants m d facade P) \<noteq> d" if "claimants m d facade P \<noteq> {}" for P
  proof -
    have "finite (claimants m d facade P)"
      by (rule finite_subset[OF _ finite_dom_map_of[of entries]]) (auto simp: claimants_def m_def)
    from Min_in[OF this that] show ?thesis by (auto simp: claimants_def)
  qed
  have "spec_phases m' d facade mime ext phs = spec_phases m d facade mime ext phs" for mime ext phs
    by (induction phs) (simp_all add: phase_claimants_def c Let_def off not_d)
  moreover have "entryEngine (the (m' d)) = entryEngine (the (m d))"
    using assms(1) by (simp add: m_def m'_def)
  ultimately have "pick_spec m' d strat facade hint = pick_spec m d strat facade hint"
    by (simp add: pick_spec_def split: option.split)
  then show ?thesis
    unfolding m_def m'_def PickRouteVerbose_spec[OF assms(2)] PickRouteVerbose_spec[OF assms(3)] .
qed

theorem default_allowlists_ignored_witness:
  "PickRouteVerbose (projr (NewRegistry (map_put ''main''
       (the (map_of demo_entries ''main'')\<lparr>MimeTypes := [''application/pdf''], Extensions := []\<rparr>) demo_entries)
       ''main'' StrategyMimeThenExt)) FacadeDocling \<lparr>hintMIME = ''application/pdf'', hintFilename = []\<rparr>
   = PickRouteVerbose demo_registry FacadeDocling \<lparr>hintMIME = ''application/pdf'', hintFilename = []\<rparr>"
  by (rule default_allowlists_ignored[OF _ demo_new]) code_simp+

text \<open>The universal pattern \<^verbatim>\<open>*/*\<close> does not match every type.  \<^verbatim>\<open>compilePatterns\<close> tests the suffix
  \<^verbatim>\<open>/*\<close> first, so \<^verbatim>\<open>*/*\<close> becomes the prefix pattern \<^verbatim>\<open>*/\<close> and its own branch is unreachable: the
  pattern matches exactly the MIME strings that start with the two bytes \<^verbatim>\<open>*/\<close>.\<close>

theorem universal_pattern_matches_only_star_slash:
  "list_ex (\<lambda>p. mimePattern_matches p mime) (compilePatterns [''*/*'']) \<longleftrightarrow> HasPrefix mime ''*/''"
proof -
  have "compilePatterns [''*/*''] = [\<lparr>mp_full = [], mp_prefix = ''*/''\<rparr>]" by code_simp
  then show ?thesis by (simp add: mimePattern_matches_def)
qed

end
