(* ===== verification/Config.thy ===== *)
theory Config
  imports Complex_Main Http_Header Netip Routing
begin

text \<open>
  \<^verbatim>\<open>internal/config\<close>: the configuration structs as records, the built-in defaults, the environment
  transform, \<^verbatim>\<open>applyEngineDefaults\<close>, \<^verbatim>\<open>resolveSecrets\<close>, every \<^verbatim>\<open>validate\<close> function, the per-engine
  views (\<^verbatim>\<open>EffectiveAuthSpecs\<close>, \<^verbatim>\<open>ResolveUpstream\<close>, \<^verbatim>\<open>AuthWarnings\<close>) and the key mapping of
  \<^verbatim>\<open>structs_provider.go\<close>.  The environment is a function argument.  Durations are \<^verbatim>\<open>int64\<close> nanoseconds,
  kept as integers with the wrap-around written out in the one sum that is taken of them; rates are
  rationals.  Of the validator library, the tags the source writes are modelled, with the library's
  notions of a URL and of a host and port as arguments.
\<close>

section \<open>The configuration structs\<close>

type_synonym Duration = int

definition second :: Duration where "second = 10 ^ 9"
definition minute :: Duration where "minute = 60 * second"

type_synonym CompatType = string
type_synonym AuthScheme = string

definition CompatDocling :: CompatType where "CompatDocling = ''docling''"
definition CompatExternal :: CompatType where "CompatExternal = ''external''"
definition CompatDoclingExternal :: CompatType where "CompatDoclingExternal = ''docling-external''"
definition CompatTika :: CompatType where "CompatTika = ''tika''"

lemmas compat_defs = CompatDocling_def CompatExternal_def CompatDoclingExternal_def CompatTika_def

definition compatTypes :: "CompatType list" where
  "compatTypes = [CompatDocling, CompatExternal, CompatDoclingExternal, CompatTika]"

definition AuthSchemeRaw :: AuthScheme where "AuthSchemeRaw = ''raw''"
definition AuthSchemeBearer :: AuthScheme where "AuthSchemeBearer = ''bearer''"

record TLSServerConfig =
  tlsEnabled :: bool
  tlsCertFile :: string
  tlsKeyFile :: string
  tlsMinVersion :: string
  tlsClientAuth :: string
  tlsClientCAFile :: string

record ServerConfig =
  srvListen :: string
  srvReadTimeout :: Duration
  srvReadHeaderTimeout :: Duration
  srvWriteTimeout :: Duration
  srvIdleTimeout :: Duration
  srvRequestTimeout :: Duration
  srvMaxHeaderBytes :: int
  srvMaxBodyBytes :: int
  srvShutdownGrace :: Duration
  srvHTTP2 :: bool
  srvH2C :: bool
  srvTLS :: TLSServerConfig

record FallbackConfig =
  fbEnabled :: bool
  fbMaxAttempts :: int

record RoutingConfig =
  rtDefaultEngine :: string
  rtStrategy :: RoutingStrategy
  rtDoclingEnabled :: bool
  rtDoclingPrefix :: string
  rtExternalEnabled :: bool
  rtExternalPath :: string
  rtPassthrough :: bool
  rtFallback :: FallbackConfig

record AuthHeaderConfig =
  ahHeader :: string
  ahAPIKeyEnv :: string
  ahAPIKey :: string
  ahScheme :: AuthScheme

record EngineObservabilityConfig =
  eoEnabled :: "bool option"
  eoBodySnippetBytes :: "int option"
  eoLevel4xx :: "string option"
  eoLevel5xx :: "string option"
  eoBodyLogBytes :: "int option"
  eoFullCapture :: "bool option"
  eoFullCaptureBodyBytes :: "int option"

record TLSClientConfig =
  tcInsecureSkipVerify :: bool
  tcCAFile :: string
  tcCertFile :: string
  tcKeyFile :: string
  tcServerName :: string

record HTTPClientConfig =
  hcMaxIdleConns :: int
  hcMaxIdleConnsPerHost :: int
  hcMaxConnsPerHost :: int
  hcIdleConnTimeout :: Duration
  hcTLSHandshakeTimeout :: Duration
  hcResponseHeaderTimeout :: Duration
  hcExpectContinueTimeout :: Duration
  hcDisableCompression :: bool
  hcTLS :: TLSClientConfig

record BreakerConfig =
  brMaxRequests :: nat
  brInterval :: Duration
  brTimeout :: Duration
  brConsecutiveFailuresThreshold :: nat

record RateLimitConfig =
  rlRPS :: rat
  rlBurst :: int

record EngineConfig =
  ecEnable :: bool
  ecCompatType :: CompatType
  ecURL :: string
  ecAPIKeyEnv :: string
  ecAPIKey :: string
  ecAuthHeader :: string
  ecAuthScheme :: AuthScheme
  ecAuthHeaders :: "AuthHeaderConfig list"
  ecRequestTimeout :: Duration
  ecHealthPath :: string
  ecMimeTypes :: "string list"
  ecExtensions :: "string list"
  ecPaths :: "(string, string) gomap"
  ecForwardOptions :: "(string, string) gomap"
  ecHTTP :: HTTPClientConfig
  ecBreaker :: BreakerConfig
  ecRateLimit :: RateLimitConfig
  ecObservability :: EngineObservabilityConfig

record SSRFConfig =
  ssDNSCacheTTL :: Duration
  ssDNSCacheMax :: int
  ssBlockedCIDRs :: "string list"

record CORSConfig =
  corsEnabled :: bool
  corsAllowedOrigins :: "string list"
  corsAllowedMethods :: "string list"
  corsAllowedHeaders :: "string list"
  corsMaxAge :: int

record SecurityConfig =
  seProxyAPIKeysEnv :: string
  seProxyAPIKeyHeader :: string
  seProxyAPIKeys :: "string list"
  seRequireAPIKey :: bool
  sePepperEnv :: string
  sePepper :: string
  seTrustedProxies :: "string list"
  seCORS :: CORSConfig
  seSSRF :: SSRFConfig

record TasksConfig =
  tkEnabled :: bool
  tkRedisURLEnv :: string
  tkRedisURL :: string
  tkQueueConcurrency :: int
  tkRetention :: Duration
  tkRetry :: int
  tkResultTTL :: Duration
  tkTaskTimeout :: Duration
  tkMaxBlobBytes :: int
  tkMaxTotalBytes :: int
  tkQueueWeights :: "(string, int) gomap"

record UpstreamLogConfig =
  ulEnabled :: bool
  ulBodySnippetBytes :: int
  ulLevel4xx :: string
  ulLevel5xx :: string
  ulBodyLogBytes :: int
  ulFullCapture :: bool
  ulFullCaptureBodyBytes :: int

record LogFieldNames =
  fnLevel :: string
  fnMessage :: string
  fnTimestamp :: string
  fnError :: string

record LogConfig =
  lgLevel :: string
  lgFormat :: string
  lgSampling :: bool
  lgAddCaller :: bool
  lgTimezone :: string
  lgTimeFormat :: string
  lgSilencePaths :: "string list"
  lgSilenceEngineHealth :: bool
  lgFieldNames :: LogFieldNames
  lgStaticFields :: "(string, string) gomap"

record MetricsConfig =
  mtEnabled :: bool
  mtPath :: string
  mtListen :: string

record TracingConfig =
  trEnabled :: bool
  trOTLPEndpoint :: string
  trSampleRatio :: rat
  trServiceName :: string

record HealthConfig =
  hlMaxParallel :: int
  hlTimeout :: Duration

record ObservabilityConfig =
  obLog :: LogConfig
  obMetrics :: MetricsConfig
  obTracing :: TracingConfig
  obUpstream :: UpstreamLogConfig
  obHealth :: HealthConfig

record Config =
  cfServer :: ServerConfig
  cfRouting :: RoutingConfig
  cfEngines :: "(Name, EngineConfig) gomap"
  cfSecurity :: SecurityConfig
  cfRateLimitGlobal :: RateLimitConfig
  cfTasks :: TasksConfig
  cfObservability :: ObservabilityConfig
  cfExtensionOverrides :: "(string, string) gomap"

section \<open>Defaults\<close>

definition Default :: Config where
  "Default =
     \<lparr>cfServer =
        \<lparr>srvListen = ''0.0.0.0:8080'', srvReadTimeout = 30 * second, srvReadHeaderTimeout = 10 * second,
         srvWriteTimeout = 5 * minute + 30 * second, srvIdleTimeout = 120 * second, srvRequestTimeout = 5 * minute,
         srvMaxHeaderBytes = 2 ^ 20, srvMaxBodyBytes = 500 * 2 ^ 20, srvShutdownGrace = 30 * second,
         srvHTTP2 = True, srvH2C = False,
         srvTLS = \<lparr>tlsEnabled = False, tlsCertFile = [], tlsKeyFile = [], tlsMinVersion = ''1.3'',
                   tlsClientAuth = ''none'', tlsClientCAFile = []\<rparr>\<rparr>,
      cfRouting =
        \<lparr>rtDefaultEngine = [], rtStrategy = StrategyMimeThenExt, rtDoclingEnabled = True, rtDoclingPrefix = ''/v1'',
         rtExternalEnabled = True, rtExternalPath = ''/process'', rtPassthrough = True,
         rtFallback = \<lparr>fbEnabled = False, fbMaxAttempts = 0\<rparr>\<rparr>,
      cfEngines = [],
      cfSecurity =
        \<lparr>seProxyAPIKeysEnv = ''PROXY_API_KEYS'', seProxyAPIKeyHeader = ''X-Proxy-Api-Key'', seProxyAPIKeys = [],
         seRequireAPIKey = False, sePepperEnv = [], sePepper = [], seTrustedProxies = [],
         seCORS = \<lparr>corsEnabled = False, corsAllowedOrigins = [], corsAllowedMethods = [], corsAllowedHeaders = [], corsMaxAge = 0\<rparr>,
         seSSRF = \<lparr>ssDNSCacheTTL = 60 * second, ssDNSCacheMax = 256, ssBlockedCIDRs = []\<rparr>\<rparr>,
      cfRateLimitGlobal = \<lparr>rlRPS = 200, rlBurst = 400\<rparr>,
      cfTasks =
        \<lparr>tkEnabled = False, tkRedisURLEnv = ''REDIS_URL'', tkRedisURL = [], tkQueueConcurrency = 16,
         tkRetention = 24 * 60 * minute, tkRetry = 3, tkResultTTL = 60 * minute, tkTaskTimeout = 5 * minute,
         tkMaxBlobBytes = 100 * 2 ^ 20, tkMaxTotalBytes = 500 * 2 ^ 20,
         tkQueueWeights = [(''default'', 6), (''low'', 3), (''critical'', 1)]\<rparr>,
      cfObservability =
        \<lparr>obLog = \<lparr>lgLevel = ''info'', lgFormat = ''json'', lgSampling = False, lgAddCaller = False, lgTimezone = ''UTC'',
                  lgTimeFormat = ''RFC3339Nano'', lgSilencePaths = [], lgSilenceEngineHealth = False,
                  lgFieldNames = \<lparr>fnLevel = [], fnMessage = [], fnTimestamp = [], fnError = []\<rparr>, lgStaticFields = []\<rparr>,
         obMetrics = \<lparr>mtEnabled = True, mtPath = ''/metrics'', mtListen = []\<rparr>,
         obTracing = \<lparr>trEnabled = False, trOTLPEndpoint = [], trSampleRatio = 1 / 10, trServiceName = ''owui-cee-proxy''\<rparr>,
         obUpstream = \<lparr>ulEnabled = True, ulBodySnippetBytes = 256, ulLevel4xx = ''warn'', ulLevel5xx = ''error'',
                       ulBodyLogBytes = 0, ulFullCapture = False, ulFullCaptureBodyBytes = 0\<rparr>,
         obHealth = \<lparr>hlMaxParallel = 16, hlTimeout = 5 * second\<rparr>\<rparr>,
      cfExtensionOverrides = []\<rparr>"

definition DefaultEngineConfig :: EngineConfig where
  "DefaultEngineConfig =
     \<lparr>ecEnable = False, ecCompatType = [], ecURL = [], ecAPIKeyEnv = [], ecAPIKey = [], ecAuthHeader = [],
      ecAuthScheme = AuthSchemeRaw, ecAuthHeaders = [], ecRequestTimeout = 120 * second, ecHealthPath = ''/health'',
      ecMimeTypes = [], ecExtensions = [], ecPaths = [], ecForwardOptions = [],
      ecHTTP = \<lparr>hcMaxIdleConns = 256, hcMaxIdleConnsPerHost = 64, hcMaxConnsPerHost = 0, hcIdleConnTimeout = 90 * second,
                hcTLSHandshakeTimeout = 10 * second, hcResponseHeaderTimeout = 30 * second,
                hcExpectContinueTimeout = second, hcDisableCompression = False,
                hcTLS = \<lparr>tcInsecureSkipVerify = False, tcCAFile = [], tcCertFile = [], tcKeyFile = [], tcServerName = []\<rparr>\<rparr>,
      ecBreaker = \<lparr>brMaxRequests = 100, brInterval = 60 * second, brTimeout = 30 * second, brConsecutiveFailuresThreshold = 5\<rparr>,
      ecRateLimit = \<lparr>rlRPS = 50, rlBurst = 100\<rparr>,
      ecObservability = \<lparr>eoEnabled = None, eoBodySnippetBytes = None, eoLevel4xx = None, eoLevel5xx = None,
                         eoBodyLogBytes = None, eoFullCapture = None, eoFullCaptureBodyBytes = None\<rparr>\<rparr>"

definition DefaultConfigPath :: "(string \<Rightarrow> string) \<Rightarrow> string" where
  "DefaultConfigPath getenv =
     (if getenv ''OWUI_PROXY_CONFIG'' \<noteq> [] then getenv ''OWUI_PROXY_CONFIG'' else ''configs/config.example.yaml'')"

definition envTransform :: "string \<Rightarrow> string" where
  "envTransform s = ReplaceAll (ToLower (TrimPrefix s ''OWUI_PROXY_'')) ''__'' ''.''"

text \<open>\<^verbatim>\<open>Secret.String\<close>, also what \<^verbatim>\<open>MarshalText\<close> and \<^verbatim>\<open>MarshalJSON\<close> show.\<close>

definition Secret_String :: "string \<Rightarrow> string" where
  "Secret_String s = (if s = [] then [] else ''***'')"

text \<open>\<^verbatim>\<open>if x == 0 { x = d }\<close> and \<^verbatim>\<open>if x == "" { x = d }\<close>.\<close>

definition orZero :: "int \<Rightarrow> int \<Rightarrow> int" where "orZero x d = (if x = 0 then d else x)"
definition orEmpty :: "string \<Rightarrow> string \<Rightarrow> string" where "orEmpty x d = (if x = [] then d else x)"

definition applyHTTPDefaults :: "HTTPClientConfig \<Rightarrow> HTTPClientConfig \<Rightarrow> HTTPClientConfig" where
  "applyHTTPDefaults d h =
     h\<lparr>hcMaxIdleConns := orZero (hcMaxIdleConns h) (hcMaxIdleConns d),
       hcMaxIdleConnsPerHost := orZero (hcMaxIdleConnsPerHost h) (hcMaxIdleConnsPerHost d),
       hcIdleConnTimeout := orZero (hcIdleConnTimeout h) (hcIdleConnTimeout d),
       hcTLSHandshakeTimeout := orZero (hcTLSHandshakeTimeout h) (hcTLSHandshakeTimeout d),
       hcResponseHeaderTimeout := orZero (hcResponseHeaderTimeout h) (hcResponseHeaderTimeout d),
       hcExpectContinueTimeout := orZero (hcExpectContinueTimeout h) (hcExpectContinueTimeout d)\<rparr>"

definition applyAuthDefaults :: "EngineConfig \<Rightarrow> EngineConfig" where
  "applyAuthDefaults ec =
     (if ecAuthHeader ec = [] then
        (if ecCompatType ec = CompatExternal then
           (let ec = ec\<lparr>ecAuthHeader := ''Authorization''\<rparr> in
            if ecAuthScheme ec = AuthSchemeRaw then ec\<lparr>ecAuthScheme := AuthSchemeBearer\<rparr> else ec)
         else ec\<lparr>ecAuthHeader := ''X-Api-Key''\<rparr>)
      else ec)"

text \<open>The body of the loop of \<^verbatim>\<open>applyEngineDefaults\<close>.\<close>

definition engineDefaults :: "EngineConfig \<Rightarrow> EngineConfig \<Rightarrow> EngineConfig" where
  "engineDefaults def ec =
     applyAuthDefaults
       (ec\<lparr>ecAuthScheme := orEmpty (ecAuthScheme ec) (ecAuthScheme def),
           ecRequestTimeout := orZero (ecRequestTimeout ec) (ecRequestTimeout def),
           ecHealthPath := orEmpty (ecHealthPath ec) (ecHealthPath def),
           ecHTTP := applyHTTPDefaults (ecHTTP def) (ecHTTP ec),
           ecBreaker := (if brMaxRequests (ecBreaker ec) = 0 then ecBreaker def else ecBreaker ec),
           ecRateLimit := (if rlRPS (ecRateLimit ec) = 0 \<and> rlBurst (ecRateLimit ec) = 0 then ecRateLimit def
                           else ecRateLimit ec)\<rparr>)"

definition applyEngineDefaults :: "Config \<Rightarrow> Config" where
  "applyEngineDefaults c = c\<lparr>cfEngines := map (\<lambda>(n, ec). (n, engineDefaults DefaultEngineConfig ec)) (cfEngines c)\<rparr>"

definition splitAndTrim :: "string \<Rightarrow> string list" where
  "splitAndTrim s = filter (\<lambda>p. p \<noteq> []) (map TrimSpace (split_comma [] s))"

definition resolveAuthHeader :: "(string \<Rightarrow> string) \<Rightarrow> AuthHeaderConfig \<Rightarrow> AuthHeaderConfig" where
  "resolveAuthHeader getenv ah = (if ahAPIKeyEnv ah \<noteq> [] then ah\<lparr>ahAPIKey := getenv (ahAPIKeyEnv ah)\<rparr> else ah)"

definition resolveEngineSecrets :: "(string \<Rightarrow> string) \<Rightarrow> EngineConfig \<Rightarrow> EngineConfig" where
  "resolveEngineSecrets getenv ec =
     ec\<lparr>ecAPIKey := (if ecAPIKeyEnv ec \<noteq> [] then getenv (ecAPIKeyEnv ec) else ecAPIKey ec),
        ecAuthHeaders := map (resolveAuthHeader getenv) (ecAuthHeaders ec)\<rparr>"

definition resolveSecuritySecrets :: "(string \<Rightarrow> string) \<Rightarrow> SecurityConfig \<Rightarrow> SecurityConfig" where
  "resolveSecuritySecrets getenv sec =
     sec\<lparr>seProxyAPIKeys := (if seProxyAPIKeysEnv sec \<noteq> [] \<and> getenv (seProxyAPIKeysEnv sec) \<noteq> []
                            then splitAndTrim (getenv (seProxyAPIKeysEnv sec)) else seProxyAPIKeys sec),
         sePepper := (if sePepperEnv sec \<noteq> [] then getenv (sePepperEnv sec) else sePepper sec)\<rparr>"

definition resolveTasksSecrets :: "(string \<Rightarrow> string) \<Rightarrow> TasksConfig \<Rightarrow> TasksConfig" where
  "resolveTasksSecrets getenv tk =
     tk\<lparr>tkRedisURL := (if tkRedisURLEnv tk \<noteq> [] then getenv (tkRedisURLEnv tk) else tkRedisURL tk)\<rparr>"

definition resolveSecrets :: "(string \<Rightarrow> string) \<Rightarrow> Config \<Rightarrow> Config" where
  "resolveSecrets getenv c =
     c\<lparr>cfEngines := map (\<lambda>(n, ec). (n, resolveEngineSecrets getenv ec)) (cfEngines c),
       cfSecurity := resolveSecuritySecrets getenv (cfSecurity c),
       cfTasks := resolveTasksSecrets getenv (cfTasks c)\<rparr>"

section \<open>Validation\<close>

datatype cfg_error =
  StructInvalid
| EngineNameInvalid string
| AuthHeaderInvalid string string
| AuthHeadersInvalid string nat string
| AuthHeaderDuplicate string string string
| DefaultEngineRequired
| DefaultEngineNotFound string
| DefaultEngineDisabled string
| DefaultEngineNoURL string
| DoclingFacadeUnanswered
| ExternalFacadeUnanswered
| SSRFTTLNegative
| BlockedCIDRInvalid string
| TasksRedisURLEmpty string
| TasksBlobExceedsTotal int int
| TaskTimeoutNegative
| QueueWeightNegative string
| TLSFilesMissing
| EngineTimeoutExceedsServer string Duration Duration
| WriteTimeoutTooSmall Duration Duration
| CredentialNonPrintable string nat
| OverrideKeyInvalid string
| OverrideMIMEInvalid string string

definition isLower :: "char \<Rightarrow> bool" where "isLower c = (97 \<le> byte_of c \<and> byte_of c \<le> 122)"
definition isLetter :: "char \<Rightarrow> bool" where
  "isLetter c = ((65 \<le> byte_of c \<and> byte_of c \<le> 90) \<or> (97 \<le> byte_of c \<and> byte_of c \<le> 122))"

definition engineNameRE :: "string \<Rightarrow> bool" where
  "engineNameRE = reToken (\<lambda>c. isLower c \<or> isDigit c) (\<lambda>c. isLower c \<or> isDigit c \<or> byte_of c = 45) 31"

definition authHeaderRE :: "string \<Rightarrow> bool" where
  "authHeaderRE = reToken isLetter (\<lambda>c. isAlnum c \<or> byte_of c = 45) 63"

definition extensionOverrideKeyRE :: "string \<Rightarrow> bool" where
  "extensionOverrideKeyRE s =
     (case s of [] \<Rightarrow> False
      | c # cs \<Rightarrow> byte_of c = 46 \<and> 1 \<le> length cs \<and> length cs \<le> 15 \<and> list_all (\<lambda>x. isLower x \<or> isDigit x) cs)"

text \<open>The bytes \<^verbatim>\<open>A-Za-z0-9!#$&^_.+-\<close>; a slash is not among them, so the first slash splits.\<close>

definition mimeByte :: "char \<Rightarrow> bool" where
  "mimeByte c = (isAlnum c \<or> byte_of c \<in> {33, 35, 36, 38, 94, 95, 46, 43, 45})"

definition mimeValueRE :: "string \<Rightarrow> bool" where
  "mimeValueRE s =
     (case IndexByte s (CHR ''/'') of
        None \<Rightarrow> False
      | Some i \<Rightarrow> reToken isAlnum mimeByte 126 (take i s) \<and> reToken isAlnum mimeByte 126 (drop (Suc i) s))"

definition omitOneOf :: "string \<Rightarrow> string list \<Rightarrow> bool" where
  "omitOneOf v opts = (v = [] \<or> v \<in> set opts)"

text \<open>The struct tags: \<^verbatim>\<open>required\<close>, \<^verbatim>\<open>required_if\<close>, \<^verbatim>\<open>omitempty\<close>, \<^verbatim>\<open>oneof\<close>, \<^verbatim>\<open>gte\<close>, \<^verbatim>\<open>lte\<close>, \<^verbatim>\<open>startswith\<close> and the
  registered \<^verbatim>\<open>compat_type_valid\<close>.\<close>

definition engineTags :: "(string \<Rightarrow> bool) \<Rightarrow> EngineConfig \<Rightarrow> bool" where
  "engineTags isURL ec =
     ((ecEnable ec \<longrightarrow> ecCompatType ec \<noteq> []) \<and> (ecCompatType ec = [] \<or> ecCompatType ec \<in> set compatTypes)
      \<and> (ecEnable ec \<longrightarrow> ecURL ec \<noteq> []) \<and> (ecURL ec = [] \<or> isURL (ecURL ec))
      \<and> omitOneOf (ecAuthScheme ec) [AuthSchemeRaw, AuthSchemeBearer]
      \<and> list_all (\<lambda>ah. ahHeader ah \<noteq> [] \<and> ahAPIKeyEnv ah \<noteq> [] \<and> omitOneOf (ahScheme ah) [AuthSchemeRaw, AuthSchemeBearer])
          (ecAuthHeaders ec))"

definition observabilityTags :: "ObservabilityConfig \<Rightarrow> bool" where
  "observabilityTags ob =
     (omitOneOf (lgLevel (obLog ob)) [''trace'', ''debug'', ''info'', ''warn'', ''error'', ''fatal'', ''panic'']
      \<and> omitOneOf (lgFormat (obLog ob)) [''json'', ''console'']
      \<and> 0 \<le> ulBodySnippetBytes (obUpstream ob)
      \<and> omitOneOf (ulLevel4xx (obUpstream ob)) [''trace'', ''debug'', ''info'', ''warn'', ''error'']
      \<and> omitOneOf (ulLevel5xx (obUpstream ob)) [''trace'', ''debug'', ''info'', ''warn'', ''error'']
      \<and> 0 \<le> ulBodyLogBytes (obUpstream ob)
      \<and> 0 \<le> ulFullCaptureBodyBytes (obUpstream ob) \<and> ulFullCaptureBodyBytes (obUpstream ob) \<le> 65536
      \<and> 0 \<le> trSampleRatio (obTracing ob) \<and> trSampleRatio (obTracing ob) \<le> 1
      \<and> 0 \<le> hlMaxParallel (obHealth ob))"

definition structTags :: "(string \<Rightarrow> bool) \<Rightarrow> (string \<Rightarrow> bool) \<Rightarrow> Config \<Rightarrow> bool" where
  "structTags isHostPort isURL c =
     (srvListen (cfServer c) \<noteq> [] \<and> isHostPort (srvListen (cfServer c))
      \<and> 0 \<le> srvMaxHeaderBytes (cfServer c) \<and> 0 \<le> srvMaxBodyBytes (cfServer c)
      \<and> omitOneOf (tlsClientAuth (srvTLS (cfServer c))) [''none'', ''request'', ''verify'', ''require-and-verify'']
      \<and> rtDefaultEngine (cfRouting c) \<noteq> []
      \<and> omitOneOf (rtStrategy (cfRouting c)) [StrategyMime, StrategyExtension, StrategyMimeThenExt, StrategyExtThenMime]
      \<and> (rtDoclingPrefix (cfRouting c) = [] \<or> HasPrefix (rtDoclingPrefix (cfRouting c)) ''/'')
      \<and> (rtExternalPath (cfRouting c) = [] \<or> HasPrefix (rtExternalPath (cfRouting c)) ''/'')
      \<and> list_all (\<lambda>(n, ec). engineTags isURL ec) (cfEngines c)
      \<and> 0 \<le> ssDNSCacheMax (seSSRF (cfSecurity c))
      \<and> 0 \<le> tkMaxBlobBytes (cfTasks c) \<and> 0 \<le> tkMaxTotalBytes (cfTasks c)
      \<and> observabilityTags (cfObservability c))"

definition validateEngineNames :: "Config \<Rightarrow> cfg_error option" where
  "validateEngineNames c =
     first_error (\<lambda>(name, ec). if engineNameRE name then None else Some (EngineNameInvalid name)) (cfEngines c)"

fun authHeadersLoop ::
  "string \<Rightarrow> (string, string) gomap \<Rightarrow> nat \<Rightarrow> AuthHeaderConfig list \<Rightarrow> cfg_error option" where
  "authHeadersLoop name seen i [] = None"
| "authHeadersLoop name seen i (ah # rest) =
     (if \<not> authHeaderRE (ahHeader ah) then Some (AuthHeadersInvalid name i (ahHeader ah))
      else let key = ToLower (ahHeader ah) in
           case map_of seen key of
             Some prev \<Rightarrow> Some (AuthHeaderDuplicate name (ahHeader ah) prev)
           | None \<Rightarrow> authHeadersLoop name (map_put key (ahHeader ah) seen) (Suc i) rest)"

definition validateEngineAuth :: "string \<times> EngineConfig \<Rightarrow> cfg_error option" where
  "validateEngineAuth e =
     (case e of (name, ec) \<Rightarrow>
        if \<not> ecEnable ec then None
        else if ecAuthHeader ec \<noteq> [] \<and> \<not> authHeaderRE (ecAuthHeader ec)
          then Some (AuthHeaderInvalid name (ecAuthHeader ec))
        else authHeadersLoop name
               (if ecAuthHeader ec \<noteq> [] then [(ToLower (ecAuthHeader ec), ecAuthHeader ec)] else [])
               0 (ecAuthHeaders ec))"

definition validateAuthHeaders :: "Config \<Rightarrow> cfg_error option" where
  "validateAuthHeaders c = first_error validateEngineAuth (cfEngines c)"

definition validateDefaultEngine :: "Config \<Rightarrow> cfg_error option" where
  "validateDefaultEngine c =
     (let d = rtDefaultEngine (cfRouting c) in
      if d = [] then Some DefaultEngineRequired
      else case map_of (cfEngines c) d of
             None \<Rightarrow> Some (DefaultEngineNotFound d)
           | Some ec \<Rightarrow>
               (if \<not> ecEnable ec then Some (DefaultEngineDisabled d)
                else if ecURL ec = [] then Some (DefaultEngineNoURL d)
                else None))"

definition acceptedFacades :: "CompatType \<Rightarrow> Facade list" where
  "acceptedFacades ct =
     (if ct = CompatDocling then [''docling'']
      else if ct = CompatExternal then [''external'']
      else if ct = CompatDoclingExternal then [''docling'', ''external'']
      else if ct = CompatTika then [''docling'', ''external'']
      else [])"

definition facadeCount :: "Facade \<Rightarrow> Config \<Rightarrow> nat" where
  "facadeCount f c =
     length (filter (\<lambda>x. x = f)
       (concat (map (\<lambda>(n, ec). if ecEnable ec then acceptedFacades (ecCompatType ec) else []) (cfEngines c))))"

definition validateFacadeCoverage :: "Config \<Rightarrow> cfg_error option" where
  "validateFacadeCoverage c =
     (if rtDoclingEnabled (cfRouting c) \<and> facadeCount ''docling'' c = 0 then Some DoclingFacadeUnanswered
      else if rtExternalEnabled (cfRouting c) \<and> facadeCount ''external'' c = 0 then Some ExternalFacadeUnanswered
      else None)"

definition validateEnginePaths :: "Config \<Rightarrow> cfg_error option" where
  "validateEnginePaths c = None"

definition validateSSRFConfig :: "Config \<Rightarrow> cfg_error option" where
  "validateSSRFConfig c =
     (if ssDNSCacheTTL (seSSRF (cfSecurity c)) < 0 then Some SSRFTTLNegative
      else first_error (\<lambda>raw. let raw = TrimSpace raw in
             if raw = [] then None
             else if ParseCIDR raw = None then Some (BlockedCIDRInvalid raw) else None)
           (ssBlockedCIDRs (seSSRF (cfSecurity c))))"

definition validateTasksConfig :: "Config \<Rightarrow> cfg_error option" where
  "validateTasksConfig c =
     (let tk = cfTasks c in
      if \<not> tkEnabled tk then None
      else if tkRedisURL tk = [] then Some (TasksRedisURLEmpty (tkRedisURLEnv tk))
      else if tkMaxTotalBytes tk > 0 \<and> tkMaxBlobBytes tk > tkMaxTotalBytes tk
        then Some (TasksBlobExceedsTotal (tkMaxBlobBytes tk) (tkMaxTotalBytes tk))
      else if tkTaskTimeout tk < 0 then Some TaskTimeoutNegative
      else first_error (\<lambda>(q, w). if w < 0 then Some (QueueWeightNegative q) else None) (tkQueueWeights tk))"

definition validateServerTLS :: "Config \<Rightarrow> cfg_error option" where
  "validateServerTLS c =
     (let t = srvTLS (cfServer c) in
      if tlsEnabled t \<and> (tlsCertFile t = [] \<or> tlsKeyFile t = []) then Some TLSFilesMissing else None)"

text \<open>\<^verbatim>\<open>int64\<close> addition.\<close>

definition dur_add :: "Duration \<Rightarrow> Duration \<Rightarrow> Duration" where
  "dur_add a b = (a + b + 2 ^ 63) mod 2 ^ 64 - 2 ^ 63"

definition maxEngineTimeout :: "(Name, EngineConfig) gomap \<Rightarrow> Duration \<times> string" where
  "maxEngineTimeout es =
     fold (\<lambda>(name, ec) (m, mname). if \<not> ecEnable ec then (m, mname)
             else if ecRequestTimeout ec > m then (ecRequestTimeout ec, name) else (m, mname)) es (0, [])"

definition validateTimeoutHierarchy :: "Config \<Rightarrow> cfg_error option" where
  "validateTimeoutHierarchy c =
     (let slack = 2 * second; s = cfServer c; (maxEngine, maxEngineName) = maxEngineTimeout (cfEngines c) in
      if maxEngine > 0 \<and> srvRequestTimeout s > 0 \<and> maxEngine > srvRequestTimeout s
        then Some (EngineTimeoutExceedsServer maxEngineName maxEngine (srvRequestTimeout s))
      else if srvWriteTimeout s > 0 \<and> srvRequestTimeout s > 0 \<and> dur_add (srvRequestTimeout s) slack > srvWriteTimeout s
        then Some (WriteTimeoutTooSmall (srvRequestTimeout s) (srvWriteTimeout s))
      else None)"

fun scanBytes :: "string \<Rightarrow> nat \<Rightarrow> string \<Rightarrow> cfg_error option" where
  "scanBytes scope i [] = None"
| "scanBytes scope i (b # val) =
     (if byte_of b = 9 then scanBytes scope (Suc i) val
      else if byte_of b < 32 \<or> byte_of b > 126 then Some (CredentialNonPrintable scope i)
      else scanBytes scope (Suc i) val)"

definition scanAuthValue :: "string \<Rightarrow> string \<Rightarrow> string \<Rightarrow> cfg_error option" where
  "scanAuthValue eng field val =
     (if val = [] then None
      else scanBytes (if eng \<noteq> [] then ''engines.'' @ eng @ ''.'' @ field else field) 0 val)"

definition validateEngineSecrets :: "string \<times> EngineConfig \<Rightarrow> cfg_error option" where
  "validateEngineSecrets e =
     (case e of (name, ec) \<Rightarrow>
        if \<not> ecEnable ec then None
        else case scanAuthValue name ''api_key'' (ecAPIKey ec) of
               Some er \<Rightarrow> Some er
             | None \<Rightarrow> first_error (\<lambda>(i, ah). scanAuthValue name (''auth_headers['' @ show_nat i @ '']'') (ahAPIKey ah))
                         (zip [0..<length (ecAuthHeaders ec)] (ecAuthHeaders ec)))"

definition validateResolvedSecrets :: "Config \<Rightarrow> cfg_error option" where
  "validateResolvedSecrets c =
     (case first_error validateEngineSecrets (cfEngines c) of
        Some er \<Rightarrow> Some er
      | None \<Rightarrow>
          first_error (\<lambda>(i, k). scanAuthValue [] (''security.proxy_api_keys['' @ show_nat i @ '']'') k)
            (zip [0..<length (seProxyAPIKeys (cfSecurity c))] (seProxyAPIKeys (cfSecurity c))))"

definition validateMimedetect :: "Config \<Rightarrow> cfg_error option" where
  "validateMimedetect c =
     first_error (\<lambda>(k, v). if \<not> extensionOverrideKeyRE k then Some (OverrideKeyInvalid k)
                           else if \<not> mimeValueRE v then Some (OverrideMIMEInvalid k v) else None)
       (cfExtensionOverrides c)"

definition Validate :: "(string \<Rightarrow> bool) \<Rightarrow> (string \<Rightarrow> bool) \<Rightarrow> Config \<Rightarrow> cfg_error option" where
  "Validate isHostPort isURL c =
     (if \<not> structTags isHostPort isURL c then Some StructInvalid
      else first_error (\<lambda>check. check c)
        [validateEngineNames, validateAuthHeaders, validateDefaultEngine, validateFacadeCoverage,
         validateEnginePaths, validateSSRFConfig, validateTasksConfig, validateServerTLS,
         validateTimeoutHierarchy, validateResolvedSecrets, validateMimedetect])"

text \<open>\<^verbatim>\<open>Load\<close> after the koanf layers (defaults, YAML, environment) were merged and unmarshalled, which is
  the argument: an error of that stage or the raw configuration.\<close>

datatype load_error = KoanfError go_error | ValidateError cfg_error

definition Load ::
  "(string \<Rightarrow> bool) \<Rightarrow> (string \<Rightarrow> bool) \<Rightarrow> (string \<Rightarrow> string) \<Rightarrow> Config result \<Rightarrow> load_error + Config" where
  "Load isHostPort isURL getenv merged =
     (case merged of
        Inl e \<Rightarrow> Inl (KoanfError e)
      | Inr out \<Rightarrow>
          (let c = resolveSecrets getenv (applyEngineDefaults out) in
           case Validate isHostPort isURL c of Some e \<Rightarrow> Inl (ValidateError e) | None \<Rightarrow> Inr c))"

section \<open>Views of a configuration\<close>

definition EffectiveAuthSpecs :: "EngineConfig \<Rightarrow> AuthHeaderConfig list" where
  "EffectiveAuthSpecs e =
     (if ecAuthHeader e \<noteq> []
      then [\<lparr>ahHeader = ecAuthHeader e, ahAPIKeyEnv = ecAPIKeyEnv e, ahAPIKey = ecAPIKey e, ahScheme = ecAuthScheme e\<rparr>]
      else []) @ ecAuthHeaders e"

definition orElse :: "'a option \<Rightarrow> 'a \<Rightarrow> 'a" where
  "orElse x d = (case x of Some v \<Rightarrow> v | None \<Rightarrow> d)"

definition ResolveUpstream :: "EngineConfig \<Rightarrow> UpstreamLogConfig \<Rightarrow> UpstreamLogConfig" where
  "ResolveUpstream e global =
     (let ob = ecObservability e in
      \<lparr>ulEnabled = orElse (eoEnabled ob) (ulEnabled global),
       ulBodySnippetBytes = orElse (eoBodySnippetBytes ob) (ulBodySnippetBytes global),
       ulLevel4xx = orElse (eoLevel4xx ob) (ulLevel4xx global),
       ulLevel5xx = orElse (eoLevel5xx ob) (ulLevel5xx global),
       ulBodyLogBytes = orElse (eoBodyLogBytes ob) (ulBodyLogBytes global),
       ulFullCapture = orElse (eoFullCapture ob) (ulFullCapture global),
       ulFullCaptureBodyBytes = orElse (eoFullCaptureBodyBytes ob) (ulFullCaptureBodyBytes global)\<rparr>)"

datatype auth_warning =
  NoKeyEnv string string
| EmptyKeyEnv string string
| EmptyMultiKeyEnv string nat string

definition engineWarnings :: "string \<times> EngineConfig \<Rightarrow> auth_warning list" where
  "engineWarnings e =
     (case e of (name, ec) \<Rightarrow>
        if \<not> ecEnable ec then []
        else if ecAuthHeader ec \<noteq> [] \<and> ecAPIKeyEnv ec = [] then [NoKeyEnv name (ecAuthHeader ec)]
        else (if ecAPIKeyEnv ec \<noteq> [] \<and> ecAPIKey ec = [] then [EmptyKeyEnv name (ecAPIKeyEnv ec)] else [])
             @ concat (map (\<lambda>(i, ah). if ahAPIKeyEnv ah \<noteq> [] \<and> ahAPIKey ah = []
                                      then [EmptyMultiKeyEnv name i (ahAPIKeyEnv ah)] else [])
                        (zip [0..<length (ecAuthHeaders ec)] (ecAuthHeaders ec))))"

definition AuthWarnings :: "Config \<Rightarrow> auth_warning list" where
  "AuthWarnings c = concat (map engineWarnings (cfEngines c))"

section \<open>Key mapping of the defaults\<close>

definition lowerFirst :: "string \<Rightarrow> string" where
  "lowerFirst s = (case s of [] \<Rightarrow> [] | c # cs \<Rightarrow> (if 65 \<le> byte_of c \<and> byte_of c \<le> 90 then char_of (byte_of c + 32) else c) # cs)"

datatype json = JObject "(string \<times> json) list" | JValue string

fun remapKeys :: "(string \<times> json) list \<Rightarrow> (string \<times> json) list" where
  "remapKeys [] = []"
| "remapKeys ((k, JObject t) # m) = (lowerFirst k, JObject (remapKeys t)) # remapKeys m"
| "remapKeys ((k, JValue v) # m) = (lowerFirst k, JValue v) # remapKeys m"

section \<open>Lemmas on validation\<close>

lemma Validate_None:
  "Validate hp url c = None \<longleftrightarrow>
     structTags hp url c \<and> validateEngineNames c = None \<and> validateAuthHeaders c = None
     \<and> validateDefaultEngine c = None \<and> validateFacadeCoverage c = None \<and> validateSSRFConfig c = None
     \<and> validateTasksConfig c = None \<and> validateServerTLS c = None \<and> validateTimeoutHierarchy c = None
     \<and> validateResolvedSecrets c = None \<and> validateMimedetect c = None"
  by (simp add: Validate_def validateEnginePaths_def del: first_error.simps)

lemma Load_Inr:
  "Load hp url getenv merged = Inr c \<longleftrightarrow>
     (\<exists>out. merged = Inr out \<and> c = resolveSecrets getenv (applyEngineDefaults out) \<and> Validate hp url c = None)"
  by (auto simp: Load_def Let_def split: sum.splits option.splits)

lemma authHeaderRE_token: "authHeaderRE h \<Longrightarrow> list_all validHeaderFieldByte h"
  unfolding authHeaderRE_def
  by (erule reToken_all) (auto simp: validHeaderFieldByte_def isLetter_def isAlnum_def)

lemma authHeadersLoop_None:
  "authHeadersLoop name seen i ahs = None \<longleftrightarrow>
     list_all (\<lambda>ah. authHeaderRE (ahHeader ah)) ahs
     \<and> distinct (map (ToLower \<circ> ahHeader) ahs) \<and> fst ` set seen \<inter> set (map (ToLower \<circ> ahHeader) ahs) = {}"
proof (induction name seen i ahs rule: authHeadersLoop.induct)
  case (2 name seen i ah rest)
  have "map_of seen (ToLower (ahHeader ah)) = None \<longleftrightarrow> ToLower (ahHeader ah) \<notin> fst ` set seen"
    by (rule map_of_eq_None_iff)
  with 2 show ?case by (auto simp: Let_def split: option.split)
qed simp

lemma EffectiveAuthSpecs_valid:
  assumes "validateEngineAuth (name, ec) = None" "ecEnable ec"
  shows "list_all (\<lambda>ah. authHeaderRE (ahHeader ah)) (EffectiveAuthSpecs ec)
    \<and> distinct (map (ToLower \<circ> ahHeader) (EffectiveAuthSpecs ec))"
  using assms by (auto simp: validateEngineAuth_def EffectiveAuthSpecs_def authHeadersLoop_None split: if_splits)

lemma distinct_canonical:
  assumes "list_all (\<lambda>h. list_all validHeaderFieldByte h) hs" "distinct (map ToLower hs)"
  shows "distinct (map CanonicalHeaderKey hs)"
proof -
  have "inj_on CanonicalHeaderKey (set hs)"
  proof (rule inj_onI)
    fix x y assume xy: "x \<in> set hs" "y \<in> set hs" "CanonicalHeaderKey x = CanonicalHeaderKey y"
    with assms(1) have "ToLower x = ToLower y" by (auto simp: list_all_iff canonical_eq_iff_fold)
    with assms(2) xy show "x = y" by (auto simp: distinct_map inj_on_def)
  qed
  with assms(2) show ?thesis by (simp add: distinct_map)
qed

definition cleanByte :: "char \<Rightarrow> bool" where
  "cleanByte b \<longleftrightarrow> byte_of b = 9 \<or> (32 \<le> byte_of b \<and> byte_of b \<le> 126)"

lemma scanBytes_None: "scanBytes scope i val = None \<longleftrightarrow> list_all cleanByte val"
  by (induction scope i val rule: scanBytes.induct) (auto simp: cleanByte_def)

lemma scanAuthValue_None: "scanAuthValue eng field val = None \<longleftrightarrow> list_all cleanByte val"
  by (simp add: scanAuthValue_def scanBytes_None)

lemma snd_zip_index: "x \<in> set xs \<Longrightarrow> \<exists>i. (i, x) \<in> set (zip [0..<length xs] xs)"
  by (metis in_set_impl_in_set_zip2 length_upt diff_zero length_map)

lemma maxEngineTimeout_ge:
  "fst (maxEngineTimeout es) \<le> t \<longleftrightarrow> 0 \<le> t \<and> (\<forall>(n, ec) \<in> set es. ecEnable ec \<longrightarrow> ecRequestTimeout ec \<le> t)"
proof -
  let ?f = "\<lambda>(name, ec) (m, mname). if \<not> ecEnable ec then (m, mname)
             else if ecRequestTimeout ec > m then (ecRequestTimeout ec, name) else (m, mname)"
  have "fst (fold ?f es (m, k)) \<le> t \<longleftrightarrow> m \<le> t \<and> (\<forall>(n, ec) \<in> set es. ecEnable ec \<longrightarrow> ecRequestTimeout ec \<le> t)" for m k
  proof (induction es arbitrary: m k)
    case (Cons e es)
    obtain n ec where e: "e = (n, ec)" by fastforce
    show ?case
      by (cases "ecEnable ec"; cases "m < ecRequestTimeout ec") (auto simp: Cons.IH e)
  qed simp
  then show ?thesis by (simp add: maxEngineTimeout_def)
qed

lemma dur_add_in_range: "- (2 ^ 63) \<le> a + b \<Longrightarrow> a + b < 2 ^ 63 \<Longrightarrow> dur_add a b = a + b"
  by (simp add: dur_add_def)

section \<open>What a loaded configuration guarantees\<close>

text \<open>A small configuration the witnesses use: one Docling engine and one external engine with two
  credentials.\<close>

definition demo_raw :: Config where
  "demo_raw = Default\<lparr>cfRouting := (cfRouting Default)\<lparr>rtDefaultEngine := ''main''\<rparr>,
     cfEngines :=
       [(''main'', DefaultEngineConfig\<lparr>ecEnable := True, ecCompatType := CompatDocling, ecURL := ''http://docling:5001'',
            ecAPIKeyEnv := ''KEY''\<rparr>),
        (''loader'', DefaultEngineConfig\<lparr>ecEnable := True, ecCompatType := CompatExternal, ecURL := ''http://loader'',
            ecAPIKeyEnv := ''KEY'',
            ecAuthHeaders := [\<lparr>ahHeader = ''X-Tenant'', ahAPIKeyEnv = ''TENANT'', ahAPIKey = [], ahScheme = []\<rparr>]\<rparr>)]\<rparr>"

definition demo_getenv :: "string \<Rightarrow> string" where
  "demo_getenv k = (if k = ''KEY'' then ''s3cret'' else if k = ''TENANT'' then ''t1'' else [])"

definition demo_config :: Config where
  "demo_config = resolveSecrets demo_getenv (applyEngineDefaults demo_raw)"

lemma demo_valid: "Validate (\<lambda>_. True) (\<lambda>_. True) demo_config = None"
  by code_simp

lemma demo_loads: "Load (\<lambda>_. True) (\<lambda>_. True) demo_getenv (Inr demo_raw) = Inr demo_config"
  using demo_valid by (simp add: Load_def demo_config_def)

text \<open>
  The timeout hierarchy, exactly: the check passes if and only if, when a server request timeout
  is set, no enabled engine has a longer one, and the write timeout, when set as well, leaves at
  least two seconds after it.  (Within two seconds of the end of the \<^verbatim>\<open>int64\<close> range the sum would
  wrap around.)
\<close>

theorem timeout_hierarchy_exact:
  assumes "srvRequestTimeout (cfServer c) < 2 ^ 63 - 2 * second"
  shows "validateTimeoutHierarchy c = None \<longleftrightarrow>
     (0 < srvRequestTimeout (cfServer c) \<longrightarrow>
        (\<forall>(n, ec) \<in> set (cfEngines c). ecEnable ec \<longrightarrow> ecRequestTimeout ec \<le> srvRequestTimeout (cfServer c))
        \<and> (0 < srvWriteTimeout (cfServer c) \<longrightarrow>
             srvRequestTimeout (cfServer c) + 2 * second \<le> srvWriteTimeout (cfServer c)))"
proof -
  let ?t = "srvRequestTimeout (cfServer c)"
  have e: "fst (maxEngineTimeout (cfEngines c)) \<le> ?t \<longleftrightarrow>
      (\<forall>(n, ec) \<in> set (cfEngines c). ecEnable ec \<longrightarrow> ecRequestTimeout ec \<le> ?t)" if "0 < ?t"
    using that by (simp add: maxEngineTimeout_ge)
  have a: "dur_add ?t (2 * second) = ?t + 2 * second" if "0 < ?t"
    using assms that by (intro dur_add_in_range) (auto simp: second_def)
  show ?thesis
    by (cases "maxEngineTimeout (cfEngines c)")
      (use e a in \<open>auto simp: validateTimeoutHierarchy_def Let_def\<close>)
qed

theorem timeout_hierarchy_exact_witness:
  "validateTimeoutHierarchy Default = None"
  using timeout_hierarchy_exact[of Default] by (simp add: Default_def second_def minute_def)

lemma loaded_engine_auth:
  assumes "Load hp url getenv merged = Inr c" "(n, ec) \<in> set (cfEngines c)"
  shows "validateEngineAuth (n, ec) = None"
  using assms by (auto simp: Load_Inr Validate_None validateAuthHeaders_def)

lemma loaded_headers_wellformed:
  assumes "Load hp url getenv merged = Inr c" "(n, ec) \<in> set (cfEngines c)" "ecEnable ec"
  shows "list_all (\<lambda>ah. list_all validHeaderFieldByte (ahHeader ah) \<and> ahHeader ah \<noteq> []) (EffectiveAuthSpecs ec)"
  using EffectiveAuthSpecs_valid[OF loaded_engine_auth[OF assms(1,2)] assms(3)] authHeaderRE_token reToken_nonempty
  unfolding list_all_iff authHeaderRE_def by blast

lemma loaded_headers_distinct:
  assumes "Load hp url getenv merged = Inr c" "(n, ec) \<in> set (cfEngines c)" "ecEnable ec"
  shows "distinct (map (CanonicalHeaderKey \<circ> ahHeader) (EffectiveAuthSpecs ec))"
proof -
  have "distinct (map CanonicalHeaderKey (map ahHeader (EffectiveAuthSpecs ec)))"
    using EffectiveAuthSpecs_valid[OF loaded_engine_auth[OF assms(1,2)] assms(3)] loaded_headers_wellformed[OF assms]
    by (intro distinct_canonical) (simp_all add: list_all_iff)
  then show ?thesis by simp
qed

text \<open>
  In a configuration that loads, the auth headers of each enabled engine are well-formed header
  names, pairwise different as HTTP sees them (up to case), so no credential overwrites another.
\<close>

theorem loaded_auth_headers_distinct:
  assumes "Load hp url getenv merged = Inr c" "(n, ec) \<in> set (cfEngines c)" "ecEnable ec"
  shows "list_all (\<lambda>ah. list_all validHeaderFieldByte (ahHeader ah) \<and> ahHeader ah \<noteq> []) (EffectiveAuthSpecs ec)
     \<and> distinct (map (CanonicalHeaderKey \<circ> ahHeader) (EffectiveAuthSpecs ec))"
  using loaded_headers_wellformed[OF assms] loaded_headers_distinct[OF assms] by (rule conjI)

theorem loaded_auth_headers_distinct_witness:
  "distinct (map (CanonicalHeaderKey \<circ> ahHeader) (EffectiveAuthSpecs (snd (cfEngines demo_config ! 1))))
   \<and> length (EffectiveAuthSpecs (snd (cfEngines demo_config ! 1))) = 2"
proof -
  have l: "length (EffectiveAuthSpecs (snd (cfEngines demo_config ! 1))) = 2"
    and e: "ecEnable (snd (cfEngines demo_config ! 1))" and n: "length (cfEngines demo_config) = 2" by code_simp+
  have "cfEngines demo_config ! 1 \<in> set (cfEngines demo_config)" using n by (intro nth_mem) simp
  then have m: "(fst (cfEngines demo_config ! 1), snd (cfEngines demo_config ! 1)) \<in> set (cfEngines demo_config)" by simp
  from loaded_auth_headers_distinct[OF demo_loads m e] l show ?thesis by blast
qed

text \<open>
  C27: in a configuration that loads, every credential that an enabled engine stamps and every
  proxy key consists of printable ASCII and tabs, so none can inject a header line.
\<close>

theorem loaded_credentials_clean:
  assumes "Load hp url getenv merged = Inr c"
  shows "((n, ec) \<in> set (cfEngines c) \<and> ecEnable ec \<and> ah \<in> set (EffectiveAuthSpecs ec)
           \<longrightarrow> list_all cleanByte (ahAPIKey ah) \<and> \<not> hasCRLF (ahAPIKey ah))
     \<and> (k \<in> set (seProxyAPIKeys (cfSecurity c)) \<longrightarrow> list_all cleanByte k)"
proof -
  have v: "validateResolvedSecrets c = None" using assms by (simp add: Load_Inr Validate_None) blast
  have nocr: "list_all cleanByte x \<Longrightarrow> \<not> hasCRLF x" for x
    by (induction x) (auto simp: hasCRLF_def cleanByte_def)
  have "list_all cleanByte (ahAPIKey ah)"
    if m: "(n, ec) \<in> set (cfEngines c)" "ecEnable ec" "ah \<in> set (EffectiveAuthSpecs ec)"
  proof -
    have s: "validateEngineSecrets (n, ec) = None"
      using v m(1) by (auto simp: validateResolvedSecrets_def split: option.splits)
    have "list_all cleanByte (ecAPIKey ec)" and
      "\<And>a. a \<in> set (ecAuthHeaders ec) \<Longrightarrow> list_all cleanByte (ahAPIKey a)"
      using s m(2) snd_zip_index by (fastforce simp: validateEngineSecrets_def scanAuthValue_None split: option.splits)+
    then show ?thesis using m(3) by (auto simp: EffectiveAuthSpecs_def split: if_splits)
  qed
  moreover have "list_all cleanByte k" if "k \<in> set (seProxyAPIKeys (cfSecurity c))"
    using v snd_zip_index[OF that] by (fastforce simp: validateResolvedSecrets_def scanAuthValue_None split: option.splits)
  ultimately show ?thesis using nocr by blast
qed

theorem loaded_credentials_clean_witness:
  "list_all cleanByte (ahAPIKey (hd (EffectiveAuthSpecs (snd (hd (cfEngines demo_config))))))
   \<and> ahAPIKey (hd (EffectiveAuthSpecs (snd (hd (cfEngines demo_config))))) = ''s3cret''"
proof -
  let ?e = "hd (cfEngines demo_config)"
  have "ecEnable (snd ?e)" "cfEngines demo_config \<noteq> []" "EffectiveAuthSpecs (snd ?e) \<noteq> []"
      and k: "ahAPIKey (hd (EffectiveAuthSpecs (snd ?e))) = ''s3cret''" by code_simp+
  then have "(fst ?e, snd ?e) \<in> set (cfEngines demo_config)" "ecEnable (snd ?e)"
      "hd (EffectiveAuthSpecs (snd ?e)) \<in> set (EffectiveAuthSpecs (snd ?e))" by simp_all
  with loaded_credentials_clean[OF demo_loads, of "fst ?e" "snd ?e" "hd (EffectiveAuthSpecs (snd ?e))"] k
  show ?thesis by blast
qed

lemma facadeCount_pos:
  "facadeCount f c \<noteq> 0 \<longleftrightarrow>
     (\<exists>(n, ec) \<in> set (cfEngines c). ecEnable ec \<and> f \<in> set (acceptedFacades (ecCompatType ec)))"
  by (auto simp: facadeCount_def filter_empty_conv split: if_splits)

lemma loaded_default_engine:
  assumes "Load hp url getenv merged = Inr c"
  shows "\<exists>ec. map_of (cfEngines c) (rtDefaultEngine (cfRouting c)) = Some ec \<and> ecEnable ec \<and> ecURL ec \<noteq> []"
proof -
  have "Validate hp url c = None" using assms by (simp add: Load_Inr) blast
  then show ?thesis
    unfolding Validate_None by (auto simp: validateDefaultEngine_def Let_def split: if_splits option.splits)
qed

lemma loaded_engines:
  assumes "Load hp url getenv merged = Inr c"
  shows "list_all (\<lambda>(n, ec). engineNameRE n \<and> (ecEnable ec \<longrightarrow> ecCompatType ec \<in> set compatTypes \<and> ecURL ec \<noteq> [])) (cfEngines c)"
proof -
  have "Validate hp url c = None" using assms by (simp add: Load_Inr) blast
  then show ?thesis
    unfolding Validate_None by (fastforce simp: validateEngineNames_def structTags_def engineTags_def list_all_iff split: if_splits)
qed

text \<open>
  C26: in a configuration that loads, routing has what it needs: the default engine exists, is
  enabled and has a URL, every engine name is a safe path segment, and each facade that is switched
  on is answered by some enabled engine of a known type.
\<close>

theorem loaded_routing_complete:
  assumes "Load hp url getenv merged = Inr c"
  shows "(\<exists>ec. map_of (cfEngines c) (rtDefaultEngine (cfRouting c)) = Some ec \<and> ecEnable ec \<and> ecURL ec \<noteq> [])
     \<and> list_all (\<lambda>(n, ec). engineNameRE n \<and> (ecEnable ec \<longrightarrow> ecCompatType ec \<in> set compatTypes \<and> ecURL ec \<noteq> [])) (cfEngines c)
     \<and> (rtDoclingEnabled (cfRouting c) \<longrightarrow>
          (\<exists>(n, ec) \<in> set (cfEngines c). ecEnable ec \<and> FacadeDocling \<in> set (acceptedFacades (ecCompatType ec))))
     \<and> (rtExternalEnabled (cfRouting c) \<longrightarrow>
          (\<exists>(n, ec) \<in> set (cfEngines c). ecEnable ec \<and> FacadeExternal \<in> set (acceptedFacades (ecCompatType ec))))"
proof -
  have "Validate hp url c = None" using assms by (simp add: Load_Inr) blast
  then have "validateFacadeCoverage c = None" unfolding Validate_None by simp
  moreover note loaded_default_engine[OF assms] loaded_engines[OF assms]
  ultimately show ?thesis
    by (simp only: validateFacadeCoverage_def FacadeDocling_def FacadeExternal_def facadeCount_pos[symmetric]
        option.distinct if_split_eq1 not_False_eq_True) (auto split: if_splits)
qed

theorem loaded_routing_complete_witness:
  "\<exists>ec. map_of (cfEngines demo_config) ''main'' = Some ec \<and> ecEnable ec \<and> ecURL ec \<noteq> []"
proof -
  have "rtDefaultEngine (cfRouting demo_config) = ''main''" by code_simp
  with loaded_routing_complete[OF demo_loads] show ?thesis by simp
qed

section \<open>Defaults and views\<close>

lemma orZero_idem [simp]: "orZero (orZero x d) d = orZero x d"
  by (simp add: orZero_def)

lemma orEmpty_idem [simp]: "orEmpty (orEmpty x d) d = orEmpty x d"
  by (simp add: orEmpty_def)

lemma applyAuthDefaults_id: "ecAuthHeader ec \<noteq> [] \<Longrightarrow> applyAuthDefaults ec = ec"
  by (simp add: applyAuthDefaults_def)

lemma applyAuthDefaults_header [simp]: "ecAuthHeader (applyAuthDefaults ec) \<noteq> []"
  by (simp add: applyAuthDefaults_def Let_def)

lemma applyAuthDefaults_keeps:
  "ecRequestTimeout (applyAuthDefaults ec) = ecRequestTimeout ec"
  "ecHealthPath (applyAuthDefaults ec) = ecHealthPath ec" "ecHTTP (applyAuthDefaults ec) = ecHTTP ec"
  "ecBreaker (applyAuthDefaults ec) = ecBreaker ec" "ecRateLimit (applyAuthDefaults ec) = ecRateLimit ec"
  "ecAuthScheme ec \<noteq> [] \<Longrightarrow> ecAuthScheme (applyAuthDefaults ec) \<noteq> []"
  by (simp_all add: applyAuthDefaults_def Let_def AuthSchemeBearer_def)

lemma default_engine_values:
  "ecAuthScheme DefaultEngineConfig \<noteq> []" "brMaxRequests (ecBreaker DefaultEngineConfig) \<noteq> 0"
  "rlRPS (ecRateLimit DefaultEngineConfig) \<noteq> 0"
  by (simp_all add: DefaultEngineConfig_def AuthSchemeRaw_def)

text \<open>
  Filling in the engine defaults is idempotent and never leaves an engine without an auth header
  name: the public, header-less engine that the auth code distinguishes does not occur after
  loading.
\<close>

theorem engine_defaults_idempotent:
  "engineDefaults DefaultEngineConfig (engineDefaults DefaultEngineConfig ec) = engineDefaults DefaultEngineConfig ec
   \<and> ecAuthHeader (engineDefaults DefaultEngineConfig ec) \<noteq> []"
proof -
  define d where "d = engineDefaults DefaultEngineConfig ec"
  have h: "ecAuthHeader d \<noteq> []" by (simp add: d_def engineDefaults_def)
  have f: "ecAuthScheme d \<noteq> []"
    unfolding d_def engineDefaults_def
    by (rule applyAuthDefaults_keeps) (simp add: orEmpty_def default_engine_values)
  have k: "orZero (ecRequestTimeout d) (ecRequestTimeout DefaultEngineConfig) = ecRequestTimeout d"
    "orEmpty (ecHealthPath d) (ecHealthPath DefaultEngineConfig) = ecHealthPath d"
    "applyHTTPDefaults (ecHTTP DefaultEngineConfig) (ecHTTP d) = ecHTTP d"
    "(if brMaxRequests (ecBreaker d) = 0 then ecBreaker DefaultEngineConfig else ecBreaker d) = ecBreaker d"
    "(if rlRPS (ecRateLimit d) = 0 \<and> rlBurst (ecRateLimit d) = 0 then ecRateLimit DefaultEngineConfig else ecRateLimit d)
       = ecRateLimit d"
    by (simp_all add: d_def engineDefaults_def applyAuthDefaults_keeps applyHTTPDefaults_def default_engine_values)
  have "engineDefaults DefaultEngineConfig d = d"
    unfolding engineDefaults_def k using h f
    by (subst applyAuthDefaults_id) (simp_all add: orEmpty_def)
  with h show ?thesis by (simp add: d_def)
qed

lemma ToLower_lowerFirst [simp]: "ToLower (lowerFirst k) = ToLower k"
  by (cases k) (auto simp: lowerFirst_def ToLower_def lower_byte_def)

lemma underscore_lower: "lower_byte c = CHR ''_'' \<longleftrightarrow> c = CHR ''_''"
proof -
  have "byte_of (CHR ''_'') = 95" by (simp add: byte_of_def)
  then have "c = CHR ''_'' \<longleftrightarrow> byte_of c = 95" for c by (metis byte_of_inject)
  then show ?thesis by (auto simp: lower_byte_def)
qed

text \<open>
  The defaults layer keys every default by its Go field name with the first letter lowered, and
  that name never matches, not even up to case, a configuration key with an underscore: a default
  such as \<^verbatim>\<open>MaxBodyBytes\<close> cannot reach the key \<^verbatim>\<open>max_body_bytes\<close> it is meant for.
\<close>

theorem defaults_never_reach_snake_case_keys:
  assumes "CHR ''_'' \<notin> set k" "CHR ''_'' \<in> set tag" "(k', v) \<in> set (remapKeys [(k, w)])"
  shows "ToLower k' \<noteq> ToLower tag"
proof -
  have k': "k' = lowerFirst k" using assms(3) by (cases w) auto
  have u: "CHR ''_'' \<in> set (ToLower s) \<longleftrightarrow> CHR ''_'' \<in> set s" for s
    unfolding ToLower_def set_map by (rule fixed_mem_image[OF underscore_lower])
  show ?thesis
  proof
    assume "ToLower k' = ToLower tag"
    then have "ToLower k = ToLower tag" by (simp add: k')
    then have "CHR ''_'' \<in> set k" using u[of k] u[of tag] assms(2) by simp
    with assms(1) show False by blast
  qed
qed

theorem defaults_never_reach_snake_case_keys_witness:
  "ToLower ''maxBodyBytes'' \<noteq> ToLower ''max_body_bytes''"
proof (rule defaults_never_reach_snake_case_keys[of "''MaxBodyBytes''" _ _ "JValue ''524288000''" "JValue ''524288000''"])
  have "remapKeys [(''MaxBodyBytes'', JValue ''524288000'')] = [(''maxBodyBytes'', JValue ''524288000'')]" by code_simp
  then show "(''maxBodyBytes'', JValue ''524288000'') \<in> set (remapKeys [(''MaxBodyBytes'', JValue ''524288000'')])" by simp
qed simp_all

lemma splitAndTrim_clean: "list_all (\<lambda>p. p \<noteq> [] \<and> TrimSpace p = p) (splitAndTrim s)"
  by (auto simp: splitAndTrim_def list_all_iff)

end
