(* ===== verification/Health.thy ===== *)
theory Health
  imports Config
begin

text \<open>
  \<^verbatim>\<open>handlers/health.go\<close> with \<^verbatim>\<open>requiredReadinessNames\<close> of \<^verbatim>\<open>routes.go\<close>: the readiness endpoint.  Probes run concurrently and write
  their outcome into one map under a lock, so a run is an order in which the probes complete.  The probes themselves are arguments.
\<close>

section \<open>Probes\<close>

record probeResult =
  prName :: string
  prStatus :: string
  prError :: "go_error option"

definition probeOne :: "staticRegistry \<Rightarrow> (Engine \<Rightarrow> go_error option) \<Rightarrow> Name \<Rightarrow> probeResult" where
  "probeOne reg health nm =
     (case registry_Get reg nm of
        Inl err \<Rightarrow> \<lparr>prName = nm, prStatus = ''unhealthy'', prError = Some err\<rparr>
      | Inr e \<Rightarrow>
          (case health e of
             Some err \<Rightarrow> \<lparr>prName = nm, prStatus = ''unhealthy'', prError = Some err\<rparr>
           | None \<Rightarrow> \<lparr>prName = nm, prStatus = ''ok'', prError = None\<rparr>))"

definition probeRedis :: "go_error option \<Rightarrow> probeResult" where
  "probeRedis outcome =
     (case outcome of
        Some err \<Rightarrow> \<lparr>prName = ''redis'', prStatus = ''unhealthy'', prError = Some err\<rparr>
      | None \<Rightarrow> \<lparr>prName = ''redis'', prStatus = ''ok'', prError = None\<rparr>)"

text \<open>The probes started for a request; without Redis configured there is no Redis probe.\<close>

definition probes :: "staticRegistry \<Rightarrow> (Engine \<Rightarrow> go_error option) \<Rightarrow> go_error option option \<Rightarrow> probeResult list" where
  "probes reg health redis =
     map (probeOne reg health) (registry_Names reg) @ (case redis of None \<Rightarrow> [] | Some outcome \<Rightarrow> [probeRedis outcome])"

definition requiredReadinessNames :: "Config \<Rightarrow> string list" where
  "requiredReadinessNames cfg =
     (if rtDefaultEngine (cfRouting cfg) \<noteq> [] then [rtDefaultEngine (cfRouting cfg)] else [])
     @ (if tkEnabled (cfTasks cfg) then [''redis''] else [])"

section \<open>The verdict\<close>

definition statusFor :: "int \<Rightarrow> string" where
  "statusFor s = (if s = 200 then ''ready'' else ''not-ready'')"

fun tierLoop :: "string list \<Rightarrow> int \<Rightarrow> string list \<Rightarrow> (string, string) gomap \<Rightarrow> int \<times> string list" where
  "tierLoop required overall degraded [] = (overall, degraded)"
| "tierLoop required overall degraded ((nm, v) # results) =
     (if v = ''ok'' then tierLoop required overall degraded results
      else if nm \<in> set required then tierLoop required 503 degraded results
      else tierLoop required overall (degraded @ [nm]) results)"

fun allOkLoop :: "(string, string) gomap \<Rightarrow> int" where
  "allOkLoop [] = 200"
| "allOkLoop ((nm, v) # results) = (if v \<noteq> ''ok'' then 503 else allOkLoop results)"

record readyReply =
  ryStatus :: int
  ryBodyStatus :: string
  ryEngines :: "(string, string) gomap"
  ryDegraded :: "string list"
  ryLog :: "(string \<times> go_error) list"
  ryMetrics :: "(string \<times> string) list"

definition Readiness :: "string list \<Rightarrow> probeResult list \<Rightarrow> readyReply" where
  "Readiness required done =
     (let results = fold (\<lambda>p m. map_put (prName p) (prStatus p) m) done [];
          (overall, degraded) = (if required \<noteq> [] then tierLoop required 200 [] results else (allOkLoop results, []))
      in \<lparr>ryStatus = overall, ryBodyStatus = statusFor overall, ryEngines = results, ryDegraded = degraded,
          ryLog = List.map_filter (\<lambda>p. map_option (Pair (prName p)) (prError p)) done,
          ryMetrics = map (\<lambda>p. (prName p, prStatus p)) done\<rparr>)"

definition Liveness :: "int \<times> string" where
  "Liveness = (200, ''ok'')"

section \<open>Lemmas\<close>

lemma tierLoop_spec:
  "fst (tierLoop required overall degraded results) =
     (if \<exists>(n, v) \<in> set results. v \<noteq> ''ok'' \<and> n \<in> set required then 503 else overall)
   \<and> snd (tierLoop required overall degraded results) =
     degraded @ map fst (filter (\<lambda>(n, v). v \<noteq> ''ok'' \<and> n \<notin> set required) results)"
  by (induction required overall degraded results rule: tierLoop.induct) auto

lemma allOkLoop_spec: "allOkLoop results = (if \<exists>(n, v) \<in> set results. v \<noteq> ''ok'' then 503 else 200)"
  by (induction results rule: allOkLoop.induct) auto

lemma map_ok_fold_put: "map_ok m \<Longrightarrow> map_ok (fold (\<lambda>p m. map_put (prName p) (prStatus p) m) ps m)"
  by (induction ps arbitrary: m) auto

lemma probe_results_lookup:
  "map_of (fold (\<lambda>p m. map_put (prName p) (prStatus p) m) ps m) n =
     (case filter (\<lambda>p. prName p = n) ps of [] \<Rightarrow> map_of m n | qs \<Rightarrow> Some (prStatus (last qs)))"
proof (induction ps arbitrary: m)
  case (Cons p ps)
  then show ?case by (auto split: list.split)
qed simp

text \<open>When all probes of a name agree, the order of completion does not show.\<close>

lemma results_lookup:
  fixes ps :: "probeResult list"
  assumes "\<forall>p \<in> set ps. \<forall>q \<in> set ps. prName p = prName q \<longrightarrow> prStatus p = prStatus q"
  shows "map_of (fold (\<lambda>p m. map_put (prName p) (prStatus p) m) ps []) n = Some v \<longleftrightarrow> (\<exists>p \<in> set ps. prName p = n \<and> prStatus p = v)"
proof (cases "filter (\<lambda>p. prName p = n) ps")
  case Nil
  then show ?thesis by (auto simp: probe_results_lookup filter_empty_conv)
next
  case (Cons q qs)
  have "last (q # qs) \<in> set (filter (\<lambda>p. prName p = n) ps)" unfolding Cons by (rule last_in_set) simp
  then have l: "last (q # qs) \<in> set ps" "prName (last (q # qs)) = n" by simp_all
  have "map_of (fold (\<lambda>p m. map_put (prName p) (prStatus p) m) ps []) n = Some (prStatus (last (q # qs)))"
    by (simp only: probe_results_lookup Cons list.case)
  with l assms show ?thesis by (metis option.inject)
qed

lemma results_member:
  fixes ps :: "probeResult list"
  assumes "\<forall>p \<in> set ps. \<forall>q \<in> set ps. prName p = prName q \<longrightarrow> prStatus p = prStatus q"
  shows "set (fold (\<lambda>p m. map_put (prName p) (prStatus p) m) ps []) = (\<lambda>p. (prName p, prStatus p)) ` set ps"
proof -
  have ok: "map_ok (fold (\<lambda>p m. map_put (prName p) (prStatus p) m) ps [])" by (rule map_ok_fold_put) (simp add: map_ok_def)
  then have "(n, v) \<in> set (fold (\<lambda>p m. map_put (prName p) (prStatus p) m) ps []) \<longleftrightarrow> (\<exists>p \<in> set ps. prName p = n \<and> prStatus p = v)" for n v
    using results_lookup[OF assms, of n v] by (simp add: map_ok_def)
  then show ?thesis by auto
qed

lemma probes_agree:
  assumes "''redis'' \<notin> set (registry_Names reg)" "p \<in> set (probes reg health redis)" "q \<in> set (probes reg health redis)" "prName p = prName q"
  shows "prStatus p = prStatus q"
proof -
  have n: "prName (probeOne reg health nm) = nm" for nm by (simp add: probeOne_def split: sum.split option.split)
  have r: "prName (probeRedis o') = ''redis''" for o' by (simp add: probeRedis_def split: option.split)
  from assms show ?thesis by (auto simp: probes_def n r split: option.splits)
qed

lemma Readiness_tiered:
  assumes "set done = set (probes reg health redis)" "''redis'' \<notin> set (registry_Names reg)" "required \<noteq> []"
  shows "ryStatus (Readiness required done) = (if \<exists>p \<in> set done. prStatus p \<noteq> ''ok'' \<and> prName p \<in> set required then 503 else 200)"
    "set (ryDegraded (Readiness required done)) = {prName p | p. p \<in> set done \<and> prStatus p \<noteq> ''ok'' \<and> prName p \<notin> set required}"
    "map_of (ryEngines (Readiness required done)) n = Some v \<longleftrightarrow> (\<exists>p \<in> set done. prName p = n \<and> prStatus p = v)"
proof -
  have a: "\<forall>p \<in> set done. \<forall>q \<in> set done. prName p = prName q \<longrightarrow> prStatus p = prStatus q"
    using probes_agree[OF assms(2)] assms(1) by blast
  note m = results_member[OF a]
  show "ryStatus (Readiness required done) = (if \<exists>p \<in> set done. prStatus p \<noteq> ''ok'' \<and> prName p \<in> set required then 503 else 200)"
    using assms(3) tierLoop_spec by (auto simp: Readiness_def Let_def m split_beta)
  show "set (ryDegraded (Readiness required done)) = {prName p | p. p \<in> set done \<and> prStatus p \<noteq> ''ok'' \<and> prName p \<notin> set required}"
    using assms(3) tierLoop_spec by (auto simp: Readiness_def Let_def m split_beta image_iff) blast+
  show "map_of (ryEngines (Readiness required done)) n = Some v \<longleftrightarrow> (\<exists>p \<in> set done. prName p = n \<and> prStatus p = v)"
    using results_lookup[OF a] by (simp add: Readiness_def Let_def split_beta)
qed

section \<open>Readiness of a configured proxy\<close>

lemma probeOne_facts:
  "prName (probeOne reg health n) = n"
  "prStatus (probeOne reg health n) \<noteq> ''ok'' \<longleftrightarrow> (\<forall>e. registry_Get reg n = Inr e \<longrightarrow> health e \<noteq> None)"
  by (simp_all add: probeOne_def split: sum.split option.split)

lemma probeRedis_facts:
  "prName (probeRedis redis) = ''redis''" "prStatus (probeRedis redis) \<noteq> ''ok'' \<longleftrightarrow> redis \<noteq> None"
  by (simp_all add: probeRedis_def split: option.split)

text \<open>
  C37: what makes the pod ready.  In whatever order the probes complete, \<^verbatim>\<open>/readyz\<close> answers 200 exactly when the default engine is
  healthy and, with tasks enabled, Redis answers; other failing engines are listed as degraded, exactly those, and never take the pod
  out of rotation.  The hypothesis that no engine is called \<^verbatim>\<open>redis\<close> is needed: the two probes would write one entry.
\<close>

theorem readiness_exact:
  assumes "registry_ok reg" "registry_Get reg (rtDefaultEngine (cfRouting cfg)) = Inr (registry_Default reg)"
    and "rtDefaultEngine (cfRouting cfg) \<noteq> []" "''redis'' \<notin> set (registry_Names reg)"
    and "mset done = mset (probes reg health (if tkEnabled (cfTasks cfg) then Some redis else None))"
  shows "ryStatus (Readiness (requiredReadinessNames cfg) done) =
       (if health (registry_Default reg) = None \<and> (tkEnabled (cfTasks cfg) \<longrightarrow> redis = None) then 200 else 503)
     \<and> set (ryDegraded (Readiness (requiredReadinessNames cfg) done)) =
         {n. n \<noteq> rtDefaultEngine (cfRouting cfg) \<and> (\<exists>e. registry_Get reg n = Inr e \<and> health e \<noteq> None)}"
proof -
  let ?d = "rtDefaultEngine (cfRouting cfg)" and ?req = "requiredReadinessNames cfg"
  let ?ps = "probes reg health (if tkEnabled (cfTasks cfg) then Some redis else None)"
  have sd: "set done = set ?ps" using assms(5) by (rule mset_eq_setD)
  have r: "?req \<noteq> []" using assms(3) by (simp add: requiredReadinessNames_def)
  note t = Readiness_tiered[OF sd assms(4) r]
  have dn: "?d \<in> set (registry_Names reg)" using static.names_get[OF assms(1)] assms(2) by blast
  have g: "\<exists>e. registry_Get reg n = Inr e" if "n \<in> set (registry_Names reg)" for n
    using static.names_get[OF assms(1)] that by blast
  note one = probeOne_facts[of reg health] and red = probeRedis_facts
  have ps: "set done = probeOne reg health ` set (registry_Names reg) \<union> (if tkEnabled (cfTasks cfg) then {probeRedis redis} else {})"
    unfolding sd by (simp add: probes_def)
  have nr: "n \<in> set ?req \<longleftrightarrow> n = ?d \<or> (tkEnabled (cfTasks cfg) \<and> n = ''redis'')" for n
    using assms(3) by (auto simp: requiredReadinessNames_def)
  have ex: "(\<exists>p \<in> set done. P p) \<longleftrightarrow> (\<exists>n \<in> set (registry_Names reg). P (probeOne reg health n)) \<or> (tkEnabled (cfTasks cfg) \<and> P (probeRedis redis))" for P
    unfolding ps by auto
  have bad: "prStatus (probeOne reg health n) \<noteq> ''ok'' \<longleftrightarrow> (\<exists>e. registry_Get reg n = Inr e \<and> health e \<noteq> None)" if "n \<in> set (registry_Names reg)" for n
    using g[OF that] one(2)[of n] by auto
  have "(\<exists>n \<in> set (registry_Names reg). prStatus (probeOne reg health n) \<noteq> ''ok'' \<and> n \<in> set ?req) \<longleftrightarrow> prStatus (probeOne reg health ?d) \<noteq> ''ok''"
    unfolding nr using dn assms(4) by blast
  moreover have "prStatus (probeOne reg health ?d) \<noteq> ''ok'' \<longleftrightarrow> health (registry_Default reg) \<noteq> None"
    unfolding bad[OF dn] assms(2) by simp
  moreover have "''redis'' \<in> set ?req" if "tkEnabled (cfTasks cfg)" unfolding nr using that by simp
  ultimately have st: "(\<exists>p \<in> set done. prStatus p \<noteq> ''ok'' \<and> prName p \<in> set ?req) \<longleftrightarrow>
      health (registry_Default reg) \<noteq> None \<or> (tkEnabled (cfTasks cfg) \<and> redis \<noteq> None)"
    unfolding ex one(1) red by blast
  have "x \<in> {prName p | p. p \<in> set done \<and> prStatus p \<noteq> ''ok'' \<and> prName p \<notin> set ?req} \<longleftrightarrow>
      x \<noteq> ?d \<and> (\<exists>e. registry_Get reg x = Inr e \<and> health e \<noteq> None)" for x
  proof -
    have "x \<in> {prName p | p. p \<in> set done \<and> prStatus p \<noteq> ''ok'' \<and> prName p \<notin> set ?req} \<longleftrightarrow>
        (\<exists>p \<in> set done. prStatus p \<noteq> ''ok'' \<and> prName p \<notin> set ?req \<and> x = prName p)" by blast
    also have "\<dots> \<longleftrightarrow> x \<in> set (registry_Names reg) \<and> prStatus (probeOne reg health x) \<noteq> ''ok'' \<and> x \<notin> set ?req"
      unfolding ex one(1) red nr by blast
    also have "\<dots> \<longleftrightarrow> x \<noteq> ?d \<and> (\<exists>e. registry_Get reg x = Inr e \<and> health e \<noteq> None)"
      using bad[of x] static.names_get[OF assms(1), of x] assms(4) unfolding nr by blast
    finally show ?thesis .
  qed
  then have "set (ryDegraded (Readiness ?req done)) = {n. n \<noteq> ?d \<and> (\<exists>e. registry_Get reg n = Inr e \<and> health e \<noteq> None)}"
    unfolding t(2) by blast
  then show ?thesis unfolding t(1) st by auto
qed

definition demo_health_config :: Config where
  "demo_health_config = Default\<lparr>cfRouting := (cfRouting Default)\<lparr>rtDefaultEngine := ''main''\<rparr>,
     cfTasks := (cfTasks Default)\<lparr>tkEnabled := True\<rparr>\<rparr>"

text \<open>The default engine is up, the other engine is down, Redis answers: the pod is ready and degraded.\<close>

definition demo_tika_down :: "Engine \<Rightarrow> go_error option" where
  "demo_tika_down e = (if engineName e = ''tika'' then Some (plain_error ''down'') else None)"

theorem readiness_exact_witness:
  "ryStatus (Readiness (requiredReadinessNames demo_health_config)
       [probeRedis None, probeOne demo_registry demo_tika_down ''main'', probeOne demo_registry demo_tika_down ''tika'']) = 200
   \<and> ''tika'' \<in> set (ryDegraded (Readiness (requiredReadinessNames demo_health_config)
       [probeRedis None, probeOne demo_registry demo_tika_down ''main'', probeOne demo_registry demo_tika_down ''tika'']))"
proof -
  let ?done = "[probeRedis None, probeOne demo_registry demo_tika_down ''main'', probeOne demo_registry demo_tika_down ''tika'']"
  have ok: "registry_ok demo_registry" using demo_ok demo_new by (auto simp: registry_ok_def)
  have c: "rtDefaultEngine (cfRouting demo_health_config) = ''main''" "tkEnabled (cfTasks demo_health_config)"
    by (simp_all add: demo_health_config_def)
  have g: "registry_Get demo_registry ''main'' = Inr (registry_Default demo_registry)"
    "registry_Get demo_registry ''tika'' = Inr demo_tika" by code_simp+
  have n: "registry_Names demo_registry = [''tika'', ''main'']" by code_simp
  have h: "demo_tika_down (registry_Default demo_registry) = None" "demo_tika_down demo_tika \<noteq> None" by code_simp+
  have m: "mset ?done = mset (probes demo_registry demo_tika_down (if tkEnabled (cfTasks demo_health_config) then Some None else None))"
    by (simp add: probes_def n c)
  note r = readiness_exact[OF ok, of demo_health_config ?done demo_tika_down None]
  show ?thesis using r m g h n c by simp
qed

text \<open>An engine that happens to be called \<^verbatim>\<open>redis\<close> can hide that Redis is down: its probe may be the last to write the shared entry.\<close>

lemma redis_engine_masks_probe:
  assumes "registry_Get reg ''redis'' = Inr e" "health e = None"
  shows "ryStatus (Readiness [''redis''] [probeRedis (Some err), probeOne reg health ''redis'']) = 200"
    and "ryStatus (Readiness [''redis''] [probeOne reg health ''redis'', probeRedis (Some err)]) = 503"
  using assms by (simp_all add: Readiness_def probeRedis_def probeOne_def Let_def)

end
