(* ===== verification/Mimedetect.thy ===== *)
theory Mimedetect
  imports Routing
begin

text \<open>
  \<^verbatim>\<open>internal/engine/mimedetect\<close>: the effective MIME type of an upload from its declared
  Content-Type, a magic-byte sniff and its filename.  The sniffer is the third-party package
  \<^verbatim>\<open>gabriel-vasile/mimetype\<close>; it is the parameter \<open>detect\<close>, with \<^term>\<open>None\<close> for its nil result.
\<close>

datatype Source =
  SourceDeclared | SourceSniffed | SourceSniffedThenExtension | SourceExtension | SourceFallback

record Result =
  resMIME :: string
  resSource :: Source

definition octetStream :: string where
  "octetStream = ''application/octet-stream''"

definition genericDeclared :: "string list" where
  "genericDeclared = ['''', ''application/octet-stream'', ''binary/octet-stream'']"

definition cfbAmbiguousSniffs :: "string list" where
  "cfbAmbiguousSniffs =
     [''application/vnd.ms-powerpoint'', ''application/vnd.ms-office'', ''application/x-cfb'',
      ''application/x-ole-storage'', ''application/msword'', ''application/vnd.ms-excel'']"

definition builtinExtensionMap :: "(string, string) gomap" where
  "builtinExtensionMap =
     [(''.msg'', ''application/vnd.ms-outlook''),
      (''.doc'', ''application/msword''),
      (''.xls'', ''application/vnd.ms-excel''),
      (''.ppt'', ''application/vnd.ms-powerpoint''),
      (''.docx'', ''application/vnd.openxmlformats-officedocument.wordprocessingml.document''),
      (''.xlsx'', ''application/vnd.openxmlformats-officedocument.spreadsheetml.sheet''),
      (''.pptx'', ''application/vnd.openxmlformats-officedocument.presentationml.presentation''),
      (''.eml'', ''message/rfc822''),
      (''.csv'', ''text/csv''),
      (''.tsv'', ''text/tab-separated-values'')]"

record Resolver =
  extMap :: "(string, string) gomap"

definition NewResolver :: "(string, string) gomap \<Rightarrow> Resolver" where
  "NewResolver overrides =
     \<lparr>extMap = fold (\<lambda>(k, v) eff. map_put (ToLower (TrimSpace k)) (ToLower (TrimSpace v)) eff)
                 overrides builtinExtensionMap\<rparr>"

definition defaultResolver :: Resolver where
  "defaultResolver = NewResolver []"

text \<open>\<^verbatim>\<open>extOf\<close> walks the name from its last byte, like \<^const>\<open>filepathExt\<close>, and lowercases.\<close>

fun extOf_loop :: "string \<Rightarrow> string \<Rightarrow> string" where
  "extOf_loop [] acc = []"
| "extOf_loop (c # rest) acc =
     (if c = CHR ''/'' \<or> c = CHR 0x5C then []
      else if c = CHR ''.'' then ToLower (c # acc)
      else extOf_loop rest (c # acc))"

definition extOf :: "string \<Rightarrow> string" where
  "extOf name = extOf_loop (rev name) []"

definition canonical :: "string \<Rightarrow> string" where
  "canonical ct0 =
     (let ct = TrimSpace ct0 in
      if ct = [] then []
      else let t = (case IndexByte ct (CHR '';'') of None \<Rightarrow> ct | Some i \<Rightarrow> take i ct)
           in ToLower (TrimSpace t))"

text \<open>A missing key of a Go map of strings reads as the empty string.\<close>

definition lookupByFilename :: "Resolver \<Rightarrow> string \<Rightarrow> string" where
  "lookupByFilename r filename =
     (let ext = extOf filename in
      if ext = [] then [] else case map_of (extMap r) ext of None \<Rightarrow> [] | Some v \<Rightarrow> v)"

definition sniffed :: "(string \<Rightarrow> string option) \<Rightarrow> string \<Rightarrow> string" where
  "sniffed detect headPeek =
     (if headPeek = [] then [] else case detect headPeek of None \<Rightarrow> [] | Some m \<Rightarrow> canonical m)"

definition Resolve :: "(string \<Rightarrow> string option) \<Rightarrow> Resolver \<Rightarrow> string \<Rightarrow> string \<Rightarrow> string \<Rightarrow> Result" where
  "Resolve detect r declared0 headPeek filename =
     (let declared = canonical declared0 in
      if declared \<notin> set genericDeclared then \<lparr>resMIME = declared, resSource = SourceDeclared\<rparr>
      else
       let sniff = sniffed detect headPeek;
           sniffGeneric = (sniff \<in> set genericDeclared);
           sniffAmbig = (sniff \<in> set cfbAmbiguousSniffs) in
       if sniff \<noteq> [] \<and> \<not> sniffGeneric \<and> \<not> sniffAmbig then \<lparr>resMIME = sniff, resSource = SourceSniffed\<rparr>
       else
        let extMIME = lookupByFilename r filename in
        if sniffAmbig \<and> extMIME \<noteq> [] then \<lparr>resMIME = extMIME, resSource = SourceSniffedThenExtension\<rparr>
        else if extMIME \<noteq> [] \<and> (sniff = [] \<or> sniffGeneric) then \<lparr>resMIME = extMIME, resSource = SourceExtension\<rparr>
        else if sniffAmbig then \<lparr>resMIME = sniff, resSource = SourceSniffed\<rparr>
        else \<lparr>resMIME = octetStream, resSource = SourceFallback\<rparr>)"

text \<open>The lowercased extension of \<^verbatim>\<open>handlers/pick_decision_log.go\<close>: the same walk, with an inline
  ASCII loop for the case.\<close>

fun log_filepathExt_loop :: "string \<Rightarrow> string \<Rightarrow> string" where
  "log_filepathExt_loop [] acc = []"
| "log_filepathExt_loop (c # rest) acc =
     (if c = CHR ''/'' \<or> c = CHR 0x5C then []
      else if c = CHR ''.'' then map (\<lambda>b. if 65 \<le> byte_of b \<and> byte_of b \<le> 90 then char_of (byte_of b + 32) else b) (c # acc)
      else log_filepathExt_loop rest (c # acc))"

definition log_filepathExt :: "string \<Rightarrow> string" where
  "log_filepathExt name = log_filepathExt_loop (rev name) []"

section \<open>Lemmas\<close>

lemma extOf_eq: "extOf name = ToLower (filepathExt name)"
proof -
  have "extOf_loop r acc = ToLower (filepathExt_loop r acc)" for r acc
    by (induction r arbitrary: acc) auto
  then show ?thesis by (simp add: extOf_def filepathExt_def)
qed

lemma log_filepathExt_eq: "log_filepathExt name = ToLower (filepathExt name)"
proof -
  have "log_filepathExt_loop r acc = ToLower (filepathExt_loop r acc)" for r acc
    by (induction r arbitrary: acc) (auto simp: ToLower_def lower_byte_def)
  then show ?thesis by (simp add: log_filepathExt_def filepathExt_def)
qed

lemma canonical_eq: "canonical = canonicalMIME"
proof
  fix s
  have "TrimSpace [] = []" by (simp add: TrimSpace_def)
  then show "canonical s = canonicalMIME s"
    by (simp add: canonical_def canonicalMIME_def Let_def)
qed

lemma generic_disjoint_cfb: "set genericDeclared \<inter> set cfbAmbiguousSniffs = {}"
  by code_simp

lemma Nil_generic [simp]: "[] \<in> set genericDeclared"
  by (simp add: genericDeclared_def)

lemma sniff_ambig_not_generic: "s \<in> set cfbAmbiguousSniffs \<Longrightarrow> s \<notin> set genericDeclared"
  using generic_disjoint_cfb by blast

lemma canonicalMIME_fixed:
  assumes "TrimSpace s = s" "ToLower s = s" "CHR '';'' \<notin> set s"
  shows "canonicalMIME s = s"
proof -
  have "takeWhile (\<lambda>c. c \<noteq> CHR '';'') s = s"
    unfolding takeWhile_eq_all_conv using assms(3) by blast
  then show ?thesis by (simp only: canonicalMIME_eq assms(1,2))
qed

lemma NewResolver_values:
  assumes "\<forall>(k, v) \<in> set overrides. CHR '';'' \<notin> set v"
    and "map_of (extMap (NewResolver overrides)) ext = Some v"
  shows "canonicalMIME v = v"
proof -
  define P where "P = (\<lambda>m :: (string, string) gomap. \<forall>e v. map_of m e = Some v \<longrightarrow> canonicalMIME v = v)"
  have step: "P (map_put (ToLower (TrimSpace k)) (ToLower (TrimSpace w)) m)"
    if "P m" "CHR '';'' \<notin> set w" for k w m
  proof -
    have "CHR '';'' \<notin> set (TrimSpace w)" using that(2) set_TrimSpace by blast
    then have "CHR '';'' \<notin> lower_byte ` set (TrimSpace w)"
      by (simp only: fixed_mem_image[OF lower_byte_eq_semicolon] not_False_eq_True)
    then have "canonicalMIME (ToLower (TrimSpace w)) = ToLower (TrimSpace w)"
      by (intro canonicalMIME_fixed) (simp_all add: TrimSpace_ToLower, simp add: ToLower_def)
    then show ?thesis using that(1) by (simp add: P_def)
  qed
  have "P (fold (\<lambda>(k, v) eff. map_put (ToLower (TrimSpace k)) (ToLower (TrimSpace v)) eff) os m)"
    if "P m" "\<forall>(k, v) \<in> set os. CHR '';'' \<notin> set v" for os m
    using that by (induction os arbitrary: m) (auto intro: step)
  moreover have "P builtinExtensionMap"
  proof -
    have "\<forall>v \<in> set (map snd builtinExtensionMap). canonicalMIME v = v" by code_simp
    then show ?thesis unfolding P_def by (metis in_set_zipE map_of_SomeD zip_map_fst_snd)
  qed
  ultimately have "P (extMap (NewResolver overrides))"
    using assms(1) by (simp add: NewResolver_def)
  then show ?thesis using assms(2) by (simp add: P_def)
qed

lemma canonicalMIME_Nil [simp]: "canonicalMIME [] = []"
  by code_simp

lemma canonicalMIME_sniffed [simp]: "canonicalMIME (sniffed detect h) = sniffed detect h"
  by (simp add: sniffed_def canonical_eq split: option.split)

lemmas Resolve_simps = Resolve_def Let_def

section \<open>Properties\<close>

text \<open>C21: the resolution table.  The outcome of \<^verbatim>\<open>Resolve\<close> is determined by three facts: whether the
  canonical declared type is generic, whether the sniff is generic, Compound-File ambiguous or
  specific, and whether the filename extension is mapped.  For each source the conditions under
  which it is reported, and the MIME that is reported with it, are exactly these.\<close>

theorem resolve_decision_table:
  fixes detect r declared head filename
  defines "d \<equiv> canonical declared" and "s \<equiv> sniffed detect head"
    and "x \<equiv> lookupByFilename r filename"
    and "G \<equiv> set genericDeclared" and "A \<equiv> set cfbAmbiguousSniffs"
    and "res \<equiv> Resolve detect r declared head filename"
  shows "(resSource res = SourceDeclared \<longleftrightarrow> d \<notin> G)
    \<and> (resSource res = SourceSniffed \<longleftrightarrow> d \<in> G \<and> s \<notin> G \<and> (s \<in> A \<longrightarrow> x = []))
    \<and> (resSource res = SourceSniffedThenExtension \<longleftrightarrow> d \<in> G \<and> s \<in> A \<and> x \<noteq> [])
    \<and> (resSource res = SourceExtension \<longleftrightarrow> d \<in> G \<and> s \<in> G \<and> x \<noteq> [])
    \<and> (resSource res = SourceFallback \<longleftrightarrow> d \<in> G \<and> s \<in> G \<and> x = [])
    \<and> resMIME res = (case resSource res of SourceDeclared \<Rightarrow> d | SourceSniffed \<Rightarrow> s
         | SourceSniffedThenExtension \<Rightarrow> x | SourceExtension \<Rightarrow> x | SourceFallback \<Rightarrow> octetStream)"
proof -
  have "s = [] \<Longrightarrow> s \<in> G" "s \<in> A \<Longrightarrow> s \<notin> G"
    by (auto simp: G_def A_def dest: sniff_ambig_not_generic)
  then show ?thesis
    unfolding res_def Resolve_simps d_def[symmetric] s_def[symmetric] x_def[symmetric]
      G_def[symmetric] A_def[symmetric]
    by (cases "d \<in> G"; cases "s \<in> G"; cases "s \<in> A"; cases "x = []") auto
qed

theorem resolve_decision_table_witness:
  "resSource (Resolve (\<lambda>_. Some ''application/vnd.ms-powerpoint'') defaultResolver '''' ''x'' ''mail.MSG'')
     = SourceSniffedThenExtension
   \<and> resMIME (Resolve (\<lambda>_. Some ''application/vnd.ms-powerpoint'') defaultResolver '''' ''x'' ''mail.MSG'')
     = ''application/vnd.ms-outlook''"
proof -
  have s: "resSource (Resolve (\<lambda>_. Some ''application/vnd.ms-powerpoint'') defaultResolver '''' ''x'' ''mail.MSG'')
     = SourceSniffedThenExtension" by code_simp
  have x: "lookupByFilename defaultResolver ''mail.MSG'' = ''application/vnd.ms-outlook''" by code_simp
  show ?thesis
    using resolve_decision_table[of "\<lambda>_. Some ''application/vnd.ms-powerpoint''" defaultResolver "[]" "''x''" "''mail.MSG''"]
    by (simp only: s x) simp
qed

text \<open>The resolved MIME is always a canonical media type (lower case, trimmed, no parameters)
  and never empty, provided no operator override carries a parameter; dispatch canonicalises it
  again without changing it.\<close>

theorem resolved_mime_canonical:
  assumes "\<forall>(k, v) \<in> set overrides. CHR '';'' \<notin> set v"
  shows "canonicalMIME (resMIME (Resolve detect (NewResolver overrides) declared head filename))
           = resMIME (Resolve detect (NewResolver overrides) declared head filename)
       \<and> resMIME (Resolve detect (NewResolver overrides) declared head filename) \<noteq> []"
proof -
  let ?r = "NewResolver overrides" and ?s = "sniffed detect head"
  have x: "canonicalMIME (lookupByFilename ?r filename) = lookupByFilename ?r filename"
    using NewResolver_values[OF assms] by (auto simp: lookupByFilename_def Let_def split: option.splits)
  have o1: "canonicalMIME octetStream = octetStream" "octetStream \<noteq> []" by code_simp+
  have ne: "y \<notin> set genericDeclared \<Longrightarrow> y \<noteq> []" for y by auto
  show ?thesis
    by (auto simp: Resolve_simps canonical_eq x o1 dest: ne sniff_ambig_not_generic)
qed

theorem resolved_mime_canonical_witness:
  "canonicalMIME (resMIME (Resolve (\<lambda>_. None) (NewResolver [(''.X'', '' Text/X '')]) ''binary/octet-stream; q=1'' ''b'' ''a.x''))
     = ''text/x''
   \<and> resMIME (Resolve (\<lambda>_. None) (NewResolver [(''.X'', '' Text/X '')]) ''binary/octet-stream; q=1'' ''b'' ''a.x'') \<noteq> []"
proof -
  have h: "\<forall>(k, v) \<in> set [(''.X'', '' Text/X '')]. CHR '';'' \<notin> set v" by simp
  have v: "resMIME (Resolve (\<lambda>_. None) (NewResolver [(''.X'', '' Text/X '')]) ''binary/octet-stream; q=1'' ''b'' ''a.x'') = ''text/x''"
    by code_simp
  show ?thesis
    using resolved_mime_canonical[OF h, of "\<lambda>_. None" "''binary/octet-stream; q=1''" "''b''" "''a.x''"] v by simp
qed

text \<open>A sniff of plain text is final.  When the declared type is generic and the sniffer reports
  \<^verbatim>\<open>text/plain\<close> (with any parameters), the result is \<^verbatim>\<open>text/plain\<close> whatever the filename and the
  operator's extension overrides say; a \<^verbatim>\<open>.csv\<close> or \<^verbatim>\<open>.eml\<close> upload with such a body is not narrowed
  by its extension.\<close>

theorem text_plain_sniff_ignores_extension:
  assumes "canonical declared \<in> set genericDeclared" "head \<noteq> []"
    and "detect head = Some m" "canonical m = ''text/plain''"
  shows "Resolve detect (NewResolver overrides) declared head filename
           = \<lparr>resMIME = ''text/plain'', resSource = SourceSniffed\<rparr>"
  using assms by (simp add: Resolve_simps sniffed_def genericDeclared_def cfbAmbiguousSniffs_def)

theorem text_plain_sniff_ignores_extension_witness:
  "Resolve (\<lambda>_. Some ''text/plain; charset=utf-8'') (NewResolver [(''.csv'', ''text/csv'')]) '''' ''a,b'' ''t.csv''
     = \<lparr>resMIME = ''text/plain'', resSource = SourceSniffed\<rparr>"
  by (rule text_plain_sniff_ignores_extension[of _ _ _ "''text/plain; charset=utf-8''"]) code_simp+

text \<open>The copies of one rule agree.  The MIME canonicalisation of the resolver is the one of the
  dispatcher, and the extension seen by the resolver, by the decision log and by the dispatcher's
  extension phase is the same string, so the value that is logged is the value that routed.\<close>

theorem extension_and_mime_helpers_agree:
  "canonical s = canonicalMIME s
   \<and> extOf name = ToLower (filepathExt name)
   \<and> log_filepathExt name = ToLower (filepathExt name)"
  by (simp add: canonical_eq extOf_eq log_filepathExt_eq)

end
