(* ===== verification/Spool.thy ===== *)
theory Spool
  imports Mimedetect
begin

text \<open>
  \<^verbatim>\<open>internal/spool\<close>: staging an upload in memory or in a temp file, and the peek of
  \<^verbatim>\<open>handlers/mime_resolve.go\<close>.  A source stream is the bytes it will deliver and what follows
  them (end of file or an error).  The operating system is a record of outcomes (opening,
  writing, copying, seeking may each fail) and the set of temp-file paths that exist, which
  \<^verbatim>\<open>Part\<close> and \<^verbatim>\<open>Close\<close> thread through; anonymous \<^verbatim>\<open>O_TMPFILE\<close> files have the empty path and
  never appear in it.  Sizes are \<^verbatim>\<open>int64\<close> in Go; every caller passes the 8 MiB threshold, so no
  sum below leaves the range.
\<close>

section \<open>Streams\<close>

record src =
  srcData :: string
  srcErr :: "go_error option"

datatype copyEnd = CopyFull | CopyEOF | CopyErr go_error

text \<open>\<^verbatim>\<open>io.CopyN\<close> and \<^verbatim>\<open>io.Copy\<close> from an optionally limited reader: bytes copied, how it ended, and
  the source afterwards.\<close>

definition CopyN :: "src \<Rightarrow> int \<Rightarrow> string \<times> copyEnd \<times> src" where
  "CopyN r n =
     (if n \<le> int (length (srcData r))
      then (take (nat n) (srcData r), CopyFull, r\<lparr>srcData := drop (nat n) (srcData r)\<rparr>)
      else (srcData r, (case srcErr r of None \<Rightarrow> CopyEOF | Some e \<Rightarrow> CopyErr e), r\<lparr>srcData := []\<rparr>))"

definition Copy :: "src \<Rightarrow> int option \<Rightarrow> string \<times> go_error option \<times> src" where
  "Copy r limit =
     (case limit of
        None \<Rightarrow> (srcData r, srcErr r, r\<lparr>srcData := []\<rparr>)
      | Some n \<Rightarrow>
          (if n \<le> int (length (srcData r))
           then (take (nat n) (srcData r), None, r\<lparr>srcData := drop (nat n) (srcData r)\<rparr>)
           else (srcData r, srcErr r, r\<lparr>srcData := []\<rparr>)))"

section \<open>Temp files\<close>

datatype errno = EOPNOTSUPP | EISDIR | EINVAL | ENOTSUP | OtherErrno string

type_synonym tempfiles = "string set"

record spoolEnv =
  envTmpfile :: "errno + unit"
  envCreateTemp :: "string result"
  envWriteErr :: "go_error option"
  envCopyErr :: "go_error option"
  envSeekErr :: "go_error option"

definition openSpoolFileFallback :: "spoolEnv \<Rightarrow> string result" where
  "openSpoolFileFallback env = (case envCreateTemp env of Inl e \<Rightarrow> Inl e | Inr name \<Rightarrow> Inr name)"

definition openSpoolFile :: "spoolEnv \<Rightarrow> string result" where
  "openSpoolFile env =
     (case envTmpfile env of
        Inr _ \<Rightarrow> Inr []
      | Inl EOPNOTSUPP \<Rightarrow> openSpoolFileFallback env
      | Inl EISDIR \<Rightarrow> openSpoolFileFallback env
      | Inl EINVAL \<Rightarrow> openSpoolFileFallback env
      | Inl ENOTSUP \<Rightarrow> openSpoolFileFallback env
      | Inl (OtherErrno m) \<Rightarrow> Inl (plain_error m))"

text \<open>\<^verbatim>\<open>if path != "" { os.Remove(path) }\<close>, best effort.\<close>

definition discardPath :: "string \<Rightarrow> tempfiles \<Rightarrow> tempfiles" where
  "discardPath path tmp = (if path \<noteq> [] then tmp - {path} else tmp)"

section \<open>The spooled reader\<close>

record Reader =
  memBuf :: "(string \<times> nat) option"
  rdFile :: "(string \<times> nat) option"
  rdPath :: string
  rdSize :: int
  closed :: bool

definition ThresholdDefault :: int where "ThresholdDefault = 8 * 2 ^ 20"

definition errTooLarge :: go_error where
  "errTooLarge = sentinel_error ''spool: part exceeds maximum size'' ErrTooLarge"

definition Part :: "src \<Rightarrow> int \<Rightarrow> int \<Rightarrow> spoolEnv \<Rightarrow> tempfiles \<Rightarrow> Reader result \<times> src \<times> tempfiles" where
  "Part r threshold0 maxBytes env tmp =
     (let threshold = (if threshold0 \<le> 0 then ThresholdDefault else threshold0);
          (buf, fin, r1) = CopyN r (threshold + 1);
          n = int (length buf)
      in case fin of
           CopyEOF \<Rightarrow>
             (if maxBytes > 0 \<and> n > maxBytes then (Inl errTooLarge, r1, tmp)
              else (Inr \<lparr>memBuf = Some (buf, 0), rdFile = None, rdPath = [], rdSize = n, closed = False\<rparr>, r1, tmp))
         | CopyErr e \<Rightarrow> (Inl e, r1, tmp)
         | CopyFull \<Rightarrow>
             (case openSpoolFile env of
                Inl e \<Rightarrow> (Inl e, r1, tmp)
              | Inr path \<Rightarrow>
                  (let tmp1 = (if path \<noteq> [] then insert path tmp else tmp) in
                   case envWriteErr env of
                     Some e \<Rightarrow> (Inl e, r1, discardPath path tmp1)
                   | None \<Rightarrow>
                       (let total = n;
                            limit = (if maxBytes > 0 then Some (maxBytes - total + 1) else None);
                            (more, rerr, r2) = Copy r1 limit;
                            total = total + int (length more)
                        in case (case envCopyErr env of Some e \<Rightarrow> Some e | None \<Rightarrow> rerr) of
                             Some e \<Rightarrow> (Inl e, r2, discardPath path tmp1)
                           | None \<Rightarrow>
                               (if maxBytes > 0 \<and> total > maxBytes then (Inl errTooLarge, r2, discardPath path tmp1)
                                else case envSeekErr env of
                                       Some e \<Rightarrow> (Inl e, r2, discardPath path tmp1)
                                     | None \<Rightarrow>
                                         (Inr \<lparr>memBuf = None, rdFile = Some (buf @ more, 0), rdPath = path,
                                              rdSize = total, closed = False\<rparr>, r2, tmp1))))))"

text \<open>Reading at an offset, shared by \<^verbatim>\<open>bytes.Reader\<close> and \<^verbatim>\<open>os.File\<close>: the bytes, whether it is the end
  of file, and the new offset.\<close>

definition readAt :: "string \<times> nat \<Rightarrow> nat \<Rightarrow> (string \<times> bool) \<times> (string \<times> nat)" where
  "readAt buf n = (case buf of (d, off) \<Rightarrow>
     (if length d \<le> off then (([], True), (d, off))
      else let out = take n (drop off d) in ((out, False), (d, off + length out))))"

definition Read :: "Reader \<Rightarrow> nat \<Rightarrow> (string \<times> bool) result \<times> Reader" where
  "Read s n =
     (if closed s then (Inl (plain_error ''spool: read after close''), s)
      else case memBuf s of
             Some b \<Rightarrow> (let (out, b') = readAt b n in (Inr out, s\<lparr>memBuf := Some b'\<rparr>))
           | None \<Rightarrow>
               (case rdFile s of
                  Some b \<Rightarrow> (let (out, b') = readAt b n in (Inr out, s\<lparr>rdFile := Some b'\<rparr>))
                | None \<Rightarrow> (Inl (plain_error ''invalid argument''), s)))"

datatype whence = SeekStart | SeekCurrent | SeekEnd

definition seekTo :: "string \<times> nat \<Rightarrow> int \<Rightarrow> whence \<Rightarrow> (int \<times> (string \<times> nat)) option" where
  "seekTo buf offset w = (case buf of (d, off) \<Rightarrow>
     (let abs = (case w of SeekStart \<Rightarrow> offset | SeekCurrent \<Rightarrow> int off + offset | SeekEnd \<Rightarrow> int (length d) + offset)
      in if abs < 0 then None else Some (abs, (d, nat abs))))"

definition Seek :: "Reader \<Rightarrow> int \<Rightarrow> whence \<Rightarrow> int result \<times> Reader" where
  "Seek s offset w =
     (if closed s then (Inl (plain_error ''spool: seek after close''), s)
      else case memBuf s of
             Some b \<Rightarrow> (case seekTo b offset w of
                          None \<Rightarrow> (Inl (plain_error ''bytes.Reader.Seek: negative position''), s)
                        | Some (p, b') \<Rightarrow> (Inr p, s\<lparr>memBuf := Some b'\<rparr>))
           | None \<Rightarrow>
               (case rdFile s of
                  Some b \<Rightarrow> (case seekTo b offset w of
                               None \<Rightarrow> (Inl (plain_error ''invalid argument''), s)
                             | Some (p, b') \<Rightarrow> (Inr p, s\<lparr>rdFile := Some b'\<rparr>))
                | None \<Rightarrow> (Inl (plain_error ''invalid argument''), s)))"

datatype removeOutcome = RmOk | RmNotExist | RmErr go_error

definition Close ::
  "Reader \<Rightarrow> go_error option \<Rightarrow> removeOutcome \<Rightarrow> tempfiles \<Rightarrow> go_error option \<times> Reader \<times> tempfiles" where
  "Close s fileCloseErr rm tmp =
     (if closed s then (None, s, tmp)
      else let s = s\<lparr>closed := True\<rparr> in
           if memBuf s \<noteq> None then (None, s\<lparr>memBuf := None\<rparr>, tmp)
           else if rdFile s = None then (None, s, tmp)
           else if rdPath s = [] then (fileCloseErr, s\<lparr>rdFile := None\<rparr>, tmp)
           else case rm of
                  RmOk \<Rightarrow> (fileCloseErr, s\<lparr>rdFile := None\<rparr>, tmp - {rdPath s})
                | RmNotExist \<Rightarrow> (fileCloseErr, s\<lparr>rdFile := None\<rparr>, tmp - {rdPath s})
                | RmErr e \<Rightarrow> ((if fileCloseErr = None then Some e else fileCloseErr), s\<lparr>rdFile := None\<rparr>, tmp))"

definition reader_Size :: "Reader \<Rightarrow> int" where
  "reader_Size s = rdSize s"

section \<open>Peek and resolve\<close>

definition mimeSniffHeadBytes :: nat where "mimeSniffHeadBytes = 512"

text \<open>\<^verbatim>\<open>io.ReadFull\<close> on a spooled reader: one read delivers all that is left up to the request, and
  a short read ends in the end-of-file errors the caller tolerates.\<close>

definition ReadFull :: "Reader \<Rightarrow> nat \<Rightarrow> string result \<times> Reader" where
  "ReadFull s n = (case Read s n of (Inl e, s') \<Rightarrow> (Inl e, s') | (Inr (out, _), s') \<Rightarrow> (Inr out, s'))"

definition peekAndResolveMIME ::
  "(string \<Rightarrow> string option) \<Rightarrow> string \<Rightarrow> string \<Rightarrow> Reader \<Rightarrow> Resolver option \<Rightarrow> Result result \<times> Reader" where
  "peekAndResolveMIME detect declared filename sr resolver =
     (let res = (case resolver of None \<Rightarrow> defaultResolver | Some r \<Rightarrow> r) in
      case ReadFull sr mimeSniffHeadBytes of
        (Inl e, sr1) \<Rightarrow> (Inl (wrap_error ''peek head: '' e), sr1)
      | (Inr head, sr1) \<Rightarrow>
          (case Seek sr1 0 SeekStart of
             (Inl e, sr2) \<Rightarrow> (Inl (wrap_error ''rewind: '' e), sr2)
           | (Inr _, sr2) \<Rightarrow> (Inr (Resolve detect res declared head filename), sr2)))"

section \<open>Lemmas\<close>

text \<open>An open reader holds its bytes either in memory or in a file; this is its type invariant.\<close>

definition reader_ok :: "Reader \<Rightarrow> bool" where
  "reader_ok s \<longleftrightarrow> \<not> closed s \<and>
     ((\<exists>d off. memBuf s = Some (d, off) \<and> rdFile s = None \<and> rdPath s = [] \<and> rdSize s = int (length d)) \<or>
      (\<exists>d off. memBuf s = None \<and> rdFile s = Some (d, off) \<and> rdSize s = int (length d)))"

definition contents :: "Reader \<Rightarrow> string" where
  "contents s = (case memBuf s of Some (d, _) \<Rightarrow> d | None \<Rightarrow> (case rdFile s of Some (d, _) \<Rightarrow> d | None \<Rightarrow> []))"

definition position :: "Reader \<Rightarrow> nat" where
  "position s = (case memBuf s of Some (_, p) \<Rightarrow> p | None \<Rightarrow> (case rdFile s of Some (_, p) \<Rightarrow> p | None \<Rightarrow> 0))"

lemma reader_ok_cases:
  assumes "reader_ok s"
  obtains d off where "memBuf s = Some (d, off)" "rdFile s = None" "rdPath s = []" "closed s = False" "rdSize s = int (length d)"
  | d off where "memBuf s = None" "rdFile s = Some (d, off)" "closed s = False" "rdSize s = int (length d)"
  using assms by (auto simp: reader_ok_def)

text \<open>The interface of \<^verbatim>\<open>io.ReadSeeker\<close> that handlers and adapters rely on.\<close>

locale read_seeker =
  fixes invar :: "'b \<Rightarrow> bool"
    and bytes :: "'b \<Rightarrow> string"
    and pos :: "'b \<Rightarrow> nat"
    and read :: "'b \<Rightarrow> nat \<Rightarrow> string result \<times> 'b"
    and seek :: "'b \<Rightarrow> int \<Rightarrow> whence \<Rightarrow> int result \<times> 'b"
  assumes read_ok: "invar b \<Longrightarrow> pos b \<le> length (bytes b) \<Longrightarrow>
            \<exists>b'. read b n = (Inr (take n (drop (pos b) (bytes b))), b') \<and> invar b' \<and> bytes b' = bytes b
                 \<and> pos b' = min (pos b + n) (length (bytes b))"
    and rewind_ok: "invar b \<Longrightarrow>
            \<exists>b'. seek b 0 SeekStart = (Inr 0, b') \<and> invar b' \<and> bytes b' = bytes b \<and> pos b' = 0"
begin

text \<open>Peeking at a fresh body and rewinding it yields its first bytes and a fresh body again.\<close>

lemma peek_rewind:
  assumes "invar b" "pos b = 0"
  shows "\<exists>b1 b2. read b n = (Inr (take n (bytes b)), b1) \<and> seek b1 0 SeekStart = (Inr 0, b2)
           \<and> invar b2 \<and> bytes b2 = bytes b \<and> pos b2 = 0"
  using read_ok[OF assms(1), of n] rewind_ok assms by fastforce

text \<open>After a rewind, whatever was read before, a full read returns every byte.\<close>

lemma rewind_then_drain:
  assumes "invar b"
  shows "\<exists>b1 b2. seek b 0 SeekStart = (Inr 0, b1) \<and> read b1 (length (bytes b)) = (Inr (bytes b), b2)"
proof -
  obtain b1 where b1: "seek b 0 SeekStart = (Inr 0, b1)" "invar b1" "bytes b1 = bytes b" "pos b1 = 0"
    using rewind_ok[OF assms] by blast
  then show ?thesis using read_ok[of b1 "length (bytes b)"] by auto
qed

end

lemma readAt_eq:
  "off \<le> length d \<Longrightarrow> fst (fst (readAt (d, off) n)) = take n (drop off d)
     \<and> snd (readAt (d, off) n) = (d, min (off + n) (length d))"
  by (auto simp: readAt_def Let_def)

interpretation spooled: read_seeker reader_ok contents position ReadFull Seek
proof unfold_locales
  fix b :: Reader and n
  assume ok: "reader_ok b"
  show "position b \<le> length (contents b) \<Longrightarrow>
      \<exists>b'. ReadFull b n = (Inr (take n (drop (position b) (contents b))), b') \<and> reader_ok b'
        \<and> contents b' = contents b \<and> position b' = min (position b + n) (length (contents b))"
    using ok
  proof (cases rule: reader_ok_cases)
    case (1 d off)
    assume p: "position b \<le> length (contents b)"
    with 1 have "off \<le> length d" by (simp add: position_def contents_def)
    with 1 readAt_eq[of off d n] show ?thesis
      by (cases "readAt (d, off) n") (auto simp: ReadFull_def Read_def reader_ok_def contents_def position_def)
  next
    case (2 d off)
    assume p: "position b \<le> length (contents b)"
    with 2 have "off \<le> length d" by (simp add: position_def contents_def)
    with 2 readAt_eq[of off d n] show ?thesis
      by (cases "readAt (d, off) n") (auto simp: ReadFull_def Read_def reader_ok_def contents_def position_def)
  qed
  show "\<exists>b'. Seek b 0 SeekStart = (Inr 0, b') \<and> reader_ok b' \<and> contents b' = contents b \<and> position b' = 0"
    using ok by (cases rule: reader_ok_cases)
      (auto simp: Seek_def seekTo_def reader_ok_def contents_def position_def)
qed


section \<open>What staging guarantees\<close>

text \<open>The bytes \<^verbatim>\<open>Part\<close> pulled out of the source.\<close>

definition consumed :: "src \<Rightarrow> src \<Rightarrow> nat" where
  "consumed r r' = length (srcData r) - length (srcData r')"

definition healthy :: "spoolEnv \<Rightarrow> bool" where
  "healthy env \<longleftrightarrow> (\<exists>p. openSpoolFile env = Inr p) \<and> envWriteErr env = None \<and> envCopyErr env = None
     \<and> envSeekErr env = None"

definition effThreshold :: "int \<Rightarrow> int" where
  "effThreshold t = (if t \<le> 0 then ThresholdDefault else t)"

lemma effThreshold_pos [simp]: "effThreshold t > 0"
  by (simp add: effThreshold_def ThresholdDefault_def)

lemma CopyN_cases:
  assumes "CopyN r n = (buf, fin, r')" "0 \<le> n"
  shows "srcData r = buf @ srcData r' \<and> srcErr r' = srcErr r \<and> int (length buf) \<le> n \<and>
     (fin = CopyFull \<longrightarrow> int (length buf) = n \<and> n \<le> int (length (srcData r))) \<and>
     (fin \<noteq> CopyFull \<longrightarrow> srcData r' = [] \<and> int (length buf) < n
        \<and> fin = (case srcErr r of None \<Rightarrow> CopyEOF | Some e \<Rightarrow> CopyErr e))"
  using assms by (auto simp: CopyN_def split: if_splits option.splits)

lemma Copy_cases:
  assumes "Copy r lim = (mo, err, r')"
  shows "srcData r = mo @ srcData r' \<and> srcErr r' = srcErr r \<and>
     (srcData r' \<noteq> [] \<longrightarrow> (\<exists>n. lim = Some n \<and> length mo = nat n)) \<and>
     (\<forall>n. lim = Some n \<longrightarrow> length mo \<le> nat n) \<and>
     (err \<noteq> None \<longrightarrow> err = srcErr r)"
  using assms by (auto simp: Copy_def split: option.splits if_splits)

lemmas Part_unfold = Part_def[folded effThreshold_def, unfolded Let_def case_prod_beta]

text \<open>The two ways through \<^verbatim>\<open>Part\<close>: the source ended within the threshold, or it is spilled.\<close>

lemma Part_in_memory:
  assumes "CopyN r (effThreshold t + 1) = (buf, fin, r1)" "fin \<noteq> CopyFull"
  shows "Part r t maxBytes env tmp =
    (case srcErr r of
       Some e \<Rightarrow> (Inl e, r1, tmp)
     | None \<Rightarrow> if maxBytes > 0 \<and> int (length buf) > maxBytes then (Inl errTooLarge, r1, tmp)
         else (Inr \<lparr>memBuf = Some (buf, 0), rdFile = None, rdPath = [], rdSize = int (length buf), closed = False\<rparr>, r1, tmp))"
  using CopyN_cases[OF assms(1)] assms(2) effThreshold_pos[of t]
  by (auto simp: Part_unfold assms(1) split: option.split)

lemma Part_spilled:
  assumes "CopyN r (effThreshold t + 1) = (buf, CopyFull, r1)"
    and "Copy r1 (if maxBytes > 0 then Some (maxBytes - int (length buf) + 1) else None) = (mo, rerr, r2)"
  shows "Part r t maxBytes env tmp =
    (case openSpoolFile env of
       Inl e \<Rightarrow> (Inl e, r1, tmp)
     | Inr path \<Rightarrow>
         let tmp1 = (if path \<noteq> [] then insert path tmp else tmp) in
         case envWriteErr env of
           Some e \<Rightarrow> (Inl e, r1, discardPath path tmp1)
         | None \<Rightarrow>
             (case (case envCopyErr env of Some e \<Rightarrow> Some e | None \<Rightarrow> rerr) of
                Some e \<Rightarrow> (Inl e, r2, discardPath path tmp1)
              | None \<Rightarrow>
                  if maxBytes > 0 \<and> int (length (buf @ mo)) > maxBytes then (Inl errTooLarge, r2, discardPath path tmp1)
                  else case envSeekErr env of
                         Some e \<Rightarrow> (Inl e, r2, discardPath path tmp1)
                       | None \<Rightarrow> (Inr \<lparr>memBuf = None, rdFile = Some (buf @ mo, 0), rdPath = path,
                                       rdSize = int (length (buf @ mo)), closed = False\<rparr>, r2, tmp1)))"
  unfolding Part_unfold assms fst_conv snd_conv copyEnd.case Let_def by (simp only: length_append of_nat_add)

lemma Part_cases:
  obtains (mem) buf fin r1 where "CopyN r (effThreshold t + 1) = (buf, fin, r1)" "fin \<noteq> CopyFull"
  | (spill) buf r1 mo rerr r2 where "CopyN r (effThreshold t + 1) = (buf, CopyFull, r1)"
      "Copy r1 (if maxBytes > 0 then Some (maxBytes - int (length buf) + 1) else None) = (mo, rerr, r2)"
  by (metis prod_cases3)

lemma spilled_all:
  assumes "CopyN r (effThreshold t + 1) = (buf, CopyFull, r1)"
    and "Copy r1 (if maxBytes > 0 then Some (maxBytes - int (length buf) + 1) else None) = (mo, rerr, r2)"
  shows "srcData r = buf @ mo @ srcData r2" "int (length buf) = effThreshold t + 1"
    "maxBytes > 0 \<Longrightarrow> int (length (buf @ mo)) \<le> max (effThreshold t + 1) (maxBytes + 1)"
    "srcData r2 \<noteq> [] \<Longrightarrow> maxBytes > 0 \<and> int (length (buf @ mo)) > maxBytes"
    "rerr \<noteq> None \<Longrightarrow> rerr = srcErr r"
proof -
  note a = CopyN_cases[OF assms(1)] Copy_cases[OF assms(2)] effThreshold_pos[of t]
  show "srcData r = buf @ mo @ srcData r2" "int (length buf) = effThreshold t + 1" "rerr \<noteq> None \<Longrightarrow> rerr = srcErr r"
    using a by auto
  show "maxBytes > 0 \<Longrightarrow> int (length (buf @ mo)) \<le> max (effThreshold t + 1) (maxBytes + 1)"
    using a by auto
  show "srcData r2 \<noteq> [] \<Longrightarrow> maxBytes > 0 \<and> int (length (buf @ mo)) > maxBytes"
    using a by (auto split: if_splits)
qed

text \<open>What a successful \<^verbatim>\<open>Part\<close> returns, and what \<^verbatim>\<open>Part\<close> and \<^verbatim>\<open>Close\<close> do to the temp directory; the handlers' proofs use these.\<close>

lemma Part_Inr:
  assumes "Part r threshold maxBytes env tmp = (Inr s, r', tmp')"
  shows "reader_ok s" "contents s = srcData r" "position s = 0" "rdSize s = int (length (srcData r))" "srcErr r = None"
    "maxBytes > 0 \<longrightarrow> rdSize s \<le> maxBytes" "memBuf s \<noteq> None \<longleftrightarrow> int (length (srcData r)) \<le> effThreshold threshold"
proof -
  have "reader_ok s \<and> contents s = srcData r \<and> position s = 0 \<and> rdSize s = int (length (srcData r)) \<and> srcErr r = None
    \<and> (maxBytes > 0 \<longrightarrow> rdSize s \<le> maxBytes) \<and> (memBuf s \<noteq> None \<longleftrightarrow> int (length (srcData r)) \<le> effThreshold threshold)"
  proof (cases rule: Part_cases[where r = r and t = threshold and maxBytes = maxBytes])
    case (mem buf fin r1)
    with assms CopyN_cases[OF mem(1)] effThreshold_pos[of threshold] show ?thesis
      by (auto simp: Part_in_memory[OF mem] reader_ok_def contents_def position_def
          split: option.splits if_splits)
  next
    case (spill buf r1 mo rerr r2)
    note a = spilled_all[OF spill] and e = assms[unfolded Part_spilled[OF spill]]
    from e have m: "memBuf s = None" "rdFile s = Some (buf @ mo, 0)" "\<not> closed s" "rdSize s = int (length (buf @ mo))"
      "maxBytes > 0 \<longrightarrow> int (length (buf @ mo)) \<le> maxBytes" "rerr = None"
      by (auto simp: Let_def split: sum.splits option.splits if_splits)
    then have r2: "srcData r2 = []" using a(4) by fastforce
    have "srcErr r = None"
      using spill(2) m(5,6) r2 CopyN_cases[OF spill(1)] effThreshold_pos[of threshold]
      by (auto simp: Copy_def split: if_splits)
    with m r2 show ?thesis using a(1,2)
      by (auto simp: reader_ok_def contents_def position_def)
  qed
  then show "reader_ok s" "contents s = srcData r" "position s = 0" "rdSize s = int (length (srcData r))" "srcErr r = None"
    "maxBytes > 0 \<longrightarrow> rdSize s \<le> maxBytes" "memBuf s \<noteq> None \<longleftrightarrow> int (length (srcData r)) \<le> effThreshold threshold"
    by blast+
qed

lemma discard_insert [simp]: "path \<notin> tmp \<Longrightarrow> discardPath path (if path \<noteq> [] then insert path tmp else tmp) = tmp"
  by (auto simp: discardPath_def)

lemma openSpoolFile_path: "openSpoolFile env = Inr path \<Longrightarrow> path = [] \<or> envCreateTemp env = Inr path"
  by (auto simp: openSpoolFile_def openSpoolFileFallback_def split: sum.splits errno.splits)

lemma Part_tmp:
  assumes fresh: "\<And>path. envCreateTemp env = Inr path \<Longrightarrow> path \<notin> tmp" and ne: "[] \<notin> tmp"
    and part: "Part r threshold maxBytes env tmp = (res, r', tmp')"
  shows "case res of
       Inl _ \<Rightarrow> tmp' = tmp
     | Inr s \<Rightarrow> (rdPath s = [] \<or> envCreateTemp env = Inr (rdPath s)) \<and> tmp' = tmp \<union> ({rdPath s} - {[]})"
proof (cases rule: Part_cases[where r = r and t = threshold and maxBytes = maxBytes])
  case (mem buf fin r1)
  with part show ?thesis
    by (auto simp: Part_in_memory[OF mem] split: option.splits if_splits)
next
  case (spill buf r1 mo rerr r2)
  show ?thesis
  proof (cases "openSpoolFile env")
    case (Inl e)
    with part show ?thesis by (auto simp: Part_spilled[OF spill])
  next
    case (Inr path)
    then have fr: "path \<notin> tmp" using fresh ne openSpoolFile_path by blast
    note part[unfolded Part_spilled[OF spill] Inr Let_def sum.case discard_insert[OF fr]]
    then show ?thesis using openSpoolFile_path[OF Inr]
      by (auto split: option.splits if_splits)
  qed
qed

lemma Close_tmp:
  assumes "reader_ok s" "rm \<in> {RmOk, RmNotExist}"
  shows "snd (snd (Close s c rm tmp)) = tmp - ({rdPath s} - {[]})" "closed (fst (snd (Close s c rm tmp)))"
proof -
  have "snd (snd (Close s c rm tmp)) = tmp - ({rdPath s} - {[]}) \<and> closed (fst (snd (Close s c rm tmp)))"
    using assms(1)
  proof (cases rule: reader_ok_cases)
    case (1 d off)
    then show ?thesis by (simp add: Close_def)
  next
    case (2 d off)
    then show ?thesis using assms(2) by (cases "rdPath s = []") (auto simp: Close_def)
  qed
  then show "snd (snd (Close s c rm tmp)) = tmp - ({rdPath s} - {[]})" "closed (fst (snd (Close s c rm tmp)))" by blast+
qed

lemma Close_closed [simp]: "closed s \<Longrightarrow> Close s c m tmp = (None, s, tmp)"
  by (simp add: Close_def)

text \<open>
  C12: a part that was staged holds exactly the bytes of its source, from the first one on: the
  reader is well formed, positioned at the start, and reports their number as its size; it never
  exceeds the byte cap; and it stays in memory exactly when it is within the threshold.
\<close>

theorem staged_part_is_the_source:
  assumes "Part r threshold maxBytes env tmp = (Inr s, r', tmp')"
  shows "reader_ok s \<and> contents s = srcData r \<and> position s = 0 \<and> reader_Size s = int (length (srcData r))
    \<and> (maxBytes > 0 \<longrightarrow> reader_Size s \<le> maxBytes)
    \<and> (memBuf s \<noteq> None \<longleftrightarrow> int (length (srcData r)) \<le> effThreshold threshold)"
  using Part_Inr[OF assms] by (simp add: reader_Size_def)

theorem staged_part_is_the_source_witness:
  "\<exists>s. Part \<lparr>srcData = ''hello'', srcErr = None\<rparr> 3 5
         \<lparr>envTmpfile = Inl EISDIR, envCreateTemp = Inr ''/tmp/x'', envWriteErr = None, envCopyErr = None, envSeekErr = None\<rparr> {}
         = (Inr s, \<lparr>srcData = [], srcErr = None\<rparr>, {''/tmp/x''})
       \<and> contents s = ''hello'' \<and> memBuf s = None"
proof -
  let ?e = "\<lparr>envTmpfile = Inl EISDIR, envCreateTemp = Inr ''/tmp/x'', envWriteErr = None, envCopyErr = None, envSeekErr = None\<rparr>"
  let ?s = "\<lparr>memBuf = None, rdFile = Some (''hello'', 0), rdPath = ''/tmp/x'', rdSize = 5, closed = False\<rparr>"
  have p: "Part \<lparr>srcData = ''hello'', srcErr = None\<rparr> 3 5 ?e {} = (Inr ?s, \<lparr>srcData = [], srcErr = None\<rparr>, {''/tmp/x''})"
    by (simp add: Part_def CopyN_def Copy_def openSpoolFile_def openSpoolFileFallback_def)
  show ?thesis using p staged_part_is_the_source[OF p] by auto
qed

lemma Part_outcome:
  assumes "healthy env" "srcErr r = None"
  shows "case fst (Part r threshold maxBytes env tmp) of
           Inr s \<Rightarrow> maxBytes \<le> 0 \<or> int (length (srcData r)) \<le> maxBytes
         | Inl e \<Rightarrow> errors_Is e ErrTooLarge \<and> 0 < maxBytes \<and> maxBytes < int (length (srcData r))"
proof (cases rule: Part_cases[where r = r and t = threshold and maxBytes = maxBytes])
  case (mem buf fin r1)
  with assms CopyN_cases[OF mem(1)] effThreshold_pos[of threshold] show ?thesis
    by (auto simp: Part_in_memory[OF mem] errTooLarge_def)
next
  case (spill buf r1 mo rerr r2)
  note a = spilled_all[OF spill]
  have "rerr = None" using a(5) assms(2) by (cases rerr) auto
  moreover have "srcData r2 \<noteq> [] \<Longrightarrow> 0 < maxBytes \<and> maxBytes < int (length (buf @ mo))" by (rule a(4))
  ultimately show ?thesis using assms a(1)
    by (cases "srcData r2 = []") (auto simp: Part_spilled[OF spill] errTooLarge_def healthy_def)
qed

text \<open>
  C13: with a working disk and a source that ends normally, the outcome of staging is decided by
  the size alone: it succeeds exactly when there is no cap or the source fits it, and otherwise
  the error is \<^verbatim>\<open>ErrTooLarge\<close>, recognisable with \<^verbatim>\<open>errors.Is\<close>.
\<close>

theorem staging_succeeds_iff_within_cap:
  assumes "healthy env" "srcErr r = None"
  shows "case fst (Part r threshold maxBytes env tmp) of
           Inr s \<Rightarrow> maxBytes \<le> 0 \<or> int (length (srcData r)) \<le> maxBytes
         | Inl e \<Rightarrow> errors_Is e ErrTooLarge \<and> 0 < maxBytes \<and> maxBytes < int (length (srcData r))"
  using assms by (rule Part_outcome)

theorem staging_succeeds_iff_within_cap_witness:
  "case fst (Part \<lparr>srcData = ''hello'', srcErr = None\<rparr> 3 4
         \<lparr>envTmpfile = Inr (), envCreateTemp = Inr ''/tmp/x'', envWriteErr = None, envCopyErr = None, envSeekErr = None\<rparr> {})
   of Inr s \<Rightarrow> False | Inl e \<Rightarrow> errors_Is e ErrTooLarge"
proof -
  let ?e = "\<lparr>envTmpfile = Inr (), envCreateTemp = Inr ''/tmp/x'', envWriteErr = None, envCopyErr = None, envSeekErr = None\<rparr>"
  have "healthy ?e" by (simp add: healthy_def openSpoolFile_def)
  from staging_succeeds_iff_within_cap[OF this, where r = "\<lparr>srcData = ''hello'', srcErr = None\<rparr>" and threshold = 3
      and maxBytes = 4 and tmp = "{}"]
  show ?thesis by (simp split: sum.splits)
qed

text \<open>
  Whatever happens, staging under a cap reads at most one byte more than the threshold or one
  byte more than the cap, whichever is larger, so an endless upload cannot fill memory or disk.
\<close>

theorem staging_reads_bounded:
  assumes "maxBytes > 0"
  shows "case Part r threshold maxBytes env tmp of
     (_, r', _) \<Rightarrow> int (consumed r r') \<le> max (effThreshold threshold + 1) (maxBytes + 1)"
proof (cases rule: Part_cases[where r = r and t = threshold and maxBytes = maxBytes])
  case (mem buf fin r1)
  with assms CopyN_cases[OF mem(1)] effThreshold_pos[of threshold] show ?thesis
    by (auto simp: Part_in_memory[OF mem] consumed_def split: option.split)
next
  case (spill buf r1 mo rerr r2)
  note a = spilled_all[OF spill]
  have r1: "int (consumed r r1) \<le> max (effThreshold threshold + 1) (maxBytes + 1)"
    using CopyN_cases[OF spill(1)] effThreshold_pos[of threshold] by (auto simp: consumed_def)
  have r2: "int (consumed r r2) \<le> max (effThreshold threshold + 1) (maxBytes + 1)"
    using a(3)[OF assms] a(1) by (auto simp: consumed_def)
  show ?thesis
    unfolding Part_spilled[OF spill] Let_def using r1 r2 by (auto split: sum.split option.split)
qed

theorem staging_reads_bounded_witness:
  "case Part \<lparr>srcData = replicate 100 CHR ''a'', srcErr = None\<rparr> 3 4
       \<lparr>envTmpfile = Inr (), envCreateTemp = Inr [], envWriteErr = None, envCopyErr = None, envSeekErr = None\<rparr> {}
   of (_, r', _) \<Rightarrow> int (consumed \<lparr>srcData = replicate 100 CHR ''a'', srcErr = None\<rparr> r') \<le> 5"
  using staging_reads_bounded[of 4 "\<lparr>srcData = replicate 100 CHR ''a'', srcErr = None\<rparr>" 3
      "\<lparr>envTmpfile = Inr (), envCreateTemp = Inr [], envWriteErr = None, envCopyErr = None, envSeekErr = None\<rparr>" "{}"]
  by (simp add: effThreshold_def)

text \<open>
  Staging leaks no temp file.  When it fails, the temp directory is as it was; when it succeeds,
  closing the reader (with the unlink going through) restores it, and a second \<^verbatim>\<open>Close\<close> is a
  no-op that reports no error.  The name \<^verbatim>\<open>os.CreateTemp\<close> picks is fresh.
\<close>

theorem staging_leaks_no_temp_file:
  assumes fresh: "\<And>path. envCreateTemp env = Inr path \<Longrightarrow> path \<notin> tmp" and ne: "[] \<notin> tmp"
    and part: "Part r threshold maxBytes env tmp = (res, r', tmp')"
  shows "case res of
       Inl _ \<Rightarrow> tmp' = tmp
     | Inr s \<Rightarrow> (\<forall>rm \<in> {RmOk, RmNotExist}. \<forall>cerr. case Close s cerr rm tmp' of
           (_, s1, tmp1) \<Rightarrow> tmp1 = tmp \<and> closed s1 \<and> (\<forall>c m. Close s1 c m tmp1 = (None, s1, tmp1)))"
proof (cases res)
  case (Inr s)
  with part have "reader_ok s" by (auto dest: Part_Inr(1))
  moreover from this Part_tmp[OF fresh ne part] fresh Inr have "tmp' - ({rdPath s} - {[]}) = tmp" by fastforce
  ultimately show ?thesis using Inr Close_tmp by (simp add: split_beta)
qed (use Part_tmp[OF fresh ne part] in simp)

theorem staging_leaks_no_temp_file_witness:
  "\<exists>s. Part \<lparr>srcData = ''hello'', srcErr = None\<rparr> 3 5
         \<lparr>envTmpfile = Inl EISDIR, envCreateTemp = Inr ''/tmp/x'', envWriteErr = None, envCopyErr = None, envSeekErr = None\<rparr> {}
         = (Inr s, \<lparr>srcData = [], srcErr = None\<rparr>, {''/tmp/x''})
       \<and> snd (snd (Close s None RmOk {''/tmp/x''})) = {}"
proof -
  let ?e = "\<lparr>envTmpfile = Inl EISDIR, envCreateTemp = Inr ''/tmp/x'', envWriteErr = None, envCopyErr = None, envSeekErr = None\<rparr>"
  let ?s = "\<lparr>memBuf = None, rdFile = Some (''hello'', 0), rdPath = ''/tmp/x'', rdSize = 5, closed = False\<rparr>"
  have p: "Part \<lparr>srcData = ''hello'', srcErr = None\<rparr> 3 5 ?e {} = (Inr ?s, \<lparr>srcData = [], srcErr = None\<rparr>, {''/tmp/x''})"
    by (simp add: Part_def CopyN_def Copy_def openSpoolFile_def openSpoolFileFallback_def)
  have "case Close ?s None RmOk {''/tmp/x''} of (_, s1, tmp1) \<Rightarrow> tmp1 = {}"
    using staging_leaks_no_temp_file[OF _ _ p] by (auto simp: split_beta)
  then show ?thesis using p by (auto simp: split_beta)
qed

lemma peek_ok:
  assumes "reader_ok sr" "position sr = 0"
  shows "\<exists>sr'. peekAndResolveMIME detect declared filename sr rs
             = (Inr (Resolve detect (case rs of None \<Rightarrow> defaultResolver | Some r \<Rightarrow> r) declared (take 512 (contents sr)) filename), sr')
           \<and> reader_ok sr' \<and> contents sr' = contents sr \<and> position sr' = 0"
  using spooled.peek_rewind[OF assms, of 512]
  by (auto simp: peekAndResolveMIME_def mimeSniffHeadBytes_def)

text \<open>
  Peeking for the MIME type never truncates the upload: on a freshly staged part the peek
  succeeds, the resolver sees exactly the first 512 bytes, and the adapter afterwards reads the
  same bytes from the start.
\<close>

theorem peek_preserves_body:
  assumes "reader_ok sr" "position sr = 0"
  shows "\<exists>sr'. peekAndResolveMIME detect declared filename sr (Some rs)
             = (Inr (Resolve detect rs declared (take 512 (contents sr)) filename), sr')
           \<and> reader_ok sr' \<and> contents sr' = contents sr \<and> position sr' = 0"
  using peek_ok[OF assms, of detect declared filename "Some rs"] by simp

theorem peek_preserves_body_witness:
  "\<exists>sr'. peekAndResolveMIME (\<lambda>_. None) ''application/pdf'' ''a.pdf''
        \<lparr>memBuf = Some (''%PDF'', 0), rdFile = None, rdPath = [], rdSize = 4, closed = False\<rparr> (Some defaultResolver)
       = (Inr (Resolve (\<lambda>_. None) defaultResolver ''application/pdf'' ''%PDF'' ''a.pdf''), sr')
       \<and> contents sr' = ''%PDF'' \<and> position sr' = 0"
  using peek_preserves_body[of "\<lparr>memBuf = Some (''%PDF'', 0), rdFile = None, rdPath = [], rdSize = 4, closed = False\<rparr>"
      "\<lambda>_. None" "''application/pdf''" "''a.pdf''" defaultResolver]
  by (auto simp: reader_ok_def contents_def[of "Reader_ext _ _ _ _ _ _"] position_def[of "Reader_ext _ _ _ _ _ _"])

end
