(* ===== verification/Middleware.thy ===== *)
theory Middleware
  imports Complex_Main Spool Http_Header
begin

text \<open>
  \<^verbatim>\<open>internal/transport/http/middleware\<close>: the chain every request runs through.  A handler is a function of the response
  headers set so far and the request; it answers with the headers at its return, the calls it made on the
  \<^verbatim>\<open>http.ResponseWriter\<close> in order, whether it panicked, and what it logged.  Clocks, the fresh request id, the verdict of
  the rate limiter and the hash function are arguments; writes to the client are taken as accepted in full.
\<close>

section \<open>Handlers\<close>

datatype wop = WHeader int | WBytes string

text \<open>\<^verbatim>\<open>requestMeta\<close>: what handlers and adapters note about a request for the access log.\<close>

record requestMeta =
  rmEngine :: string
  rmEngineURL :: string
  rmFilename :: string
  rmMimeType :: string
  rmMimeSource :: string
  rmMimeDeclared :: string
  rmPickSource :: string
  rmRoutingStrat :: string
  rmFileCount :: int
  rmUpstreamStart :: "int option"
  rmUpstreamDur :: int
  rmUpstreamStatus :: int
  rmTTFB :: int

definition emptyMeta :: requestMeta where
  "emptyMeta = \<lparr>rmEngine = [], rmEngineURL = [], rmFilename = [], rmMimeType = [], rmMimeSource = [], rmMimeDeclared = [],
     rmPickSource = [], rmRoutingStrat = [], rmFileCount = 0, rmUpstreamStart = None, rmUpstreamDur = 0, rmUpstreamStatus = 0, rmTTFB = 0\<rparr>"

datatype logLevel = LvlInfo | LvlWarn | LvlError

record captureLine =
  clRequestID :: string
  clStatus :: int
  clResponseBytes :: int
  clRequestHeaders :: "(string \<times> string list) list"
  clResponseHeaders :: "(string \<times> string list) list"
  clRequestBody :: string
  clResponseBody :: string

datatype logEvent =
    LogPanic string string
  | LogAccess logLevel string string int int requestMeta
  | LogCapture captureLine
  | MetricRequest string string string string
  | MetricUpstreamError string
  | MetricBytes string string int

record webReq =
  wqMethod :: string
  wqPath :: string
  wqHeader :: Header
  wqBody :: src
  wqRoute :: string
  ctxRequestID :: "string option"
  ctxDeadline :: "int option"
  ctxSilenced :: bool
  ctxCapture :: bool
  ctxBodyRead :: "int option"

record webResult =
  wrHeader :: Header
  wrOps :: "wop list"
  wrReads :: "int list"
  wrMeta :: requestMeta
  wrPanic :: bool
  wrLogs :: "logEvent list"

type_synonym handler = "Header \<Rightarrow> webReq \<Rightarrow> webResult"

text \<open>\<^verbatim>\<open>http.Error\<close>.\<close>

definition http_Error :: "Header \<Rightarrow> string \<Rightarrow> int \<Rightarrow> webResult" where
  "http_Error h msg code =
     \<lparr>wrHeader = header_Set (header_Set (header_Del h ''Content-Length'') ''Content-Type'' ''text/plain; charset=utf-8'') ''X-Content-Type-Options'' ''nosniff'',
      wrOps = [WHeader code, WBytes (msg @ [CHR 0x0A])], wrReads = [], wrMeta = emptyMeta, wrPanic = False, wrLogs = []\<rparr>"

text \<open>What the client receives of a list of calls: the first status written, 200 when a write comes first or nothing is
  written at all, and the bytes.\<close>

fun sentStatus :: "wop list \<Rightarrow> int" where
  "sentStatus [] = 200"
| "sentStatus (WHeader s # _) = s"
| "sentStatus (WBytes _ # _) = 200"

fun sentBytes :: "wop list \<Rightarrow> string" where
  "sentBytes [] = []"
| "sentBytes (WHeader _ # ops) = sentBytes ops"
| "sentBytes (WBytes b # ops) = b @ sentBytes ops"

section \<open>apikey.go\<close>

fun apiKeyLoop :: "string \<Rightarrow> string list \<Rightarrow> bool \<Rightarrow> bool" where
  "apiKeyLoop providedHash [] ok = ok"
| "apiKeyLoop providedHash (a # hashes) ok = apiKeyLoop providedHash hashes (if providedHash = a then True else ok)"

definition APIKey :: "(string \<Rightarrow> string) \<Rightarrow> string \<Rightarrow> string list \<Rightarrow> bool \<Rightarrow> handler \<Rightarrow> handler" where
  "APIKey sha256 headerName allowed required next h r =
     (let allowedHashes = map sha256 allowed in
      if \<not> required then next h r
      else let provided = header_Get (wqHeader r) headerName in
        if provided = [] \<or> allowedHashes = [] then http_Error h ''unauthorized'' 401
        else if \<not> apiKeyLoop (sha256 provided) allowedHashes False then http_Error h ''unauthorized'' 401
        else next h r)"

section \<open>requestid.go, ratelimit.go, timeout.go, bodylimit.go, recover.go\<close>

definition RequestID_mw :: "string \<Rightarrow> handler \<Rightarrow> handler" where
  "RequestID_mw fresh next h r =
     (let given = header_Get (wqHeader r) ''X-Request-ID''; id = (if given = [] then fresh else given)
      in next (header_Set h ''X-Request-ID'' id) (r\<lparr>ctxRequestID := Some id\<rparr>))"

definition IDFrom :: "webReq \<Rightarrow> string" where
  "IDFrom r = (case ctxRequestID r of Some v \<Rightarrow> v | None \<Rightarrow> [])"

definition GlobalRateLimit :: "rat \<Rightarrow> int \<Rightarrow> bool \<Rightarrow> handler \<Rightarrow> handler" where
  "GlobalRateLimit rps burst allow next =
     (if rps \<le> 0 \<or> burst \<le> 0 then next
      else (\<lambda>h r. if \<not> allow then http_Error h ''rate limited'' 429 else next h r))"

text \<open>\<^verbatim>\<open>context.WithTimeout\<close>: an earlier deadline stands.\<close>

definition Timeout_mw :: "int \<Rightarrow> int \<Rightarrow> handler \<Rightarrow> handler" where
  "Timeout_mw d now next =
     (if d \<le> 0 then next
      else (\<lambda>h r. next h (r\<lparr>ctxDeadline := Some (case ctxDeadline r of Some t \<Rightarrow> min t (now + d) | None \<Rightarrow> now + d)\<rparr>)))"

text \<open>\<^verbatim>\<open>http.MaxBytesReader\<close>: at most \<^verbatim>\<open>n\<close> bytes, then an error when there is more.\<close>

definition MaxBytesReader :: "src \<Rightarrow> int \<Rightarrow> src" where
  "MaxBytesReader body n =
     (if int (length (srcData body)) > n
      then \<lparr>srcData = take (nat n) (srcData body), srcErr = Some (plain_error ''http: request body too large'')\<rparr>
      else body)"

definition BodyLimit :: "int \<Rightarrow> handler \<Rightarrow> handler" where
  "BodyLimit maxBytes next h r =
     next h (r\<lparr>wqBody := (if maxBytes > 0 then MaxBytesReader (wqBody r) maxBytes else wqBody r), ctxBodyRead := Some 0\<rparr>)"

definition countingBody_Read :: "int \<Rightarrow> int \<Rightarrow> int" where
  "countingBody_Read n read = (if read > 0 then n + read else n)"

definition bodyBytesIn :: "webReq \<Rightarrow> webResult \<Rightarrow> int" where
  "bodyBytesIn r res = (case ctxBodyRead r of Some n \<Rightarrow> fold (\<lambda>read n. countingBody_Read n read) (wrReads res) n | None \<Rightarrow> 0)"

definition Recover :: "handler \<Rightarrow> handler" where
  "Recover next h r =
     (let res = next h r in
      if wrPanic res then
        (let err = http_Error (wrHeader res) ''internal server error'' 500
         in res\<lparr>wrHeader := wrHeader err, wrOps := wrOps res @ wrOps err, wrPanic := False,
             wrLogs := wrLogs res @ [LogPanic (wqPath r) (IDFrom r)]\<rparr>)
      else res)"

section \<open>The response writers\<close>

text \<open>\<^verbatim>\<open>responseWriter\<close> of \<^verbatim>\<open>logging.go\<close>: the first status wins, and what is passed on to the writer below.\<close>

record responseWriter =
  rwStatus :: int
  rwBytes :: int
  rwOnce :: bool
  rwStart :: "int option"
  rwTTFB :: int
  rwBelow :: "wop list"

definition recordTTFB :: "int \<Rightarrow> responseWriter \<Rightarrow> responseWriter" where
  "recordTTFB now rw =
     (case rwStart rw of None \<Rightarrow> rw | Some start \<Rightarrow> (if rwTTFB rw = 0 then rw\<lparr>rwTTFB := now - start\<rparr> else rw))"

definition rw_WriteHeader :: "int \<Rightarrow> int \<Rightarrow> responseWriter \<Rightarrow> responseWriter" where
  "rw_WriteHeader now status rw =
     (if rwOnce rw then rw
      else (recordTTFB now (rw\<lparr>rwOnce := True, rwStatus := status\<rparr>))\<lparr>rwBelow := rwBelow rw @ [WHeader status]\<rparr>)"

definition rw_Write :: "int \<Rightarrow> string \<Rightarrow> responseWriter \<Rightarrow> responseWriter" where
  "rw_Write now b rw =
     (let rw1 = (if rwOnce rw then rw else recordTTFB now (rw\<lparr>rwOnce := True\<rparr>))
      in rw1\<lparr>rwBelow := rwBelow rw1 @ [WBytes b], rwBytes := rwBytes rw1 + int (length b)\<rparr>)"

definition rw_init :: "int option \<Rightarrow> responseWriter" where
  "rw_init start = \<lparr>rwStatus = 200, rwBytes = 0, rwOnce = False, rwStart = start, rwTTFB = 0, rwBelow = []\<rparr>"

definition rw_step :: "int \<times> wop \<Rightarrow> responseWriter \<Rightarrow> responseWriter" where
  "rw_step e rw = (case snd e of WHeader s \<Rightarrow> rw_WriteHeader (fst e) s rw | WBytes b \<Rightarrow> rw_Write (fst e) b rw)"

text \<open>\<^verbatim>\<open>captureResponseWriter\<close> of \<^verbatim>\<open>full_capture.go\<close>.\<close>

record captureResponseWriter =
  cwStatus :: int
  cwTotalBytes :: int
  cwBody :: string
  cwBodyCap :: int
  cwBelow :: "wop list"

definition cw_WriteHeader :: "int \<Rightarrow> captureResponseWriter \<Rightarrow> captureResponseWriter" where
  "cw_WriteHeader status c = c\<lparr>cwStatus := status, cwBelow := cwBelow c @ [WHeader status]\<rparr>"

definition cw_Write :: "string \<Rightarrow> captureResponseWriter \<Rightarrow> captureResponseWriter" where
  "cw_Write p c =
     (let c1 = (if cwStatus c = 0 then c\<lparr>cwStatus := 200\<rparr> else c);
          c2 = (if cwBodyCap c1 > 0 \<and> int (length (cwBody c1)) < cwBodyCap c1
                then let rem0 = cwBodyCap c1 - int (length (cwBody c1));
                         remaining = (if rem0 > int (length p) then int (length p) else rem0)
                     in c1\<lparr>cwBody := cwBody c1 @ take (nat remaining) p\<rparr>
                else c1)
      in c2\<lparr>cwBelow := cwBelow c2 @ [WBytes p], cwTotalBytes := cwTotalBytes c2 + int (length p)\<rparr>)"

definition cw_init :: "int \<Rightarrow> captureResponseWriter" where
  "cw_init cap = \<lparr>cwStatus = 0, cwTotalBytes = 0, cwBody = [], cwBodyCap = cap, cwBelow = []\<rparr>"

definition cw_step :: "wop \<Rightarrow> captureResponseWriter \<Rightarrow> captureResponseWriter" where
  "cw_step op c = (case op of WHeader s \<Rightarrow> cw_WriteHeader s c | WBytes b \<Rightarrow> cw_Write b c)"

section \<open>logging.go and metrics.go\<close>

text \<open>The notes a handler makes; without a \<^verbatim>\<open>requestMeta\<close> in the context each is a no-op.\<close>

definition WithEngine :: "string \<Rightarrow> string \<Rightarrow> requestMeta option \<Rightarrow> requestMeta option" where
  "WithEngine nm url m = map_option (\<lambda>m. m\<lparr>rmEngine := nm, rmEngineURL := url\<rparr>) m"

definition WithFilename :: "string \<Rightarrow> requestMeta option \<Rightarrow> requestMeta option" where
  "WithFilename nm m = map_option (\<lambda>m. m\<lparr>rmFilename := nm\<rparr>) m"

definition WithFileCount :: "int \<Rightarrow> requestMeta option \<Rightarrow> requestMeta option" where
  "WithFileCount n m = map_option (\<lambda>m. m\<lparr>rmFileCount := n\<rparr>) m"

definition WithMimeType :: "string \<Rightarrow> requestMeta option \<Rightarrow> requestMeta option" where
  "WithMimeType ct m = map_option (\<lambda>m. m\<lparr>rmMimeType := ct\<rparr>) m"

definition MimeTypeFrom :: "requestMeta option \<Rightarrow> string" where
  "MimeTypeFrom m = (case m of Some m \<Rightarrow> rmMimeType m | None \<Rightarrow> [])"

definition RecordMimeSource :: "string \<Rightarrow> string \<Rightarrow> requestMeta option \<Rightarrow> requestMeta option" where
  "RecordMimeSource source declared m = map_option (\<lambda>m. m\<lparr>rmMimeSource := source, rmMimeDeclared := declared\<rparr>) m"

definition WithPickDecision :: "string \<Rightarrow> string \<Rightarrow> requestMeta option \<Rightarrow> requestMeta option" where
  "WithPickDecision source strat m = map_option (\<lambda>m. m\<lparr>rmPickSource := source, rmRoutingStrat := strat\<rparr>) m"

definition PickDecisionFrom :: "requestMeta option \<Rightarrow> string \<times> string" where
  "PickDecisionFrom m = (case m of Some m \<Rightarrow> (rmPickSource m, rmRoutingStrat m) | None \<Rightarrow> ([], []))"

definition StartUpstream :: "int \<Rightarrow> requestMeta option \<Rightarrow> requestMeta option" where
  "StartUpstream now m = map_option (\<lambda>m. m\<lparr>rmUpstreamStart := Some now\<rparr>) m"

definition EndUpstream :: "int \<Rightarrow> int \<Rightarrow> requestMeta option \<Rightarrow> requestMeta option" where
  "EndUpstream now status m =
     map_option (\<lambda>m. (case rmUpstreamStart m of Some t \<Rightarrow> m\<lparr>rmUpstreamDur := now - t\<rparr> | None \<Rightarrow> m)\<lparr>rmUpstreamStatus := status\<rparr>) m"

definition UpstreamStatusFrom :: "requestMeta option \<Rightarrow> int" where
  "UpstreamStatusFrom m = (case m of Some m \<Rightarrow> rmUpstreamStatus m | None \<Rightarrow> 0)"

definition UpstreamDurationFrom :: "requestMeta option \<Rightarrow> int" where
  "UpstreamDurationFrom m = (case m of Some m \<Rightarrow> rmUpstreamDur m | None \<Rightarrow> 0)"

definition accessLevel :: "int \<Rightarrow> logLevel" where
  "accessLevel status = (if status \<ge> 500 then LvlError else if status \<ge> 400 then LvlWarn else LvlInfo)"

definition silenceSet :: "string list \<Rightarrow> string list" where
  "silenceSet silencePaths = filter (\<lambda>p. p \<noteq> []) silencePaths"

text \<open>The times of the calls on the writer are read off a clock.\<close>

definition AccessLog :: "string list \<Rightarrow> (nat \<Rightarrow> int) \<Rightarrow> handler \<Rightarrow> handler" where
  "AccessLog silencePaths clock next h r =
     (let res = next h r;
          rw = fold rw_step (map (\<lambda>(i, op). (clock (Suc i), op)) (enumerate 0 (wrOps res))) (rw_init (Some (clock 0)));
          muted = (wqPath r \<in> set (silenceSet silencePaths) \<or> ctxSilenced r)
      in res\<lparr>wrOps := rwBelow rw,
             wrLogs := wrLogs res @ (if wrPanic res \<or> muted then []
               else [LogAccess (accessLevel (rwStatus rw)) (IDFrom r) (wqPath r) (rwStatus rw) (rwBytes rw) ((wrMeta res)\<lparr>rmTTFB := rwTTFB rw\<rparr>)])\<rparr>)"

definition StatusClass :: "int \<Rightarrow> string" where
  "StatusClass code =
     (if code \<ge> 100 \<and> code < 200 then ''1xx''
      else if code \<ge> 200 \<and> code < 300 then ''2xx''
      else if code \<ge> 300 \<and> code < 400 then ''3xx''
      else if code \<ge> 400 \<and> code < 500 then ''4xx''
      else if code \<ge> 500 \<and> code < 600 then ''5xx''
      else ''error'')"

definition routeLabelFromContext :: "webReq \<Rightarrow> string" where
  "routeLabelFromContext r = (if wqRoute r \<noteq> [] then wqRoute r else ''unknown'')"

definition Metrics_mw :: "handler \<Rightarrow> handler" where
  "Metrics_mw next h r =
     (let res = next h r;
          rw = fold rw_step (map (Pair 0) (wrOps res)) (rw_init None); engineName = rmEngine (wrMeta res)
      in res\<lparr>wrOps := rwBelow rw,
             wrLogs := wrLogs res @ (if wrPanic res then []
               else [MetricRequest engineName (routeLabelFromContext r) (wqMethod r) (StatusClass (rwStatus rw))]
                 @ (if rwStatus rw \<ge> 500 then [MetricUpstreamError engineName] else [])
                 @ (if rwBytes rw > 0 then [MetricBytes engineName ''out'' (rwBytes rw)] else [])
                 @ (if bodyBytesIn r res > 0 then [MetricBytes engineName ''in'' (bodyBytesIn r res)] else []))\<rparr>)"

section \<open>full_capture.go\<close>

definition fullCaptureBodyHardCap :: int where
  "fullCaptureBodyHardCap = 64 * 2 ^ 10"

definition builtinRedactedHeaders :: "string list" where
  "builtinRedactedHeaders = [''authorization'', ''proxy-authorization'', ''cookie'', ''set-cookie'', ''x-api-key'']"

definition buildRedactSet :: "string list \<Rightarrow> string list" where
  "buildRedactSet extra = builtinRedactedHeaders @ map ToLower (filter (\<lambda>h. h \<noteq> []) extra)"

text \<open>\<^verbatim>\<open>itoa\<close> on a 64-bit \<^verbatim>\<open>int\<close>, whose negation wraps at the least value; the digits are filled in from the right.\<close>

definition neg64 :: "int \<Rightarrow> int" where
  "neg64 n = (if n = - (2 ^ 63) then n else - n)"

function itoaLoop :: "int \<Rightarrow> string \<Rightarrow> string" where
  "itoaLoop n digits = (if n > 0 then itoaLoop (n div 10) (char_of (48 + nat (n mod 10)) # digits) else digits)"
  by pat_completeness auto
termination
  by (relation "measure (\<lambda>(n, _). nat n)") (auto intro: int_div_less_self)

declare itoaLoop.simps [simp del]

definition itoa :: "int \<Rightarrow> string" where
  "itoa n =
     (if n = 0 then ''0''
      else let neg = n < 0; ds = itoaLoop (if neg then neg64 n else n) []
           in if neg then CHR ''-'' # ds else ds)"

definition redactValue :: "string \<Rightarrow> string" where
  "redactValue v = ''<redacted len='' @ itoa (int (length v)) @ ''>''"

definition redactHeaders :: "Header \<Rightarrow> string list \<Rightarrow> (string \<times> string list) list" where
  "redactHeaders h redactSet = map (\<lambda>(k, vs). if ToLower k \<in> set redactSet then (k, map redactValue vs) else (k, vs)) h"

text \<open>\<^verbatim>\<open>base64.StdEncoding\<close>.\<close>

definition b64char :: "nat \<Rightarrow> char" where
  "b64char n = (if n < 26 then char_of (65 + n) else if n < 52 then char_of (71 + n) else if n < 62 then char_of (n - 4)
     else if n = 62 then CHR ''+'' else CHR ''/'')"

fun base64_Encode :: "string \<Rightarrow> string" where
  "base64_Encode [] = []"
| "base64_Encode [a] = (let x = byte_of a in [b64char (x div 4), b64char (x mod 4 * 16), CHR ''='', CHR ''=''])"
| "base64_Encode [a, b] =
     (let x = byte_of a; y = byte_of b
      in [b64char (x div 4), b64char (x mod 4 * 16 + y div 16), b64char (y mod 16 * 4), CHR ''=''])"
| "base64_Encode (a # b # c # s) =
     (let x = byte_of a; y = byte_of b; z = byte_of c
      in [b64char (x div 4), b64char (x mod 4 * 16 + y div 16), b64char (y mod 16 * 4 + z div 64), b64char (z mod 64)] @ base64_Encode s)"

definition encodeBody :: "string \<Rightarrow> string" where
  "encodeBody b = (if b = [] then [] else base64_Encode b)"

text \<open>\<^verbatim>\<open>peekBody\<close>: the prefix, and the reader put back together from it and the rest.\<close>

definition peekBody :: "src \<Rightarrow> int \<Rightarrow> string \<times> src" where
  "peekBody body n =
     (let pre = take (nat n) (srcData body); rest = drop (nat n) (srcData body)
      in (encodeBody pre, \<lparr>srcData = pre @ rest, srcErr = srcErr body\<rparr>))"

definition FullCapture :: "bool \<Rightarrow> int \<Rightarrow> string list \<Rightarrow> handler \<Rightarrow> handler" where
  "FullCapture enabled bodyBytes extra next =
     (if \<not> enabled then next
      else let redactSet = buildRedactSet extra;
               bodyCap = (if bodyBytes > fullCaptureBodyHardCap then fullCaptureBodyHardCap else bodyBytes)
           in (\<lambda>h r0.
                 let r1 = r0\<lparr>ctxCapture := True\<rparr>;
                     (reqBody, r2) = (if bodyCap > 0 then (case peekBody (wqBody r1) bodyCap of (s, b) \<Rightarrow> (s, r1\<lparr>wqBody := b\<rparr>)) else ([], r1));
                     res = next h r2;
                     cw = fold cw_step (wrOps res) (cw_init bodyCap)
                 in res\<lparr>wrOps := cwBelow cw,
                        wrLogs := wrLogs res @ (if wrPanic res then []
                          else [LogCapture \<lparr>clRequestID = IDFrom r2, clStatus = cwStatus cw, clResponseBytes = cwTotalBytes cw,
                                  clRequestHeaders = redactHeaders (wqHeader r2) redactSet,
                                  clResponseHeaders = redactHeaders (wrHeader res) redactSet,
                                  clRequestBody = reqBody, clResponseBody = encodeBody (cwBody cw)\<rparr>])\<rparr>))"

section \<open>What the writers do to a response\<close>

text \<open>Keep the first status, and only when no byte went before it.\<close>

fun dropHeaders :: "wop list \<Rightarrow> wop list" where
  "dropHeaders [] = []"
| "dropHeaders (WHeader _ # ops) = dropHeaders ops"
| "dropHeaders (WBytes b # ops) = WBytes b # dropHeaders ops"

definition committed :: "wop list \<Rightarrow> wop list" where
  "committed ops = (case ops of WHeader s # rest \<Rightarrow> WHeader s # dropHeaders rest | _ \<Rightarrow> dropHeaders ops)"

lemma sentBytes_dropHeaders [simp]: "sentBytes (dropHeaders ops) = sentBytes ops"
  by (induction ops rule: dropHeaders.induct) auto

lemma committed_same_response [simp]:
  "sentStatus (committed ops) = sentStatus ops" "sentBytes (committed ops) = sentBytes ops"
  by (cases ops rule: sentStatus.cases; simp add: committed_def)+

lemma recordTTFB_frame [simp]:
  "rwStatus (recordTTFB now rw) = rwStatus rw" "rwBytes (recordTTFB now rw) = rwBytes rw"
  "rwOnce (recordTTFB now rw) = rwOnce rw" "rwBelow (recordTTFB now rw) = rwBelow rw"
  by (simp_all add: recordTTFB_def split: option.split)

lemma rw_after_commit:
  "rwOnce rw \<Longrightarrow> let rw' = fold rw_step es rw in
     rwBelow rw' = rwBelow rw @ dropHeaders (map snd es) \<and> rwStatus rw' = rwStatus rw
     \<and> rwBytes rw' = rwBytes rw + int (length (sentBytes (map snd es)))"
proof (induction es arbitrary: rw)
  case (Cons e es)
  obtain t op where e: "e = (t, op)" by fastforce
  have "rwOnce (rw_step e rw)" using Cons.prems
    by (auto simp: e rw_step_def rw_WriteHeader_def rw_Write_def Let_def split: wop.split)
  from Cons.IH[OF this] Cons.prems show ?case
    by (cases op) (auto simp: e rw_step_def rw_WriteHeader_def rw_Write_def Let_def)
qed simp

lemma responseWriter_commits:
  assumes "rw = fold rw_step es (rw_init start)"
  shows "rwBelow rw = committed (map snd es)" "rwStatus rw = sentStatus (map snd es)"
    "rwBytes rw = int (length (sentBytes (map snd es)))"
proof -
  have "rwBelow rw = committed (map snd es) \<and> rwStatus rw = sentStatus (map snd es) \<and> rwBytes rw = int (length (sentBytes (map snd es)))"
  proof (cases es)
    case Nil
    with assms show ?thesis by (simp add: rw_init_def committed_def)
  next
    case (Cons e es')
    obtain t op where e: "e = (t, op)" by fastforce
    have "rwOnce (rw_step e (rw_init start))"
      by (auto simp: e rw_step_def rw_WriteHeader_def rw_Write_def rw_init_def Let_def split: wop.split)
    from rw_after_commit[OF this, of es'] show ?thesis
      using assms by (cases op) (auto simp: Cons e rw_step_def rw_WriteHeader_def rw_Write_def rw_init_def committed_def Let_def)
  qed
  then show "rwBelow rw = committed (map snd es)" "rwStatus rw = sentStatus (map snd es)"
    "rwBytes rw = int (length (sentBytes (map snd es)))" by simp_all
qed

lemma cw_step_frame [simp]:
  "cwBodyCap (cw_step op c) = cwBodyCap c" "cwBelow (cw_step op c) = cwBelow c @ [op]"
  by (auto simp: cw_step_def cw_WriteHeader_def cw_Write_def Let_def split: wop.split)

lemma captureResponseWriter_passes_on:
  "cwBelow (fold cw_step ops c) = cwBelow c @ ops"
  by (induction ops arbitrary: c) auto

lemma nat_sub: "nat (int a - int b) = a - b"
  by arith

lemma cw_step_body:
  assumes "cwBody c = take (nat (cwBodyCap c)) d" "0 \<le> cwBodyCap c"
  shows "cwBody (cw_step op c) = take (nat (cwBodyCap c)) (d @ sentBytes [op])"
proof (cases op)
  case (WHeader s)
  with assms show ?thesis by (simp add: cw_step_def cw_WriteHeader_def)
next
  case (WBytes p)
  define k where "k = nat (cwBodyCap c)"
  have k: "cwBodyCap c = int k" using assms(2) by (simp add: k_def)
  have b: "cwBody c = take k d" using assms(1) by (simp add: k_def)
  show ?thesis
    by (auto simp: WBytes cw_step_def cw_Write_def Let_def k b min_def nat_sub split: if_splits)
qed

lemma captureResponseWriter_body:
  assumes "0 \<le> cap"
  shows "cwBody (fold cw_step ops (cw_init cap)) = take (nat cap) (sentBytes ops)"
proof -
  have app: "sentBytes (a @ b) = sentBytes a @ sentBytes b" for a b
    by (induction a rule: sentBytes.induct) auto
  have "cwBody (fold cw_step ops c) = take (nat (cwBodyCap c)) (d @ sentBytes ops)"
    if "cwBody c = take (nat (cwBodyCap c)) d" "0 \<le> cwBodyCap c" for c d
    using that
  proof (induction ops arbitrary: c d)
    case (Cons op ops)
    have "cwBody (cw_step op c) = take (nat (cwBodyCap (cw_step op c))) (d @ sentBytes [op])"
      using cw_step_body[OF Cons.prems] by simp
    from Cons.IH[OF this] Cons.prems show ?case using app[of "[op]" ops] by simp
  qed simp
  from this[of "cw_init cap" "[]"] assms show ?thesis by (simp add: cw_init_def)
qed

lemma captureResponseWriter_bounded: "length (cwBody (fold cw_step ops (cw_init cap))) \<le> nat cap"
proof (cases "0 \<le> cap")
  case True
  then show ?thesis by (simp add: captureResponseWriter_body)
next
  case False
  have "cwBody (fold cw_step ops c) = cwBody c" if "cwBodyCap c < 0" for c
    using that by (induction ops arbitrary: c) (auto simp: cw_step_def cw_WriteHeader_def cw_Write_def Let_def split: wop.split)
  with False show ?thesis by (simp add: cw_init_def)
qed

section \<open>Decimal numbers without strconv\<close>

lemma itoaLoop_show: "n > 0 \<Longrightarrow> itoaLoop n digits = show_nat (nat n) @ digits"
proof (induction n digits rule: itoaLoop.induct)
  case (1 n digits)
  let ?c = "char_of (48 + nat (n mod 10))"
  have m: "nat (n mod 10) = nat n mod 10" "nat (n div 10) = nat n div 10" using 1(2) by (simp_all add: nat_mod_distrib nat_div_distrib)
  show ?case
  proof (cases "n < 10")
    case True
    with 1(2) have "itoaLoop n digits = itoaLoop 0 (?c # digits)" by (subst itoaLoop.simps) simp
    also have "\<dots> = ?c # digits" by (subst itoaLoop.simps) simp
    finally show ?thesis using True 1(2) m by (subst show_nat.simps) (simp add: nat_less_iff)
  next
    case False
    with 1(2) have "itoaLoop n digits = itoaLoop (n div 10) (?c # digits)" by (subst itoaLoop.simps) simp
    also have "\<dots> = show_nat (nat (n div 10)) @ ?c # digits" using False 1(1)[OF 1(2)] by simp
    also have "\<dots> = show_nat (nat n) @ digits"
      using False 1(2) m by (subst (2) show_nat.simps) (simp add: nat_less_iff not_less)
    finally show ?thesis .
  qed
qed

text \<open>The hand-written \<^verbatim>\<open>itoa\<close> is \<^verbatim>\<open>strconv.Itoa\<close>, except at the least 64-bit integer, whose digits it loses.\<close>

lemma itoa_is_Itoa:
  assumes "- (2 ^ 63) \<le> n" "n < 2 ^ 63"
  shows "itoa n = (if n = - (2 ^ 63) then ''-'' else show_int n)"
proof -
  have z: "show_nat 0 = ''0''" by code_simp
  consider "n = - (2 ^ 63)" | "n \<noteq> - (2 ^ 63)" "n < 0" | "n = 0" | "n > 0" by linarith
  then show ?thesis
  proof cases
    case 1
    then show ?thesis by (simp add: itoa_def neg64_def itoaLoop.simps Let_def)
  next
    case 2
    then show ?thesis using itoaLoop_show[of "- n" "[]"] by (simp add: itoa_def neg64_def show_int_def Let_def)
  next
    case 3
    then show ?thesis using z by (simp add: itoa_def show_int_def)
  next
    case 4
    then show ?thesis using itoaLoop_show[of n "[]"] assms by (simp add: itoa_def show_int_def Let_def)
  qed
qed

lemma redactValue_show: "redactValue v = ''<redacted len='' @ show_nat (length v) @ ''>''"
proof -
  have z: "show_nat 0 = ''0''" by code_simp
  have "itoa (int (length v)) = show_nat (length v)"
    using itoaLoop_show[of "int (length v)" "[]"] z by (cases "length v = 0") (simp_all add: itoa_def Let_def)
  then show ?thesis by (simp add: redactValue_def)
qed

lemma length_base64: "length (base64_Encode s) = 4 * ((length s + 2) div 3)"
proof (induction s rule: base64_Encode.induct)
  case (4 a b c s)
  have "(length s + 3 + 2) div 3 = Suc ((length s + 2) div 3)" by presburger
  with 4 show ?case by (simp add: Let_def)
qed (simp_all add: Let_def)

lemma encodeBody_bounded: "length s \<le> n \<Longrightarrow> length (encodeBody s) \<le> 4 * ((n + 2) div 3)"
  by (auto simp: encodeBody_def length_base64 intro: div_le_mono)

section \<open>Properties of the chain\<close>

lemma apiKeyLoop_iff: "apiKeyLoop p hs ok \<longleftrightarrow> ok \<or> p \<in> set hs"
  by (induction p hs ok rule: apiKeyLoop.induct) auto

text \<open>
  The API-key gate is exact.  With the key required, a request goes on to the handler, unchanged, exactly when the value of
  the configured header is one of the configured keys and not empty; every other request is answered with 401 and the handler does not
  run.  So an empty key in the configuration admits nobody.  The hypothesis is that the hash does not collide on the keys in play.
\<close>

lemma api_key_gate_exact:
  assumes "inj_on sha256 (insert (header_Get (wqHeader r) name) (set allowed))"
  shows "APIKey sha256 name allowed True next h r =
     (if header_Get (wqHeader r) name \<noteq> [] \<and> header_Get (wqHeader r) name \<in> set allowed then next h r
      else http_Error h ''unauthorized'' 401)"
proof -
  let ?p = "header_Get (wqHeader r) name"
  have "sha256 ?p \<in> sha256 ` set allowed \<longleftrightarrow> ?p \<in> set allowed"
    using assms by (auto simp: inj_on_def)
  then show ?thesis by (auto simp: APIKey_def Let_def apiKeyLoop_iff)
qed

text \<open>The observing middlewares and the response.\<close>

lemma observers_response:
  "let res = inner h (r\<lparr>ctxCapture := (enabled \<or> ctxCapture r)\<rparr>);
       seen = AccessLog paths clock (Metrics_mw (FullCapture enabled bodyBytes extra inner)) h r
   in sentStatus (wrOps seen) = sentStatus (wrOps res) \<and> sentBytes (wrOps seen) = sentBytes (wrOps res)
      \<and> length (filter (\<lambda>op. \<exists>s. op = WHeader s) (wrOps seen)) \<le> 1
      \<and> wrHeader seen = wrHeader res \<and> wrPanic seen = wrPanic res \<and> wrReads seen = wrReads res"
proof -
  have peek: "peekBody b n = (encodeBody (take (nat n) (srcData b)), b)" for b n
    by (simp add: peekBody_def Let_def)
  define res where "res = inner h (r\<lparr>ctxCapture := (enabled \<or> ctxCapture r)\<rparr>)"
  define cap where "cap = FullCapture enabled bodyBytes extra inner h r"
  have r: "r\<lparr>ctxCapture := True, wqBody := wqBody r\<rparr> = r\<lparr>ctxCapture := True\<rparr>" by simp
  have c: "wrOps cap = wrOps res" "wrHeader cap = wrHeader res" "wrPanic cap = wrPanic res" "wrReads cap = wrReads res"
    by (auto simp: cap_def res_def FullCapture_def Let_def captureResponseWriter_passes_on cw_init_def peek r)
  have m: "map snd (map (\<lambda>(i, op). (clock (Suc i), op)) (enumerate 0 xs)) = xs" for xs :: "wop list"
    by (simp add: comp_def case_prod_beta)
  have m2: "map snd (map (Pair 0) xs) = xs" for xs :: "wop list" by (simp add: comp_def)
  define seen where "seen = AccessLog paths clock (Metrics_mw (FullCapture enabled bodyBytes extra inner)) h r"
  have s: "wrOps seen = committed (committed (wrOps res))" "wrHeader seen = wrHeader res" "wrPanic seen = wrPanic res" "wrReads seen = wrReads res"
    using c by (simp_all add: seen_def AccessLog_def Metrics_mw_def Let_def responseWriter_commits[OF refl] m m2 del: map_map flip: cap_def)
  have one: "length (filter (\<lambda>op. \<exists>s. op = WHeader s) (dropHeaders ops)) = 0" for ops
    by (induction ops rule: dropHeaders.induct) auto
  have "length (filter (\<lambda>op. \<exists>s. op = WHeader s) (committed ops)) \<le> 1" for ops
    using one[of "tl ops"] one[of ops] by (cases ops rule: sentStatus.cases) (simp_all add: committed_def)
  with s show ?thesis unfolding Let_def seen_def[symmetric] res_def[symmetric] by simp
qed


end
