(* ===== verification/Httpclient.thy ===== *)
theory Httpclient
  imports Config Middleware
begin

text \<open>
  \<^verbatim>\<open>internal/httpclient\<close>, \<^verbatim>\<open>internal/breaker\<close> and \<^verbatim>\<open>transport/http/server.go\<close>: the outbound client of an engine as the settings of its
  transport, the logging round tripper, the trip rule of the breaker and the TLS settings of the server.  Files, key pairs, the rate
  limiter, the inner transport and the breaker library are arguments.
\<close>

section \<open>client.go\<close>

definition orDefault_client :: "int \<Rightarrow> int \<Rightarrow> int" where
  "orDefault_client v dflt = (if v \<le> 0 then dflt else v)"

definition orDuration :: "Duration \<Rightarrow> Duration \<Rightarrow> Duration" where
  "orDuration v dflt = (if v \<le> 0 then dflt else v)"

record fileSystem =
  fsRead :: "string \<Rightarrow> string result"
  fsPEM :: "string \<Rightarrow> bool"
  fsKeyPair :: "string \<Rightarrow> string \<Rightarrow> string result"

record tlsClient =
  tlMinVersion :: string
  tlInsecureSkipVerify :: bool
  tlServerName :: string
  tlRootCAs :: "string option"
  tlCertificate :: "string option"

definition loadCAPool :: "fileSystem \<Rightarrow> string \<Rightarrow> string result" where
  "loadCAPool fs path =
     (case fsRead fs path of
        Inl e \<Rightarrow> Inl (wrap_error ''httpclient: read CA: '' e)
      | Inr pem \<Rightarrow> (if \<not> fsPEM fs pem then Inl (plain_error ''httpclient: no PEM data in CA file'') else Inr pem))"

definition client_buildTLS :: "fileSystem \<Rightarrow> TLSClientConfig \<Rightarrow> tlsClient result" where
  "client_buildTLS fs c =
     (let tc = \<lparr>tlMinVersion = ''1.2'', tlInsecureSkipVerify = tcInsecureSkipVerify c, tlServerName = tcServerName c,
                tlRootCAs = None, tlCertificate = None\<rparr>;
          cas = (if tcCAFile c \<noteq> [] then map_sum id Some (loadCAPool fs (tcCAFile c)) else Inr None)
      in case cas of
           Inl e \<Rightarrow> Inl e
         | Inr pool \<Rightarrow>
             (if tcCertFile c \<noteq> [] \<or> tcKeyFile c \<noteq> [] then
                (if tcCertFile c = [] \<or> tcKeyFile c = []
                 then Inl (plain_error ''httpclient: TLS cert_file and key_file must both be set'')
                 else case fsKeyPair fs (tcCertFile c) (tcKeyFile c) of
                        Inl e \<Rightarrow> Inl (wrap_error ''httpclient: load client cert: '' e)
                      | Inr cert \<Rightarrow> Inr (tc\<lparr>tlRootCAs := pool, tlCertificate := Some cert\<rparr>))
              else Inr (tc\<lparr>tlRootCAs := pool\<rparr>)))"

record Client =
  ckRequestTimeout :: Duration
  ckBaseURL :: string
  ckMaxIdleConns :: int
  ckMaxIdleConnsPerHost :: int
  ckMaxConnsPerHost :: int
  ckIdleConnTimeout :: Duration
  ckTLSHandshakeTimeout :: Duration
  ckResponseHeaderTimeout :: Duration
  ckExpectContinueTimeout :: Duration
  ckDisableCompression :: bool
  ckTLS :: tlsClient
  ckLimiter :: "(rat \<times> int) option"

definition client_New :: "fileSystem \<Rightarrow> EngineConfig \<Rightarrow> Client result" where
  "client_New fs cfg =
     (case client_buildTLS fs (hcTLS (ecHTTP cfg)) of
        Inl e \<Rightarrow> Inl e
      | Inr tlsConf \<Rightarrow>
          (let requestTimeout = orDuration (ecRequestTimeout cfg) (120 * second);
               rht = hcResponseHeaderTimeout (ecHTTP cfg)
           in Inr \<lparr>ckRequestTimeout = requestTimeout, ckBaseURL = ecURL cfg,
                   ckMaxIdleConns = orDefault_client (hcMaxIdleConns (ecHTTP cfg)) 256,
                   ckMaxIdleConnsPerHost = orDefault_client (hcMaxIdleConnsPerHost (ecHTTP cfg)) 64,
                   ckMaxConnsPerHost = hcMaxConnsPerHost (ecHTTP cfg),
                   ckIdleConnTimeout = orDuration (hcIdleConnTimeout (ecHTTP cfg)) (90 * second),
                   ckTLSHandshakeTimeout = orDuration (hcTLSHandshakeTimeout (ecHTTP cfg)) (10 * second),
                   ckResponseHeaderTimeout = (if rht \<le> 0 then requestTimeout else rht),
                   ckExpectContinueTimeout = orDuration (hcExpectContinueTimeout (ecHTTP cfg)) second,
                   ckDisableCompression = hcDisableCompression (ecHTTP cfg), ckTLS = tlsConf,
                   ckLimiter = (if rlRPS (ecRateLimit cfg) > 0
                                then Some (rlRPS (ecRateLimit cfg), if rlBurst (ecRateLimit cfg) \<le> 0 then 1 else rlBurst (ecRateLimit cfg))
                                else None)\<rparr>))"

definition WithDeadline :: "Client \<Rightarrow> int \<Rightarrow> int option \<Rightarrow> int option" where
  "WithDeadline c now deadline =
     (if ckRequestTimeout c \<le> 0 then deadline
      else Some (case deadline of Some t \<Rightarrow> min t (now + ckRequestTimeout c) | None \<Rightarrow> now + ckRequestTimeout c))"

section \<open>ratelimited.go and instrumented.go\<close>

definition RateLimited_RoundTrip :: "go_error option option \<Rightarrow> (unit \<Rightarrow> int result) \<Rightarrow> int result" where
  "RateLimited_RoundTrip wait send = (case wait of Some (Some e) \<Rightarrow> Inl e | _ \<Rightarrow> send ())"

record outboundLine =
  olEngine :: string
  olURL :: string
  olMethod :: string
  olPath :: string
  olMimeType :: string
  olAuthHeader :: string
  olAuthScheme :: string
  olKeyPresent :: bool
  olKeyLen :: nat
  olBodySnippet :: string

record InstrumentedTransport =
  itEngine :: string
  itURL :: string
  itAuthHeader :: string
  itAuthScheme :: string
  itBodyLogBytes :: int

text \<open>The request as headers, method, path and body (\<^verbatim>\<open>None\<close> for \<^verbatim>\<open>http.NoBody\<close>); the result is the response or error, the body that
  was sent on, the log line and the status recorded.\<close>

definition instrumented_RoundTrip ::
  "InstrumentedTransport \<Rightarrow> bool \<Rightarrow> (src option \<Rightarrow> int result) \<Rightarrow> string \<Rightarrow> string \<Rightarrow> Header \<Rightarrow> src option \<Rightarrow>
   int result \<times> src option \<times> outboundLine list \<times> (string \<times> int)" where
  "instrumented_RoundTrip t silenced send meth path h body =
     (let v = (if itAuthHeader t \<noteq> [] then header_Get h (itAuthHeader t) else []);
          present = (v \<noteq> []);
          keyLen = (if present then length (TrimPrefix v ''Bearer '') else 0);
          (snippet, body') =
            (case body of
               Some b \<Rightarrow>
                 (if itBodyLogBytes t > 0
                  then let snap = take (nat (itBodyLogBytes t)) (srcData b); rest = drop (nat (itBodyLogBytes t)) (srcData b)
                       in (base64_Encode snap, Some \<lparr>srcData = snap @ rest, srcErr = srcErr b\<rparr>)
                  else ([], body))
             | None \<Rightarrow> ([], body));
          line = \<lparr>olEngine = itEngine t, olURL = itURL t, olMethod = meth, olPath = path, olMimeType = header_Get h ''Content-Type'',
                  olAuthHeader = itAuthHeader t, olAuthScheme = itAuthScheme t, olKeyPresent = present, olKeyLen = keyLen, olBodySnippet = snippet\<rparr>;
          res = send body'
      in (res, body', if silenced then [] else [line], (itEngine t, case res of Inl _ \<Rightarrow> 0 | Inr status \<Rightarrow> status)))"

definition Instrument :: "Client \<Rightarrow> string \<Rightarrow> string \<Rightarrow> string \<Rightarrow> int \<Rightarrow> InstrumentedTransport" where
  "Instrument c nm authHeader authScheme bodyLogBytes =
     \<lparr>itEngine = nm, itURL = ckBaseURL c, itAuthHeader = authHeader, itAuthScheme = authScheme, itBodyLogBytes = bodyLogBytes\<rparr>"

section \<open>breaker.go\<close>

definition ReadyToTrip :: "BreakerConfig \<Rightarrow> nat \<Rightarrow> bool" where
  "ReadyToTrip cfg consecutiveFailures = (consecutiveFailures \<ge> brConsecutiveFailuresThreshold cfg)"

definition StateValue :: "string \<Rightarrow> int" where
  "StateValue state = (if state = ''closed'' then 0 else if state = ''half-open'' then 1 else if state = ''open'' then 2 else - 1)"

section \<open>server.go\<close>

datatype ClientAuthType = NoClientCert | RequestClientCert | VerifyClientCertIfGiven | RequireAndVerifyClientCert

record tlsServer =
  tsMinVersion :: string
  tsClientAuth :: ClientAuthType
  tsClientCAs :: "string option"

definition server_buildTLS :: "fileSystem \<Rightarrow> TLSServerConfig \<Rightarrow> tlsServer option result" where
  "server_buildTLS fs cfg =
     (if \<not> tlsEnabled cfg then Inr None
      else let minv = (if tlsMinVersion cfg = ''1.2'' then ''1.2'' else ''1.3'');
               auth = (if tlsClientAuth cfg = [] \<or> tlsClientAuth cfg = ''none'' then Inr NoClientCert
                       else if tlsClientAuth cfg = ''request'' then Inr RequestClientCert
                       else if tlsClientAuth cfg = ''verify'' then Inr VerifyClientCertIfGiven
                       else if tlsClientAuth cfg = ''require-and-verify'' then Inr RequireAndVerifyClientCert
                       else if tlsClientAuth cfg = ''require'' then Inl (plain_error (''server.tls.client_auth='' @ go_quote (tlsClientAuth cfg)
                           @ '' is not supported (it accepts any cert without verification); use '' @ go_quote ''require-and-verify''))
                       else Inl (plain_error (''unknown client_auth '' @ go_quote (tlsClientAuth cfg))))
           in case auth of
                Inl e \<Rightarrow> Inl e
              | Inr ca \<Rightarrow>
                  (if tlsClientCAFile cfg \<noteq> [] then
                     (case fsRead fs (tlsClientCAFile cfg) of
                        Inl e \<Rightarrow> Inl (wrap_error ''read client CA: '' e)
                      | Inr pem \<Rightarrow> (if \<not> fsPEM fs pem then Inl (plain_error ''invalid client CA pem'')
                                    else Inr (Some \<lparr>tsMinVersion = minv, tsClientAuth = ca, tsClientCAs = Some pem\<rparr>)))
                   else Inr (Some \<lparr>tsMinVersion = minv, tsClientAuth = ca, tsClientCAs = None\<rparr>)))"

definition GracePeriod :: "ServerConfig \<Rightarrow> Duration" where
  "GracePeriod cfg = (if srvShutdownGrace cfg \<le> 0 then 30 * second else srvShutdownGrace cfg)"

section \<open>Lemmas\<close>

text \<open>The client of a loaded engine has a positive request timeout, so every conversion has a deadline, never later than the caller's.\<close>

lemma client_deadline:
  assumes "client_New fs cfg = Inr c"
  shows "\<exists>t. WithDeadline c now deadline = Some t \<and> t \<le> now + ckRequestTimeout c \<and> (\<forall>d. deadline = Some d \<longrightarrow> t \<le> d)"
proof -
  have "0 < orDuration (ecRequestTimeout cfg) (120 * second)" by (simp add: orDuration_def second_def)
  moreover have "ckRequestTimeout c = orDuration (ecRequestTimeout cfg) (120 * second)"
    using assms by (auto simp: client_New_def Let_def split: sum.splits)
  ultimately show ?thesis by (auto simp: WithDeadline_def split: option.split)
qed

text \<open>Certificate checks are only switched off by the explicit knob, and TLS before 1.2 is never offered.\<close>

lemma client_tls_policy:
  assumes "client_buildTLS fs c = Inr tc"
  shows "tlMinVersion tc = ''1.2'' \<and> tlInsecureSkipVerify tc = tcInsecureSkipVerify c \<and> (tcCAFile c \<noteq> [] \<longrightarrow> tlRootCAs tc \<noteq> None)
    \<and> (tlCertificate tc = None \<longleftrightarrow> tcCertFile c = [] \<and> tcKeyFile c = [])"
  using assms by (cases "loadCAPool fs (tcCAFile c)") (auto simp: client_buildTLS_def Let_def split: sum.splits if_splits)

text \<open>The logging round tripper sends the body it was given, records one status, and its line depends on the credential only
  through its presence and length.\<close>

lemma src_eta [simp]: "\<lparr>srcData = srcData b, srcErr = srcErr b\<rparr> = b"
  by simp

lemma instrumented_body:
  "fst (instrumented_RoundTrip t silenced send meth path h body) = send body"
  "fst (snd (instrumented_RoundTrip t silenced send meth path h body)) = body"
  "snd (snd (snd (instrumented_RoundTrip t silenced send meth path h body))) = (itEngine t, case send body of Inl _ \<Rightarrow> 0 | Inr s \<Rightarrow> s)"
  by (auto simp: instrumented_RoundTrip_def Let_def split: option.split)

lemma instrumented_hides_key:
  assumes "header_Get h ''Content-Type'' = header_Get h' ''Content-Type''"
    and "length (TrimPrefix (header_Get h (itAuthHeader t)) ''Bearer '') = length (TrimPrefix (header_Get h' (itAuthHeader t)) ''Bearer '')"
    and "header_Get h (itAuthHeader t) = [] \<longleftrightarrow> header_Get h' (itAuthHeader t) = []"
  shows "fst (snd (snd (instrumented_RoundTrip t silenced send meth path h body))) = fst (snd (snd (instrumented_RoundTrip t silenced send meth path h' body)))"
  using assms by (auto simp: instrumented_RoundTrip_def Let_def split: option.split)

end
