(* ===== verification/Authutil.thy ===== *)
theory Authutil
  imports Config
begin

text \<open>
  \<^verbatim>\<open>internal/engine/authutil\<close>: how credentials are stamped on outbound requests.  The metrics seam is
  the list of recorded attempts; header stamping goes through the header store of
  \<^verbatim>\<open>Http_Header\<close>.
\<close>

datatype Outcome = OutcomeAttached | OutcomeMissingKey | OutcomeNoAuth

record authAttempt =
  atEngine :: string
  atScheme :: string
  atOutcome :: Outcome

definition attempt :: "string \<Rightarrow> string \<Rightarrow> Outcome \<Rightarrow> authAttempt" where
  "attempt eng scheme oc = \<lparr>atEngine = eng, atScheme = scheme, atOutcome = oc\<rparr>"

definition schemeValue :: "AuthScheme \<Rightarrow> string \<Rightarrow> string" where
  "schemeValue scheme key = (if scheme = AuthSchemeBearer then ''Bearer '' @ key else key)"

definition Apply :: "Header \<Rightarrow> string \<Rightarrow> EngineConfig \<Rightarrow> Outcome \<times> Header \<times> authAttempt" where
  "Apply h nm cfg =
     (let scheme = ecAuthScheme cfg in
      if ecAuthHeader cfg = [] \<and> ecAPIKey cfg = [] then (OutcomeNoAuth, h, attempt nm scheme OutcomeNoAuth)
      else if ecAPIKey cfg = [] then (OutcomeMissingKey, h, attempt nm scheme OutcomeMissingKey)
      else if ecAuthHeader cfg = [] then (OutcomeMissingKey, h, attempt nm scheme OutcomeMissingKey)
      else (OutcomeAttached, header_Set h (ecAuthHeader cfg) (schemeValue scheme (ecAPIKey cfg)),
            attempt nm scheme OutcomeAttached))"

definition FormatHeaderValue :: "EngineConfig \<Rightarrow> string" where
  "FormatHeaderValue cfg =
     (if ecAuthHeader cfg = [] \<or> ecAPIKey cfg = [] then []
      else if ecAuthScheme cfg = AuthSchemeBearer then ''Bearer '' @ ecAPIKey cfg
      else ecAPIKey cfg)"

definition applySpec :: "Header \<Rightarrow> string \<Rightarrow> AuthHeaderConfig \<Rightarrow> Outcome \<times> Header \<times> authAttempt" where
  "applySpec h nm spec =
     (let scheme = ahScheme spec in
      if ahHeader spec = [] \<and> ahAPIKey spec = [] then (OutcomeNoAuth, h, attempt nm scheme OutcomeNoAuth)
      else if ahAPIKey spec = [] \<or> ahHeader spec = [] then (OutcomeMissingKey, h, attempt nm scheme OutcomeMissingKey)
      else (OutcomeAttached, header_Set h (ahHeader spec) (schemeValue scheme (ahAPIKey spec)),
            attempt nm scheme OutcomeAttached))"

fun applySpecs :: "Header \<Rightarrow> string \<Rightarrow> AuthHeaderConfig list \<Rightarrow> Outcome list \<times> Header \<times> authAttempt list" where
  "applySpecs h nm [] = ([], h, [])"
| "applySpecs h nm (spec # specs) =
     (let (oc, h1, att) = applySpec h nm spec;
          (ocs, h2, ats) = applySpecs h1 nm specs
      in (oc # ocs, h2, att # ats))"

definition ApplyMulti :: "Header \<Rightarrow> string \<Rightarrow> EngineConfig \<Rightarrow> Outcome list \<times> Header \<times> authAttempt list" where
  "ApplyMulti h nm cfg =
     (let specs = EffectiveAuthSpecs cfg in
      if specs = [] then ([OutcomeNoAuth], h, [attempt nm [] OutcomeNoAuth])
      else applySpecs h nm specs)"

definition FormatHeaderValuesMulti :: "EngineConfig \<Rightarrow> (string, string) gomap" where
  "FormatHeaderValuesMulti cfg =
     fold (\<lambda>spec out. if ahHeader spec = [] \<or> ahAPIKey spec = [] then out
                      else map_put (ahHeader spec) (schemeValue (ahScheme spec) (ahAPIKey spec)) out)
       (EffectiveAuthSpecs cfg) []"

section \<open>Lemmas\<close>

text \<open>The stamps of a list of specs, in order.\<close>

definition stampsOf :: "AuthHeaderConfig list \<Rightarrow> (string \<times> string) list" where
  "stampsOf specs =
     map (\<lambda>sp. (ahHeader sp, schemeValue (ahScheme sp) (ahAPIKey sp)))
       (filter (\<lambda>sp. ahHeader sp \<noteq> [] \<and> ahAPIKey sp \<noteq> []) specs)"

lemma applySpecs_header: "fst (snd (applySpecs h nm specs)) = go_header.stamp_all (stampsOf specs) h"
  by (induction h nm specs rule: applySpecs.induct)
    (auto simp: applySpec_def stampsOf_def go_header.stamp_all_def Let_def split_beta)

lemma ApplyMulti_header: "fst (snd (ApplyMulti h nm cfg)) = go_header.stamp_all (stampsOf (EffectiveAuthSpecs cfg)) h"
  by (simp add: ApplyMulti_def Let_def applySpecs_header stampsOf_def go_header.stamp_all_def)

lemma map_put_fresh: "k \<notin> fst ` set m \<Longrightarrow> map_put k v m = m @ [(k, v)]"
  by (induction k v m rule: map_put.induct) auto

lemma fold_put_distinct:
  assumes "distinct (map fst kvs)" "fst ` set kvs \<inter> fst ` set m = {}"
  shows "fold (\<lambda>(k, v) out. map_put k v out) kvs m = m @ kvs"
  using assms
proof (induction kvs arbitrary: m)
  case (Cons e kvs)
  then show ?case by (cases e) (auto simp: map_put_fresh)
qed simp

lemma FormatHeaderValuesMulti_stamps:
  assumes "distinct (map ahHeader (EffectiveAuthSpecs cfg))"
  shows "FormatHeaderValuesMulti cfg = stampsOf (EffectiveAuthSpecs cfg)"
proof -
  let ?f = "\<lambda>spec out. if ahHeader spec = [] \<or> ahAPIKey spec = [] then out
                      else map_put (ahHeader spec) (schemeValue (ahScheme spec) (ahAPIKey spec)) out"
  have "fold ?f specs m = fold (\<lambda>(k, v) out. map_put k v out) (stampsOf specs) m" for specs m
    by (induction specs arbitrary: m) (auto simp: stampsOf_def)
  moreover have "distinct (map fst (stampsOf (EffectiveAuthSpecs cfg)))"
    using assms by (simp add: stampsOf_def comp_def distinct_map_filter)
  ultimately show ?thesis by (simp add: FormatHeaderValuesMulti_def fold_put_distinct)
qed

lemma stampsOf_distinct:
  assumes "distinct (map (CanonicalHeaderKey \<circ> ahHeader) specs)"
  shows "distinct (map (CanonicalHeaderKey \<circ> fst) (stampsOf specs))"
  using assms by (simp add: stampsOf_def comp_def distinct_map_filter)

lemma distinct_of_canonical:
  assumes "distinct (map (CanonicalHeaderKey \<circ> ahHeader) specs)"
  shows "distinct (map ahHeader specs)"
  using assms by (auto simp: distinct_map inj_on_def)

text \<open>Outcomes: one per spec, each recorded once with its engine and scheme.\<close>

lemma applySpecs_outcomes:
  "fst (applySpecs h nm specs) = map (\<lambda>sp. fst (applySpec [] nm sp)) specs
   \<and> map atOutcome (snd (snd (applySpecs h nm specs))) = fst (applySpecs h nm specs)"
  by (induction h nm specs rule: applySpecs.induct)
    (auto simp: applySpec_def attempt_def Let_def split_beta)

text \<open>
  Stamping is all or nothing per credential and fully accounted for: an engine gets one recorded
  outcome per configured credential; the outcome is \<^verbatim>\<open>attached\<close> exactly when both the header name and
  the key are there, and a header that no attached credential names keeps its values, so an empty
  key never puts a bare \<^verbatim>\<open>Bearer\<close> on the wire.
\<close>

theorem auth_stamping_accounted:
  "fst (ApplyMulti h nm cfg) =
     (if EffectiveAuthSpecs cfg = [] then [OutcomeNoAuth]
      else map (\<lambda>sp. if ahHeader sp \<noteq> [] \<and> ahAPIKey sp \<noteq> [] then OutcomeAttached
                     else if ahHeader sp = [] \<and> ahAPIKey sp = [] then OutcomeNoAuth else OutcomeMissingKey)
             (EffectiveAuthSpecs cfg))
   \<and> map atOutcome (snd (snd (ApplyMulti h nm cfg))) = fst (ApplyMulti h nm cfg)
   \<and> (header_Values (fst (snd (ApplyMulti h nm cfg))) k = header_Values h k
      \<or> (\<exists>sp \<in> set (EffectiveAuthSpecs cfg). ahAPIKey sp \<noteq> [] \<and> CanonicalHeaderKey (ahHeader sp) = CanonicalHeaderKey k
           \<and> header_Values (fst (snd (ApplyMulti h nm cfg))) k = [schemeValue (ahScheme sp) (ahAPIKey sp)]))"
proof (intro conjI)
  show "fst (ApplyMulti h nm cfg) =
     (if EffectiveAuthSpecs cfg = [] then [OutcomeNoAuth]
      else map (\<lambda>sp. if ahHeader sp \<noteq> [] \<and> ahAPIKey sp \<noteq> [] then OutcomeAttached
                     else if ahHeader sp = [] \<and> ahAPIKey sp = [] then OutcomeNoAuth else OutcomeMissingKey)
             (EffectiveAuthSpecs cfg))"
    by (simp add: ApplyMulti_def Let_def applySpecs_outcomes applySpec_def)
  show "map atOutcome (snd (snd (ApplyMulti h nm cfg))) = fst (ApplyMulti h nm cfg)"
    by (simp add: ApplyMulti_def Let_def applySpecs_outcomes attempt_def)
  let ?st = "map (\<lambda>(a, v). (CanonicalHeaderKey a, v)) (stampsOf (EffectiveAuthSpecs cfg))"
  show "header_Values (fst (snd (ApplyMulti h nm cfg))) k = header_Values h k
      \<or> (\<exists>sp \<in> set (EffectiveAuthSpecs cfg). ahAPIKey sp \<noteq> [] \<and> CanonicalHeaderKey (ahHeader sp) = CanonicalHeaderKey k
           \<and> header_Values (fst (snd (ApplyMulti h nm cfg))) k = [schemeValue (ahScheme sp) (ahAPIKey sp)])"
  proof (cases "map_of (rev ?st) (CanonicalHeaderKey k)")
    case None
    then show ?thesis by (simp add: ApplyMulti_header go_header.values_stamp_all)
  next
    case (Some v)
    then have "(CanonicalHeaderKey k, v) \<in> set ?st" by (auto dest: map_of_SomeD)
    with Some show ?thesis by (auto simp: ApplyMulti_header go_header.values_stamp_all stampsOf_def)
  qed
qed

text \<open>With one credential the two entry points agree.\<close>

lemma ApplyMulti_single:
  assumes "ecAuthHeaders cfg = []" "ecAuthHeader cfg \<noteq> []"
  shows "ApplyMulti h n cfg = (let (oc, h', att) = Apply h n cfg in ([oc], h', [att]))"
  using assms by (simp add: ApplyMulti_def EffectiveAuthSpecs_def Apply_def applySpec_def Let_def)

lemma FormatHeaderValue_Apply:
  "FormatHeaderValue cfg \<noteq> [] \<longleftrightarrow> fst (Apply h n cfg) = OutcomeAttached"
  by (auto simp: FormatHeaderValue_def Apply_def Let_def)

end
