(* ===== verification/Reverseproxy.thy ===== *)
theory Reverseproxy
  imports Authutil
begin

text \<open>
  \<^verbatim>\<open>transport/http/reverseproxy\<close>: the native passthrough mounts.  \<^verbatim>\<open>RejectTraversal\<close>, the path a request
  is rewritten to, and the headers the backend receives, including \<^verbatim>\<open>ProxyRequest.SetXForwarded\<close> of the
  standard library.  Go's \<^verbatim>\<open>path.Clean\<close> is given on the segments of a path, as its documentation
  states it.
\<close>

section \<open>Paths\<close>

fun splitSlash :: "string \<Rightarrow> string list" where
  "splitSlash [] = [[]]"
| "splitSlash (c # s) =
     (if c = CHR ''/'' then [] # splitSlash s
      else case splitSlash s of [] \<Rightarrow> [[c]] | seg # segs \<Rightarrow> (c # seg) # segs)"

fun joinSlash :: "string list \<Rightarrow> string" where
  "joinSlash [] = []"
| "joinSlash [s] = s"
| "joinSlash (s # t # ss) = s @ CHR ''/'' # joinSlash (t # ss)"

text \<open>One segment against the stack of kept segments, the last one first.\<close>

definition cleanStep :: "bool \<Rightarrow> string \<Rightarrow> string list \<Rightarrow> string list" where
  "cleanStep rooted seg stack =
     (if seg = [] \<or> seg = ''.'' then stack
      else if seg = ''..'' then
        (case stack of
           [] \<Rightarrow> (if rooted then [] else [''..''])
         | lst # rest \<Rightarrow> (if lst = ''..'' then ''..'' # stack else rest))
      else seg # stack)"

definition cleanSegs :: "bool \<Rightarrow> string list \<Rightarrow> string list" where
  "cleanSegs rooted segs = rev (fold (cleanStep rooted) segs [])"

definition path_Clean :: "string \<Rightarrow> string" where
  "path_Clean p =
     (if p = [] then ''.''
      else let rooted = HasPrefix p ''/''; out = cleanSegs rooted (splitSlash p)
           in if rooted then CHR ''/'' # joinSlash out
              else if out = [] then ''.'' else joinSlash out)"

text \<open>\<^verbatim>\<open>RejectTraversal\<close>: whether the request goes on to the proxy; otherwise it is answered with 400.\<close>

definition RejectTraversal :: "string \<Rightarrow> bool" where
  "RejectTraversal raw =
     (let cleaned = path_Clean raw in
      if cleaned \<noteq> raw \<or> Contains raw ''..'' then False else True)"

definition singleJoin :: "string \<Rightarrow> string \<Rightarrow> string" where
  "singleJoin a0 b0 =
     (let a = TrimRight a0 (CHR ''/'');
          b = (if HasPrefix b0 ''/'' then b0 else CHR ''/'' # b0)
      in path_Clean (a @ b))"

section \<open>Trust\<close>

fun parseCIDRs :: "string list \<Rightarrow> IPNet list option" where
  "parseCIDRs [] = Some []"
| "parseCIDRs (s0 # items) =
     (let s = TrimSpace s0 in
      if s = [] then parseCIDRs items
      else case ParseCIDR s of
             None \<Rightarrow> None
           | Some n \<Rightarrow> map_option ((#) n) (parseCIDRs items))"

text \<open>\<^verbatim>\<open>net.SplitHostPort\<close>: the host, or None for a malformed address.\<close>

definition SplitHostPort_host :: "string \<Rightarrow> string option" where
  "SplitHostPort_host hp =
     (case LastIndexByte hp (CHR '':'') of
        None \<Rightarrow> None
      | Some i \<Rightarrow>
          (if HasPrefix hp ''['' then
             (case IndexByte hp (CHR '']'') of
                None \<Rightarrow> None
              | Some e \<Rightarrow> (if Suc e \<noteq> i then None
                           else if CHR ''['' \<in> set (drop 1 hp) \<or> CHR '']'' \<in> set (drop (Suc e) hp) then None
                           else Some (take (e - 1) (drop 1 hp))))
           else if CHR '':'' \<in> set (take i hp) then None
           else if CHR ''['' \<in> set hp \<or> CHR '']'' \<in> set hp then None
           else Some (take i hp)))"

definition isTrusted :: "string \<Rightarrow> IPNet list \<Rightarrow> bool" where
  "isTrusted remoteAddr trusted =
     (if trusted = [] then False
      else let host = (case SplitHostPort_host remoteAddr of Some h \<Rightarrow> h | None \<Rightarrow> remoteAddr) in
           case ParseIP host of
             None \<Rightarrow> False
           | Some ip \<Rightarrow> list_ex (\<lambda>n. IPNet_Contains n ip) trusted)"

section \<open>Headers\<close>

definition hopByHop :: "string list" where
  "hopByHop = [''Connection'', ''Proxy-Connection'', ''Keep-Alive'', ''Proxy-Authenticate'', ''Proxy-Authorization'',
     ''Te'', ''Trailer'', ''Transfer-Encoding'', ''Upgrade'']"

definition sanitizeHeaders :: "Header \<Rightarrow> Header" where
  "sanitizeHeaders h = header_Del (fold (\<lambda>k h. header_Del h k) hopByHop h) ''Authorization''"

definition forwardedHeaders :: "string list" where
  "forwardedHeaders = [''X-Forwarded-For'', ''X-Forwarded-Host'', ''X-Forwarded-Proto'', ''X-Forwarded-Port'',
     ''X-Real-Ip'', ''Forwarded'']"

definition dropForwardedHeaders :: "Header \<Rightarrow> Header" where
  "dropForwardedHeaders h = fold (\<lambda>k h. header_Del h k) forwardedHeaders h"

text \<open>The loop over the auth stamps, in the order the map yields them.\<close>

definition stampAuth :: "(string, string) gomap \<Rightarrow> Header \<Rightarrow> Header" where
  "stampAuth stamps h =
     fold (\<lambda>(name, val) h. if name = [] \<or> val = [] then h else header_Set h name val) stamps h"

fun joinComma :: "string list \<Rightarrow> string" where
  "joinComma [] = []"
| "joinComma [s] = s"
| "joinComma (s # t # ss) = s @ '', '' @ joinComma (t # ss)"

record inRequest =
  inPath :: string
  inHost :: string
  inRemoteAddr :: string
  inTLS :: bool
  inHeader :: Header

definition SetXForwarded :: "inRequest \<Rightarrow> Header \<Rightarrow> Header" where
  "SetXForwarded r h =
     (let h1 = (case SplitHostPort_host (inRemoteAddr r) of
                  None \<Rightarrow> header_Del h ''X-Forwarded-For''
                | Some ip \<Rightarrow>
                    (let prior = header_Values h ''X-Forwarded-For'' in
                     header_Set h ''X-Forwarded-For'' (if prior = [] then ip else joinComma prior @ '', '' @ ip)))
      in header_Set (header_Set h1 ''X-Forwarded-Host'' (inHost r))
           ''X-Forwarded-Proto'' (if inTLS r then ''https'' else ''http''))"

record outRequest =
  outScheme :: string
  outHost :: string
  outPath :: string
  outHeader :: Header

definition Rewrite :: "URL \<Rightarrow> string \<Rightarrow> (string, string) gomap \<Rightarrow> IPNet list \<Rightarrow> inRequest \<Rightarrow> outRequest" where
  "Rewrite u prefix stamps trusted r =
     (let p0 = TrimPrefix (inPath r) prefix;
          p = (if HasPrefix p0 ''/'' then p0 else CHR ''/'' # p0);
          cloned = (if isTrusted (inRemoteAddr r) trusted then inHeader r else dropForwardedHeaders (inHeader r))
      in \<lparr>outScheme = urlScheme u, outHost = urlHost u, outPath = singleJoin (urlPath u) p,
          outHeader = SetXForwarded r (stampAuth stamps (sanitizeHeaders cloned))\<rparr>)"

text \<open>\<^verbatim>\<open>New\<close>: the proxy exists when the base URL and the trusted ranges parse.\<close>

definition New_proxy ::
  "(string \<Rightarrow> URL result) \<Rightarrow> string \<Rightarrow> string \<Rightarrow> (string, string) gomap \<Rightarrow> string list \<Rightarrow> (inRequest \<Rightarrow> outRequest) option" where
  "New_proxy parse baseURL prefix stamps trustedProxies =
     (case parse baseURL of
        Inl _ \<Rightarrow> None
      | Inr u \<Rightarrow> (case parseCIDRs trustedProxies of None \<Rightarrow> None | Some ns \<Rightarrow> Some (Rewrite u prefix stamps ns)))"

section \<open>Where a rewritten path can lead\<close>

lemma splitSlash_nonempty [simp]: "splitSlash s \<noteq> []"
  by (induction s) (auto split: list.split)

lemma splitSlash_slash [simp]: "splitSlash (CHR ''/'' # s) = [] # splitSlash s"
  by simp

lemma splitSlash_append: "splitSlash (a @ CHR ''/'' # b) = splitSlash a @ splitSlash b"
proof (induction a)
  case (Cons c a)
  show ?case
  proof (cases "c = CHR ''/''")
    case False
    obtain seg segs where "splitSlash a = seg # segs" by (cases "splitSlash a") auto
    then show ?thesis using Cons False by simp
  qed (use Cons in simp)
qed simp

lemma splitSlash_infix: "seg \<in> set (splitSlash s) \<Longrightarrow> \<exists>u v. s = u @ seg @ v"
proof (induction s arbitrary: seg)
  case (Cons c s)
  obtain x xs where x: "splitSlash s = x # xs" by (cases "splitSlash s") auto
  have pre: "\<exists>v. s = x @ v" using x
    by (induction s arbitrary: x xs) (auto split: if_splits list.splits)
  show ?case
  proof (cases "c = CHR ''/''")
    case True
    with Cons.prems have "seg = [] \<or> seg \<in> set (splitSlash s)" by simp
    then show ?thesis using Cons.IH by (metis append_Cons append_Nil)
  next
    case False
    with Cons.prems x have "seg = c # x \<or> seg \<in> set (splitSlash s)" by auto
    then show ?thesis using Cons.IH pre by (metis append_Cons append_Nil)
  qed
qed simp

definition kept :: "string \<Rightarrow> string list" where
  "kept s = filter (\<lambda>seg. seg \<noteq> [] \<and> seg \<noteq> ''.'') (splitSlash s)"

lemma kept_append: "kept (a @ CHR ''/'' # b) = kept a @ kept b"
  by (simp add: kept_def splitSlash_append)

lemma kept_slash [simp]: "kept (CHR ''/'' # b) = kept b"
  by (simp add: kept_def)

lemma kept_Nil [simp]: "kept [] = []"
  by (simp add: kept_def)

lemma kept_trailing: "kept (a @ replicate n (CHR ''/'')) = kept a"
proof (cases n)
  case (Suc m)
  have "kept (replicate m (CHR ''/'')) = []" by (induction m) simp_all
  then show ?thesis by (simp add: Suc kept_append)
qed simp

lemma kept_TrimRight: "kept (TrimRight a (CHR ''/'')) = kept a"
proof -
  obtain n where "a = TrimRight a (CHR ''/'') @ replicate n (CHR ''/'')" using TrimRight_iff by blast
  then show ?thesis using kept_trailing[of "TrimRight a (CHR ''/'')" n] by simp
qed

lemma cleanSegs_no_dotdot:
  assumes "''..'' \<notin> set segs"
  shows "cleanSegs rooted segs = filter (\<lambda>seg. seg \<noteq> [] \<and> seg \<noteq> ''.'') segs"
proof -
  have "fold (cleanStep rooted) segs st = rev (filter (\<lambda>seg. seg \<noteq> [] \<and> seg \<noteq> ''.'') segs) @ st" for st
    using assms by (induction segs arbitrary: st) (auto simp: cleanStep_def)
  then show ?thesis by (simp add: cleanSegs_def)
qed

lemma path_Clean_rooted:
  assumes "HasPrefix p ''/''" "''..'' \<notin> set (splitSlash p)"
  shows "path_Clean p = CHR ''/'' # joinSlash (kept p)"
proof -
  have "p \<noteq> []" using assms(1) by (auto simp: HasPrefix_def)
  with assms show ?thesis by (simp add: path_Clean_def cleanSegs_no_dotdot kept_def Let_def)
qed

lemma no_dotdot_segment: "\<not> Contains s ''..'' \<Longrightarrow> ''..'' \<notin> set (splitSlash s)"
  using splitSlash_infix[of "''..''" s] by (auto simp: Contains_iff)

lemma Contains_TrimPrefix: "Contains (TrimPrefix s p) sub \<Longrightarrow> Contains s sub"
proof (cases "HasPrefix s p")
  case True
  then obtain r where r: "s = p @ r" by (auto simp: HasPrefix_iff)
  assume "Contains (TrimPrefix s p) sub"
  then obtain u v where "r = u @ sub @ v" by (auto simp: r Contains_iff)
  then have "s = (p @ u) @ sub @ v" by (simp add: r)
  then show ?thesis unfolding Contains_iff by blast
qed (simp add: TrimPrefix_def)

lemma HasPrefix_slash: "HasPrefix s ''/'' \<longleftrightarrow> (\<exists>r. s = CHR ''/'' # r)"
  by (simp add: HasPrefix_iff)

lemma singleJoin_confined:
  assumes "urlPath u = [] \<or> HasPrefix (urlPath u) ''/''" "''..'' \<notin> set (splitSlash (urlPath u))"
    and "''..'' \<notin> set (splitSlash q)"
  shows "singleJoin (urlPath u) (CHR ''/'' # q) = CHR ''/'' # joinSlash (kept (urlPath u) @ kept q)"
proof -
  define a where "a = TrimRight (urlPath u) (CHR ''/'')"
  obtain n where n: "urlPath u = a @ replicate n (CHR ''/'')" using TrimRight_iff unfolding a_def by blast
  have "''..'' \<notin> set (splitSlash a)"
  proof (cases n)
    case (Suc m)
    then have "urlPath u = a @ CHR ''/'' # replicate m (CHR ''/'')" by (simp add: n)
    with assms(2) show ?thesis by (simp add: splitSlash_append)
  qed (use n assms(2) in simp)
  moreover have "HasPrefix (a @ CHR ''/'' # q) ''/''"
  proof (cases "a = []")
    case False
    with assms(1) n obtain r where "urlPath u = CHR ''/'' # r" by (auto simp: HasPrefix_slash)
    with False n show ?thesis by (cases a) (auto simp: HasPrefix_slash)
  qed (simp add: HasPrefix_slash)
  ultimately have "path_Clean (a @ CHR ''/'' # q) = CHR ''/'' # joinSlash (kept a @ kept q)"
    using assms(3) by (subst path_Clean_rooted) (auto simp: splitSlash_append kept_append)
  then show ?thesis
    by (simp add: singleJoin_def a_def[symmetric] HasPrefix_slash) (simp add: a_def kept_TrimRight)
qed

text \<open>
  C23: a passthrough request that \<^verbatim>\<open>RejectTraversal\<close> lets through stays inside its mount: the path sent to
  the backend consists of the segments of the engine's base URL followed by those of the request
  path after the mount prefix, and none of them is \<^verbatim>\<open>..\<close>.
\<close>

theorem passthrough_path_confined:
  assumes "RejectTraversal (inPath r)"
    and "urlPath u = [] \<or> HasPrefix (urlPath u) ''/''" "''..'' \<notin> set (splitSlash (urlPath u))"
  shows "outPath (Rewrite u prefix stamps trusted r) =
       CHR ''/'' # joinSlash (kept (urlPath u) @ kept (TrimPrefix (inPath r) prefix))
     \<and> ''..'' \<notin> set (kept (urlPath u) @ kept (TrimPrefix (inPath r) prefix))"
proof -
  define p0 where "p0 = TrimPrefix (inPath r) prefix"
  have nd: "''..'' \<notin> set (splitSlash p0)"
    using assms(1) Contains_TrimPrefix no_dotdot_segment unfolding p0_def RejectTraversal_def
    by (metis (full_types))
  obtain q where q: "(if HasPrefix p0 ''/'' then p0 else CHR ''/'' # p0) = CHR ''/'' # q" "kept q = kept p0"
    "''..'' \<notin> set (splitSlash q)"
  proof (cases "HasPrefix p0 ''/''")
    case True
    then obtain q where "p0 = CHR ''/'' # q" by (auto simp: HasPrefix_slash)
    with True nd show thesis by (intro that[of q]) simp_all
  next
    case False
    with nd show thesis by (intro that[of p0]) simp_all
  qed
  have "''..'' \<notin> set (kept (urlPath u))" "''..'' \<notin> set (kept p0)" using assms(3) nd by (simp_all add: kept_def)
  then show ?thesis
    using singleJoin_confined[OF assms(2,3) q(3)] q(2) by (simp add: Rewrite_def Let_def p0_def[symmetric] q(1))
qed

theorem passthrough_path_confined_witness:
  "outPath (Rewrite \<lparr>urlScheme = ''http'', urlUser = None, urlHost = ''tika:9998'', urlPath = ''/api/'', urlRawPath = [],
       urlRawQuery = [], urlFragment = []\<rparr> ''/tika'' [] []
      \<lparr>inPath = ''/tika/meta/x'', inHost = ''h'', inRemoteAddr = ''10.0.0.1:99'', inTLS = False, inHeader = []\<rparr>)
   = ''/api/meta/x''"
proof -
  let ?r = "\<lparr>inPath = ''/tika/meta/x'', inHost = ''h'', inRemoteAddr = ''10.0.0.1:99'', inTLS = False, inHeader = []\<rparr>"
  let ?u = "\<lparr>urlScheme = ''http'', urlUser = None, urlHost = ''tika:9998'', urlPath = ''/api/'', urlRawPath = [],
       urlRawQuery = [], urlFragment = []\<rparr>"
  have a: "RejectTraversal (inPath ?r)" by code_simp
  have b: "urlPath ?u = [] \<or> HasPrefix (urlPath ?u) ''/''" "''..'' \<notin> set (splitSlash (urlPath ?u))" by code_simp+
  have c: "CHR ''/'' # joinSlash (kept (urlPath ?u) @ kept (TrimPrefix (inPath ?r) ''/tika'')) = ''/api/meta/x''" by code_simp
  show ?thesis using passthrough_path_confined[OF a b, of "''/tika''" "[]" "[]"] c by simp
qed

section \<open>Which headers the backend sees\<close>

lemma header_name_lists_canonical:
  "list_all (\<lambda>k. CanonicalHeaderKey k = k) (''Authorization'' # hopByHop @ forwardedHeaders)"
  by code_simp

lemma canonical_image: "list_all (\<lambda>k. CanonicalHeaderKey k = k) ks \<Longrightarrow> CanonicalHeaderKey ` set ks = set ks"
  by (force simp: list_all_iff image_iff)

lemma sanitizeHeaders_values:
  "header_Values (sanitizeHeaders h) k =
     (if CanonicalHeaderKey k \<in> set (''Authorization'' # hopByHop) then [] else header_Values h k)"
proof -
  have "CanonicalHeaderKey ''Authorization'' = ''Authorization''" "CanonicalHeaderKey ` set hopByHop = set hopByHop"
    using header_name_lists_canonical canonical_image[of hopByHop] by simp_all
  then show ?thesis
    by (auto simp: sanitizeHeaders_def go_header.values_del go_header.values_dels)
qed

lemma dropForwardedHeaders_values:
  "header_Values (dropForwardedHeaders h) k =
     (if CanonicalHeaderKey k \<in> set forwardedHeaders then [] else header_Values h k)"
proof -
  have "CanonicalHeaderKey ` set forwardedHeaders = set forwardedHeaders"
    using header_name_lists_canonical canonical_image[of forwardedHeaders] by simp
  then show ?thesis by (simp add: dropForwardedHeaders_def go_header.values_dels)
qed

definition liveStamps :: "(string, string) gomap \<Rightarrow> (string \<times> string) list" where
  "liveStamps stamps = filter (\<lambda>(n, v). n \<noteq> [] \<and> v \<noteq> []) stamps"

definition stampedValue :: "(string, string) gomap \<Rightarrow> string \<Rightarrow> string option" where
  "stampedValue stamps k = map_of (rev (map (\<lambda>(a, v). (CanonicalHeaderKey a, v)) (liveStamps stamps))) (CanonicalHeaderKey k)"

lemma stampAuth_eq: "stampAuth stamps h = go_header.stamp_all (liveStamps stamps) h"
  unfolding stampAuth_def go_header.stamp_all_def liveStamps_def
  by (induction stamps arbitrary: h) auto

lemma stampAuth_values:
  "header_Values (stampAuth stamps h) k = (case stampedValue stamps k of Some v \<Rightarrow> [v] | None \<Rightarrow> header_Values h k)"
  unfolding stampAuth_eq go_header.values_stamp_all stampedValue_def by (rule refl)

lemma xfwd_canonical:
  "CanonicalHeaderKey ''X-Forwarded-For'' = ''X-Forwarded-For''"
  "CanonicalHeaderKey ''X-Forwarded-Host'' = ''X-Forwarded-Host''"
  "CanonicalHeaderKey ''X-Forwarded-Proto'' = ''X-Forwarded-Proto''"
  using header_name_lists_canonical by (simp_all add: forwardedHeaders_def)

lemma SetXForwarded_other:
  assumes "CanonicalHeaderKey k \<notin> {''X-Forwarded-For'', ''X-Forwarded-Host'', ''X-Forwarded-Proto''}"
  shows "header_Values (SetXForwarded r h) k = header_Values h k"
proof -
  have "''X-Forwarded-For'' \<noteq> CanonicalHeaderKey k" "''X-Forwarded-Host'' \<noteq> CanonicalHeaderKey k"
    "''X-Forwarded-Proto'' \<noteq> CanonicalHeaderKey k" using assms by auto
  then show ?thesis
    by (cases "SplitHostPort_host (inRemoteAddr r)")
      (simp_all add: SetXForwarded_def Let_def go_header.values_set go_header.values_del xfwd_canonical)
qed



text \<open>
  C25: a peer outside the trusted ranges cannot forge its origin: unless an auth stamp of the engine
  uses the name, the backend sees exactly the peer's own address as \<^verbatim>\<open>X-Forwarded-For\<close> (none when the
  address is malformed), the host it asked for and the scheme it used, whatever the request said.
\<close>

theorem untrusted_peer_cannot_spoof:
  assumes "\<not> isTrusted (inRemoteAddr r) trusted" "stampedValue stamps ''X-Forwarded-For'' = None"
  shows "header_Values (outHeader (Rewrite u prefix stamps trusted r)) ''X-Forwarded-For'' =
       (case SplitHostPort_host (inRemoteAddr r) of Some ip \<Rightarrow> [ip] | None \<Rightarrow> [])
     \<and> header_Values (outHeader (Rewrite u prefix stamps trusted r)) ''X-Forwarded-Host'' = [inHost r]
     \<and> header_Values (outHeader (Rewrite u prefix stamps trusted r)) ''X-Forwarded-Proto'' =
         [if inTLS r then ''https'' else ''http'']"
proof -
  define h where "h = stampAuth stamps (sanitizeHeaders (dropForwardedHeaders (inHeader r)))"
  have o: "outHeader (Rewrite u prefix stamps trusted r) = SetXForwarded r h"
    using assms(1) by (simp add: Rewrite_def Let_def h_def)
  have "''X-Forwarded-For'' \<in> set forwardedHeaders" by (simp add: forwardedHeaders_def)
  then have prior: "header_Values h ''X-Forwarded-For'' = []"
    by (simp add: h_def stampAuth_values assms(2) sanitizeHeaders_values dropForwardedHeaders_values xfwd_canonical)
  show ?thesis
    unfolding o SetXForwarded_def Let_def prior
    by (cases "SplitHostPort_host (inRemoteAddr r)")
      (simp_all add: go_header.values_set go_header.values_del xfwd_canonical)
qed

theorem untrusted_peer_cannot_spoof_witness:
  "header_Values (outHeader (Rewrite \<lparr>urlScheme = ''http'', urlUser = None, urlHost = ''tika:9998'', urlPath = [], urlRawPath = [],
       urlRawQuery = [], urlFragment = []\<rparr> ''/tika'' [] []
      \<lparr>inPath = ''/tika/x'', inHost = ''h'', inRemoteAddr = ''203.0.113.9:99'', inTLS = False,
       inHeader = [(''X-Forwarded-For'', [''127.0.0.1''])]\<rparr>)) ''X-Forwarded-For'' = [''203.0.113.9'']"
proof -
  let ?r = "\<lparr>inPath = ''/tika/x'', inHost = ''h'', inRemoteAddr = ''203.0.113.9:99'', inTLS = False,
       inHeader = [(''X-Forwarded-For'', [''127.0.0.1''])]\<rparr>"
  have a: "\<not> isTrusted (inRemoteAddr ?r) []" "stampedValue [] ''X-Forwarded-For'' = None" by code_simp+
  have b: "SplitHostPort_host (inRemoteAddr ?r) = Some ''203.0.113.9''" by code_simp
  show ?thesis using untrusted_peer_cannot_spoof[OF a] b by (simp add: option.case)
qed

section \<open>Passthrough and facade stamp alike\<close>

lemma liveStamps_of_specs: "liveStamps (stampsOf specs) = stampsOf specs"
  unfolding liveStamps_def stampsOf_def
  by (rule filter_True) (auto simp: schemeValue_def)

text \<open>
  For an enabled engine of a loaded configuration the passthrough mount and the facade adapters
  put the same credentials on the wire: in whatever order the stamp map is walked, the result has,
  header by header, the values that \<^verbatim>\<open>ApplyMulti\<close> sets.
\<close>

theorem passthrough_and_facade_stamp_alike:
  assumes "Load hp url getenv merged = Inr c" "(n, ec) \<in> set (cfEngines c)" "ecEnable ec"
    and "mset stamps = mset (FormatHeaderValuesMulti ec)"
  shows "header_Values (stampAuth stamps h) k = header_Values (fst (snd (ApplyMulti h n ec))) k"
proof -
  note d = loaded_headers_distinct[OF assms(1,2,3)]
  have f: "FormatHeaderValuesMulti ec = stampsOf (EffectiveAuthSpecs ec)"
    using d by (intro FormatHeaderValuesMulti_stamps distinct_of_canonical)
  have "mset (liveStamps stamps) = mset (liveStamps (FormatHeaderValuesMulti ec))"
    unfolding liveStamps_def using assms(4) by (metis mset_filter)
  then have m: "mset (stampsOf (EffectiveAuthSpecs ec)) = mset (liveStamps stamps)"
    by (simp add: f liveStamps_of_specs)
  show ?thesis
    unfolding stampAuth_eq ApplyMulti_header
    using go_header.stamp_all_order[OF stampsOf_distinct[OF d] m] by simp
qed

theorem passthrough_and_facade_stamp_alike_witness:
  "header_Values (stampAuth (rev (FormatHeaderValuesMulti (snd (cfEngines demo_config ! 1)))) []) ''x-tenant''
     = header_Values (fst (snd (ApplyMulti [] ''loader'' (snd (cfEngines demo_config ! 1))))) ''x-tenant''
   \<and> header_Values (fst (snd (ApplyMulti [] ''loader'' (snd (cfEngines demo_config ! 1))))) ''authorization'' = [''Bearer s3cret'']"
proof -
  have f: "fst (cfEngines demo_config ! 1) = ''loader''" and e: "ecEnable (snd (cfEngines demo_config ! 1))"
    and n: "length (cfEngines demo_config) = 2"
    and v: "header_Values (fst (snd (ApplyMulti [] ''loader'' (snd (cfEngines demo_config ! 1))))) ''authorization'' = [''Bearer s3cret'']"
    by code_simp+
  have "cfEngines demo_config ! 1 \<in> set (cfEngines demo_config)" using n by (intro nth_mem) simp
  then have m: "(''loader'', snd (cfEngines demo_config ! 1)) \<in> set (cfEngines demo_config)"
    unfolding f[symmetric] by simp
  have "mset (rev (FormatHeaderValuesMulti (snd (cfEngines demo_config ! 1)))) = mset (FormatHeaderValuesMulti (snd (cfEngines demo_config ! 1)))"
    by simp
  from passthrough_and_facade_stamp_alike[OF demo_loads m e this] v show ?thesis by blast
qed

end
