(* ===== verification/Ssrf.thy ===== *)
theory Ssrf
  imports Netip
begin

text \<open>
  The SSRF policy of \<^verbatim>\<open>handlers/ssrf.go\<close> and the pinning of sources in \<^verbatim>\<open>handlers/convert.go\<close>: which
  addresses are refused, the bounded DNS cache, \<^verbatim>\<open>Resolver.Resolve\<close>, and \<^verbatim>\<open>validateSources\<close>.  The URL
  parser and printer and the DNS are arguments; time is an integer in nanoseconds.
\<close>

section \<open>Which addresses are refused\<close>

datatype SSRFRejectReason =
  SSRFReasonInvalidURL | SSRFReasonNonHTTPScheme | SSRFReasonEmptyHost | SSRFReasonPortNotAllowed
| SSRFReasonResolutionFailed | SSRFReasonResolutionEmpty | SSRFReasonLoopback | SSRFReasonLinkLocal
| SSRFReasonMetadataIP | SSRFReasonMulticast | SSRFReasonPrivate | SSRFReasonBlockedCIDR | SSRFReasonUnspecified

definition blockedCIDR_literals :: "string list" where
  "blockedCIDR_literals =
     [''127.0.0.0/8'', ''10.0.0.0/8'', ''172.16.0.0/12'', ''192.168.0.0/16'', ''169.254.0.0/16'', ''0.0.0.0/8'',
      ''100.64.0.0/10'', ''192.0.0.0/24'', ''198.18.0.0/15'', ''fd00::/8'', ''fe80::/10'', ''::1/128'', ''fd00:ec2::/64'']"

text \<open>\<^verbatim>\<open>mustCIDRs\<close> panics on a bad literal, which is None here.\<close>

fun mustCIDRs :: "string list \<Rightarrow> IPNet list option" where
  "mustCIDRs [] = Some []"
| "mustCIDRs (s # items) =
     (case ParseCIDR s of
        None \<Rightarrow> None
      | Some n \<Rightarrow> map_option ((#) n) (mustCIDRs items))"

definition blockedCIDRs :: "IPNet list" where
  "blockedCIDRs = (case mustCIDRs blockedCIDR_literals of Some ns \<Rightarrow> ns | None \<Rightarrow> [])"

definition classifyIP :: "IP \<Rightarrow> SSRFRejectReason option" where
  "classifyIP ip =
     (if ip = [] then Some SSRFReasonUnspecified
      else if IsUnspecified ip then Some SSRFReasonUnspecified
      else if IsLoopback ip then Some SSRFReasonLoopback
      else if IsLinkLocalUnicast ip \<or> IsLinkLocalMulticast ip then
        (if Contains (ip_String ip) ''169.254.169.254'' then Some SSRFReasonMetadataIP
         else Some SSRFReasonLinkLocal)
      else if IsMulticast ip then Some SSRFReasonMulticast
      else if IsPrivate ip then Some SSRFReasonPrivate
      else if list_ex (\<lambda>n. IPNet_Contains n ip) blockedCIDRs then Some SSRFReasonBlockedCIDR
      else None)"

definition isBlockedIP :: "IP \<Rightarrow> bool" where
  "isBlockedIP ip = (classifyIP ip \<noteq> None)"

definition allowedPorts :: "string list" where
  "allowedPorts = [''80'', ''443'']"

definition isAllowedPort :: "string \<Rightarrow> bool" where
  "isAllowedPort p =
     (if p = [] then False
      else if \<not> atoi_ok p then False
      else list_ex (\<lambda>ap. ap = p) allowedPorts)"

section \<open>The DNS cache\<close>

record dnsCacheEntry =
  ceIPs :: "IP list"
  expiresAt :: int

record dnsCache =
  cacheTTL :: int
  cacheMax :: int
  entries :: "(string, dnsCacheEntry) gomap"

definition newDNSCache :: "int \<Rightarrow> int \<Rightarrow> dnsCache" where
  "newDNSCache ttl mx = \<lparr>cacheTTL = ttl, cacheMax = mx, entries = []\<rparr>"

definition cache_get :: "dnsCache \<Rightarrow> string \<Rightarrow> int \<Rightarrow> IP list option" where
  "cache_get c host now =
     (case map_of (entries c) host of
        None \<Rightarrow> None
      | Some e \<Rightarrow> (if expiresAt e < now then None else Some (ceIPs e)))"

text \<open>The eviction loop: the running candidate starts as the empty key.\<close>

definition olderOf :: "string \<times> dnsCacheEntry \<Rightarrow> string \<times> int \<Rightarrow> string \<times> int" where
  "olderOf e oldest =
     (if fst oldest = [] \<or> expiresAt (snd e) < snd oldest then (fst e, expiresAt (snd e)) else oldest)"

definition oldestEntry :: "(string, dnsCacheEntry) gomap \<Rightarrow> string \<times> int" where
  "oldestEntry es = fold olderOf es ([], 0)"

definition cache_put :: "dnsCache \<Rightarrow> string \<Rightarrow> IP list \<Rightarrow> int \<Rightarrow> dnsCache" where
  "cache_put c host ips now =
     (let es = (if int (length (entries c)) \<ge> cacheMax c then map_del (fst (oldestEntry (entries c))) (entries c)
                else entries c)
      in c\<lparr>entries := map_put host \<lparr>ceIPs = ips, expiresAt = now + cacheTTL c\<rparr> es\<rparr>)"

section \<open>The resolver\<close>

datatype ssrfEvent = Rejected SSRFRejectReason | DNSCacheHit | DNSCacheMiss | DNSCacheBypass

record SsrfResolver =
  dns_cache :: "dnsCache option"
  ssrf_events :: "ssrfEvent list"

definition NewResolver_ssrf :: "int \<Rightarrow> int \<Rightarrow> SsrfResolver" where
  "NewResolver_ssrf ttl maxEntries =
     \<lparr>dns_cache = (if ttl > 0 then Some (newDNSCache ttl (if maxEntries \<le> 0 then 256 else maxEntries)) else None),
      ssrf_events = []\<rparr>"

text \<open>What one call meets outside: the DNS answer, the three readings of the clock, and the result
  of a flight for the same host that another caller already has under way, if any.\<close>

record dnsCall =
  dnsAnswer :: "IP list result"
  clock1 :: int
  clock2 :: int
  clock3 :: int
  otherFlight :: "IP list result option"

definition record_event :: "ssrfEvent \<Rightarrow> SsrfResolver \<Rightarrow> SsrfResolver" where
  "record_event ev r = r\<lparr>ssrf_events := ssrf_events r @ [ev]\<rparr>"

definition directLookup :: "dnsCall \<Rightarrow> IP list result" where
  "directLookup dc = (case dnsAnswer dc of Inl e \<Rightarrow> Inl e | Inr ips \<Rightarrow> Inr ips)"

definition flight :: "SsrfResolver \<Rightarrow> dnsCache \<Rightarrow> string \<Rightarrow> dnsCall \<Rightarrow> IP list result \<times> SsrfResolver" where
  "flight r c host dc =
     (case cache_get c host (clock2 dc) of
        Some ips \<Rightarrow> (Inr ips, record_event DNSCacheHit r)
      | None \<Rightarrow>
          (case directLookup dc of
             Inl e \<Rightarrow> (Inl e, r)
           | Inr ips \<Rightarrow>
               (Inr ips, record_event DNSCacheMiss (r\<lparr>dns_cache := Some (cache_put c host ips (clock3 dc))\<rparr>))))"

definition lookup :: "SsrfResolver \<Rightarrow> string \<Rightarrow> dnsCall \<Rightarrow> IP list result \<times> SsrfResolver" where
  "lookup r host dc =
     (case dns_cache r of
        None \<Rightarrow> (directLookup dc, record_event DNSCacheBypass r)
      | Some c \<Rightarrow>
          (case cache_get c host (clock1 dc) of
             Some ips \<Rightarrow> (Inr ips, record_event DNSCacheHit r)
           | None \<Rightarrow> (case otherFlight dc of Some res \<Rightarrow> (res, r) | None \<Rightarrow> flight r c host dc)))"

record ResolvedURL =
  resURL :: URL
  resHost :: string
  resPort :: string
  resIP :: IP

definition reject :: "SSRFRejectReason \<Rightarrow> string \<Rightarrow> SsrfResolver \<Rightarrow> ResolvedURL result \<times> SsrfResolver" where
  "reject reason msg r = (Inl (plain_error msg), record_event (Rejected reason) r)"

text \<open>The loop over the addresses: the first refused one with its reason.\<close>

fun firstBlocked :: "IP list \<Rightarrow> (IP \<times> SSRFRejectReason) option" where
  "firstBlocked [] = None"
| "firstBlocked (a # addrs) = (case classifyIP a of Some reason \<Rightarrow> Some (a, reason) | None \<Rightarrow> firstBlocked addrs)"

definition ssrf_Resolve ::
  "(string \<Rightarrow> URL result) \<Rightarrow> SsrfResolver \<Rightarrow> string \<Rightarrow> dnsCall \<Rightarrow> ResolvedURL result \<times> SsrfResolver" where
  "ssrf_Resolve parse r raw dc =
     (case parse raw of
        Inl e \<Rightarrow> reject SSRFReasonInvalidURL (''invalid url: '' @ err_msg e) r
      | Inr u \<Rightarrow>
          (if urlScheme u \<noteq> ''http'' \<and> urlScheme u \<noteq> ''https''
           then reject SSRFReasonNonHTTPScheme (''scheme '' @ go_quote (urlScheme u) @ '' not allowed'') r
           else let host = Hostname u in
             if host = [] then reject SSRFReasonEmptyHost ''empty host'' r
             else let port = (if url_Port u = [] then (if urlScheme u = ''http'' then ''80'' else ''443'') else url_Port u) in
               if \<not> isAllowedPort port then reject SSRFReasonPortNotAllowed (''port '' @ port @ '' not allowed'') r
               else case lookup r host dc of
                 (Inl e, r1) \<Rightarrow> reject SSRFReasonResolutionFailed (''dns lookup: '' @ err_msg e) r1
               | (Inr addrs, r1) \<Rightarrow>
                   (if addrs = [] then reject SSRFReasonResolutionEmpty ''dns lookup: no addresses'' r1
                    else case firstBlocked addrs of
                      Some (a, reason) \<Rightarrow> reject reason (''address '' @ ip_String a @ '' in blocked range'') r1
                    | None \<Rightarrow> (Inr \<lparr>resURL = u, resHost = host, resPort = port, resIP = hd addrs\<rparr>, r1))))"

text \<open>\<^verbatim>\<open>ResolvedURL.Dialer\<close>: the one address it dials, whatever address the caller asks for.\<close>

definition JoinHostPort :: "string \<Rightarrow> string \<Rightarrow> string" where
  "JoinHostPort host port =
     (if CHR '':'' \<in> set host then ''['' @ host @ '']:'' @ port else host @ '':'' @ port)"

definition Dialer :: "ResolvedURL \<Rightarrow> string \<Rightarrow> string" where
  "Dialer ru addr = JoinHostPort (ip_String (resIP ru)) (resPort ru)"

section \<open>Pinning the sources\<close>

record HTTPSource =
  srcURL :: string
  srcHeaders :: "(string, string) gomap"

definition pinnedHost :: "ResolvedURL \<Rightarrow> string" where
  "pinnedHost ru =
     (let lit = ip_String (resIP ru);
          hostLit = (if To4 (resIP ru) = None then ''['' @ lit @ '']'' else lit)
      in if resPort ru \<noteq> [] then hostLit @ '':'' @ resPort ru else hostLit)"

definition pinSource :: "(URL \<Rightarrow> string) \<Rightarrow> ResolvedURL \<Rightarrow> HTTPSource \<Rightarrow> HTTPSource" where
  "pinSource render ru s =
     (if resIP ru = [] then s
      else s\<lparr>srcURL := render ((resURL ru)\<lparr>urlHost := pinnedHost ru\<rparr>),
             srcHeaders := (if map_of (srcHeaders s) ''Host'' = None
                            then map_put ''Host'' (resHost ru) (srcHeaders s) else srcHeaders s)\<rparr>)"

text \<open>The loop of \<^verbatim>\<open>validateSources\<close>: the k-th source meets the k-th DNS call.  On an error the
  request is dropped, so the sources changed so far are not returned.\<close>

fun validateSources ::
  "(string \<Rightarrow> URL result) \<Rightarrow> (URL \<Rightarrow> string) \<Rightarrow> (nat \<Rightarrow> dnsCall) \<Rightarrow> SsrfResolver \<Rightarrow> HTTPSource list \<Rightarrow>
   HTTPSource list result \<times> SsrfResolver" where
  "validateSources parse render dcs r [] = (Inr [], r)"
| "validateSources parse render dcs r (s # srcs) =
     (case ssrf_Resolve parse r (srcURL s) (dcs 0) of
        (Inl e, r1) \<Rightarrow> (Inl (wrap_error (''source '' @ go_quote (srcURL s) @ '' rejected: '') e), r1)
      | (Inr ru, r1) \<Rightarrow>
          (case validateSources parse render (\<lambda>k. dcs (Suc k)) r1 srcs of
             (Inl e, r2) \<Rightarrow> (Inl e, r2)
           | (Inr rest, r2) \<Rightarrow> (Inr (pinSource render ru s # rest), r2)))"


section \<open>Lemmas on addresses\<close>

lemma blockedCIDRs_eq:
  "blockedCIDRs =
     [\<lparr>netIP = [127, 0, 0, 0], netMask = [255, 0, 0, 0]\<rparr>, \<lparr>netIP = [10, 0, 0, 0], netMask = [255, 0, 0, 0]\<rparr>,
      \<lparr>netIP = [172, 16, 0, 0], netMask = [255, 240, 0, 0]\<rparr>, \<lparr>netIP = [192, 168, 0, 0], netMask = [255, 255, 0, 0]\<rparr>,
      \<lparr>netIP = [169, 254, 0, 0], netMask = [255, 255, 0, 0]\<rparr>, \<lparr>netIP = [0, 0, 0, 0], netMask = [255, 0, 0, 0]\<rparr>,
      \<lparr>netIP = [100, 64, 0, 0], netMask = [255, 192, 0, 0]\<rparr>, \<lparr>netIP = [192, 0, 0, 0], netMask = [255, 255, 255, 0]\<rparr>,
      \<lparr>netIP = [198, 18, 0, 0], netMask = [255, 254, 0, 0]\<rparr>,
      \<lparr>netIP = 253 # replicate 15 0, netMask = 255 # replicate 15 0\<rparr>,
      \<lparr>netIP = [254, 128] @ replicate 14 0, netMask = [255, 192] @ replicate 14 0\<rparr>,
      \<lparr>netIP = replicate 15 0 @ [1], netMask = replicate 16 255\<rparr>,
      \<lparr>netIP = [253, 0, 14, 194] @ replicate 12 0, netMask = replicate 8 255 @ replicate 8 0\<rparr>]"
  by code_simp

lemma Contains_v4_net:
  assumes "length n = 4" "length m = 4"
  shows "IPNet_Contains \<lparr>netIP = n, netMask = m\<rparr> [a, b, c, d] \<longleftrightarrow>
     n ! 0 AND m ! 0 = a AND m ! 0 \<and> n ! 1 AND m ! 1 = b AND m ! 1
     \<and> n ! 2 AND m ! 2 = c AND m ! 2 \<and> n ! 3 AND m ! 3 = d AND m ! 3"
  using assms by (simp add: IPNet_Contains_def networkNumberAndMask_def To4_def upt_rec numeral_nat)

lemma Contains_v6_net:
  assumes "length n = 16" "length m = 16" "To4 n = None"
  shows "\<not> IPNet_Contains \<lparr>netIP = n, netMask = m\<rparr> [a, b, c, d]"
  using assms by (simp add: IPNet_Contains_def networkNumberAndMask_def)

lemma To4_v6_nets [simp]:
  "To4 (253 # replicate 15 0) = None" "To4 (254 # 128 # replicate 14 0) = None"
  "To4 (replicate 15 0 @ [1]) = None" "To4 (253 # 0 # 14 # 194 # replicate 12 0) = None"
  by code_simp+

definition v4_refused :: "byte \<Rightarrow> byte \<Rightarrow> byte \<Rightarrow> bool" where
  "v4_refused a b c \<longleftrightarrow>
     a = 0 \<or> a = 10 \<or> a = 127 \<or> (a = 169 \<and> b = 254) \<or> (a = 172 \<and> 16 \<le> b \<and> b \<le> 31)
     \<or> (a = 192 \<and> b = 168) \<or> (a = 192 \<and> b = 0 \<and> c = 0) \<or> (a = 198 \<and> (b = 18 \<or> b = 19))
     \<or> (a = 100 \<and> 64 \<le> b \<and> b \<le> 127) \<or> (224 \<le> a \<and> a \<le> 239)"

lemma blocked_v4:
  "list_ex (\<lambda>n. IPNet_Contains n [a, b, c, d]) blockedCIDRs \<longleftrightarrow>
     a = 127 \<or> a = 10 \<or> (a = 172 \<and> 16 \<le> b \<and> b \<le> 31) \<or> (a = 192 \<and> b = 168) \<or> (a = 169 \<and> b = 254) \<or> a = 0
     \<or> (a = 100 \<and> 64 \<le> b \<and> b \<le> 127) \<or> (a = 192 \<and> b = 0 \<and> c = 0) \<or> (a = 198 \<and> (b = 18 \<or> b = 19))"
  unfolding blockedCIDRs_eq by (simp add: Contains_v4_net Contains_v6_net byte_masks)

lemma classify_None_iff:
  "classifyIP ip = None \<longleftrightarrow>
     ip \<noteq> [] \<and> \<not> IsUnspecified ip \<and> \<not> IsLoopback ip \<and> \<not> IsLinkLocalUnicast ip \<and> \<not> IsLinkLocalMulticast ip
     \<and> \<not> IsMulticast ip \<and> \<not> IsPrivate ip \<and> \<not> list_ex (\<lambda>n. IPNet_Contains n ip) blockedCIDRs"
  by (simp add: classifyIP_def)

lemma prefix_not_zeros [simp]: "replicate 10 (0 :: byte) @ [255, 255] \<noteq> replicate 12 0"
    "replicate 12 (0 :: byte) \<noteq> replicate 10 0 @ [255, 255]"
  by code_simp+

lemma v4_predicates:
  "IsUnspecified [a, b, c, d] \<longleftrightarrow> a = 0 \<and> b = 0 \<and> c = 0 \<and> d = 0"
  "IsLoopback [a, b, c, d] \<longleftrightarrow> a = 127"
  "IsLinkLocalUnicast [a, b, c, d] \<longleftrightarrow> a = 169 \<and> b = 254"
  "IsLinkLocalMulticast [a, b, c, d] \<longleftrightarrow> a = 224 \<and> b = 0 \<and> c = 0"
  "IsMulticast [a, b, c, d] \<longleftrightarrow> 224 \<le> a \<and> a \<le> 239"
  "IsPrivate [a, b, c, d] \<longleftrightarrow> a = 10 \<or> (a = 172 \<and> 16 \<le> b \<and> b \<le> 31) \<or> (a = 192 \<and> b = 168)"
  by (simp_all add: IsUnspecified_def IsLoopback_def IsLinkLocalUnicast_def IsLinkLocalMulticast_def
      IsMulticast_def IsPrivate_def byte_masks ip_Equal_def IPv4zero_def IPv6unspecified_def v4InV6Prefix_def)

lemma classify_v4: "classifyIP [a, b, c, d] = None \<longleftrightarrow> \<not> v4_refused a b c"
proof -
  have m: "a = 224 \<Longrightarrow> 224 \<le> a \<and> a \<le> 239" by simp
  show ?thesis
    unfolding classify_None_iff v4_predicates blocked_v4 v4_refused_def using m by blast
qed

text \<open>An IPv4 address is judged alike in its short and its IPv4-mapped form.\<close>

lemma unspecified_mapped:
  assumes "length a4 = 4"
  shows "IsUnspecified (v4InV6Prefix @ a4) \<longleftrightarrow> IsUnspecified a4"
proof -
  have "v4InV6Prefix @ a4 \<noteq> IPv6unspecified"
  proof
    assume "v4InV6Prefix @ a4 = IPv6unspecified"
    then have "take 12 (v4InV6Prefix @ a4) = take 12 IPv6unspecified" by simp
    then show False by (simp add: v4InV6Prefix_def IPv6unspecified_def)
  qed
  then show ?thesis using assms
    by (auto simp: IsUnspecified_def ip_Equal_def IPv4zero_def IPv6unspecified_def v4InV6Prefix_def)
qed

lemma classify_mapped:
  assumes "length a4 = 4"
  shows "classifyIP (v4InV6Prefix @ a4) = classifyIP a4"
proof -
  have "v4InV6Prefix @ a4 \<noteq> []" "a4 \<noteq> []" using assms by auto
  moreover have "IPNet_Contains n (v4InV6Prefix @ a4) = IPNet_Contains n a4" for n
    unfolding IPNet_Contains_def To4_mapped[OF assms] To4_four[OF assms] by (simp only: option.case)
  ultimately show ?thesis using assms
    by (simp add: classifyIP_def unspecified_mapped IsLoopback_def IsLinkLocalUnicast_def
        IsLinkLocalMulticast_def IsMulticast_def IsPrivate_def ip_String_def)
qed

text \<open>
  C10: the policy on IPv4, exactly: an address passes, in its four-byte form as in its IPv4-mapped
  form \<^verbatim>\<open>::ffff:a.b.c.d\<close>, if and only if it lies in none of \<^verbatim>\<open>0/8\<close>, \<^verbatim>\<open>10/8\<close>, \<^verbatim>\<open>127/8\<close>, \<^verbatim>\<open>100.64/10\<close>,
  \<^verbatim>\<open>169.254/16\<close>, \<^verbatim>\<open>172.16/12\<close>, \<^verbatim>\<open>192.0.0/24\<close>, \<^verbatim>\<open>192.168/16\<close>, \<^verbatim>\<open>198.18/15\<close> and \<^verbatim>\<open>224/4\<close>.
\<close>

theorem ssrf_ipv4_policy:
  "(classifyIP [a, b, c, d] = None \<longleftrightarrow> \<not> v4_refused a b c)
   \<and> (classifyIP (v4InV6Prefix @ [a, b, c, d]) = None \<longleftrightarrow> \<not> v4_refused a b c)"
  by (simp add: classify_mapped classify_v4)

lemma metadata_ip_reason: "classifyIP [169, 254, 169, 254] = Some SSRFReasonMetadataIP"
  by code_simp

definition v6_refused :: "IP \<Rightarrow> bool" where
  "v6_refused ip \<longleftrightarrow> ip = IPv6unspecified \<or> ip = IPv6loopback \<or> ip ! 0 = 252 \<or> ip ! 0 = 253 \<or> ip ! 0 = 255
     \<or> (ip ! 0 = 254 \<and> 128 \<le> ip ! 1 \<and> ip ! 1 \<le> 191)"

lemma Contains_same:
  assumes "To4 n = None" "length n = 16" "length m = 16" "To4 ip = None" "length ip = 16"
    and "IPNet_Contains \<lparr>netIP = n, netMask = m\<rparr> ip" "i < 16"
  shows "n ! i AND m ! i = ip ! i AND m ! i"
  using assms by (auto simp: IPNet_Contains_def networkNumberAndMask_def list_all_iff)

lemma v6_not_in_v4_net:
  assumes "length n = 4" "length m = 4" "To4 ip = None" "length ip = 16"
  shows "\<not> IPNet_Contains \<lparr>netIP = n, netMask = m\<rparr> ip"
  using assms by (simp add: IPNet_Contains_def networkNumberAndMask_def)

lemma blocked_v6:
  assumes "To4 ip = None" "length ip = 16" "list_ex (\<lambda>n. IPNet_Contains n ip) blockedCIDRs"
  shows "v6_refused ip"
proof -
  note c = Contains_same[OF _ _ _ assms(1,2)]
  consider "IPNet_Contains \<lparr>netIP = 253 # replicate 15 0, netMask = 255 # replicate 15 0\<rparr> ip"
    | "IPNet_Contains \<lparr>netIP = 254 # 128 # replicate 14 0, netMask = 255 # 192 # replicate 14 0\<rparr> ip"
    | "IPNet_Contains \<lparr>netIP = replicate 15 0 @ [1], netMask = replicate 16 255\<rparr> ip"
    | "IPNet_Contains \<lparr>netIP = 253 # 0 # 14 # 194 # replicate 12 0, netMask = replicate 8 255 @ replicate 8 0\<rparr> ip"
    using assms(3) unfolding blockedCIDRs_eq by (auto simp: v6_not_in_v4_net[OF _ _ assms(1,2)])
  then show ?thesis
  proof cases
    case 1
    from c[OF _ _ _ this, of 0] show ?thesis by (simp add: v6_refused_def)
  next
    case 2
    from c[OF _ _ _ this, of 0] c[OF _ _ _ this, of 1] show ?thesis
      by (simp add: v6_refused_def byte_masks eq_commute[of "128 :: byte"])
  next
    case 3
    have "ip = IPv6loopback"
    proof (rule nth_equalityI)
      show "length ip = length IPv6loopback" using assms(2) by (simp add: IPv6loopback_def)
      fix i assume "i < length ip"
      then show "ip ! i = IPv6loopback ! i" using c[OF _ _ _ 3, of i] assms(2) by (simp add: IPv6loopback_def)
    qed
    then show ?thesis by (simp add: v6_refused_def)
  next
    case 4
    from c[OF _ _ _ this, of 0] show ?thesis by (simp add: v6_refused_def nth_append)
  qed
qed

text \<open>
  C11: the policy on IPv6, exactly: a sixteen-byte address that is not IPv4-mapped passes if and
  only if it is none of \<^verbatim>\<open>::\<close>, \<^verbatim>\<open>::1\<close>, \<^verbatim>\<open>fc00::/7\<close>, \<^verbatim>\<open>fe80::/10\<close> and \<^verbatim>\<open>ff00::/8\<close>.
\<close>

theorem ssrf_ipv6_policy:
  assumes "length ip = 16" "To4 ip = None"
  shows "classifyIP ip = None \<longleftrightarrow> \<not> v6_refused ip"
proof -
  have "IPv4zero \<noteq> ip" using assms(2) by (auto simp: IPv4zero_def)
  then have u: "IsUnspecified ip \<longleftrightarrow> ip = IPv6unspecified"
    using assms by (auto simp: IsUnspecified_def ip_Equal_def IPv4zero_def IPv6unspecified_def v4InV6Prefix_def)
  have l: "IsLoopback ip \<longleftrightarrow> ip = IPv6loopback"
    using assms by (simp add: IsLoopback_def ip_Equal_def IPv6loopback_def)
  have rest: "IsLinkLocalUnicast ip \<longleftrightarrow> ip ! 0 = 254 \<and> 128 \<le> ip ! 1 \<and> ip ! 1 \<le> 191"
    "IsMulticast ip \<longleftrightarrow> ip ! 0 = 255" "IsPrivate ip \<longleftrightarrow> ip ! 0 = 252 \<or> ip ! 0 = 253"
    "IsLinkLocalMulticast ip \<Longrightarrow> IsMulticast ip"
    using assms by (simp_all add: IsLinkLocalUnicast_def IsMulticast_def IsPrivate_def IsLinkLocalMulticast_def byte_masks)
  have "ip \<noteq> []" using assms by auto
  then show ?thesis
    unfolding classify_None_iff u l using rest blocked_v6[OF assms(2,1)] unfolding v6_refused_def by blast
qed

theorem ssrf_ipv6_policy_witness:
  "classifyIP (32 # 1 # replicate 14 0) = None \<longleftrightarrow> \<not> v6_refused (32 # 1 # replicate 14 0)"
proof (rule ssrf_ipv6_policy)
  show "To4 (32 # 1 # replicate 14 0) = None" by code_simp
qed simp


section \<open>The cache is bounded and fresh\<close>

lemma fold_olderOf_key: "fst (fold olderOf es o0) \<in> insert (fst o0) (fst ` set es)"
proof (induction es arbitrary: o0)
  case (Cons e es)
  have "fst (olderOf e o0) \<in> {fst o0, fst e}" by (simp add: olderOf_def)
  with Cons.IH[of "olderOf e o0"] show ?case by auto
qed simp

lemma oldestEntry_Cons: "oldestEntry (e # es) = fold olderOf es (fst e, expiresAt (snd e))"
  by (simp add: oldestEntry_def olderOf_def)

lemma oldestEntry_mem:
  assumes "es \<noteq> []"
  shows "fst (oldestEntry es) \<in> fst ` set es"
proof (cases es)
  case (Cons e es')
  with fold_olderOf_key[of es' "(fst e, expiresAt (snd e))"] show ?thesis by (simp add: oldestEntry_Cons)
qed (use assms in simp)

text \<open>The entry the loop evicts expires first, when no host is empty.\<close>

lemma fold_olderOf_least:
  assumes "k \<noteq> []" "[] \<notin> fst ` set es"
  shows "\<exists>v0. (fst (fold olderOf es (k, expiresAt v)), v0) \<in> set ((k, v) # es)
      \<and> (\<forall>e \<in> set ((k, v) # es). expiresAt v0 \<le> expiresAt (snd e))"
  using assms
proof (induction es arbitrary: k v)
  case (Cons e es)
  obtain k1 v1 where e: "e = (k1, v1)" by fastforce
  define k' v' where "k' = (if expiresAt v1 < expiresAt v then k1 else k)"
    and "v' = (if expiresAt v1 < expiresAt v then v1 else v)"
  have step: "olderOf (k1, v1) (k, expiresAt v) = (k', expiresAt v')"
    using Cons.prems by (simp add: olderOf_def e k'_def v'_def)
  have "k' \<noteq> []" "[] \<notin> fst ` set es" using Cons.prems by (auto simp: e k'_def)
  then obtain v0 where v0: "(fst (fold olderOf es (k', expiresAt v')), v0) \<in> set ((k', v') # es)"
      "\<forall>e \<in> set ((k', v') # es). expiresAt v0 \<le> expiresAt (snd e)"
    using Cons.IH by blast
  have "(k', v') \<in> {(k, v), e}" "expiresAt v' \<le> expiresAt v" "expiresAt v' \<le> expiresAt v1"
    by (auto simp: k'_def v'_def e)
  then show ?case using v0 by (intro exI[of _ v0]) (auto simp: step e)
qed simp

lemma oldestEntry_least:
  assumes "es \<noteq> []" "[] \<notin> fst ` set es"
  shows "\<exists>v. (fst (oldestEntry es), v) \<in> set es \<and> (\<forall>e \<in> set es. expiresAt v \<le> expiresAt (snd e))"
proof -
  obtain k v es' where es: "es = (k, v) # es'" using assms(1) by (cases es) auto
  from fold_olderOf_least[of k es' v] assms(2) show ?thesis by (auto simp: es oldestEntry_Cons)
qed

definition cache_ok :: "dnsCache \<Rightarrow> bool" where
  "cache_ok c \<longleftrightarrow> map_ok (entries c) \<and> 0 < cacheMax c \<and> int (length (entries c)) \<le> cacheMax c"

lemma cache_put_ok [intro]:
  assumes "cache_ok c"
  shows "cache_ok (cache_put c host ips now)"
proof (cases "int (length (entries c)) \<ge> cacheMax c")
  case True
  then have ne: "entries c \<noteq> []" using assms by (auto simp: cache_ok_def)
  let ?es = "map_del (fst (oldestEntry (entries c))) (entries c)"
  have "length ?es = length (entries c) - 1" "map_ok ?es"
    using assms length_del[OF _ oldestEntry_mem[OF ne]] by (auto simp: cache_ok_def)
  then show ?thesis using True assms ne
    by (auto simp: cache_put_def cache_ok_def length_put)
next
  case False
  then show ?thesis using assms by (auto simp: cache_put_def cache_ok_def length_put)
qed

text \<open>Every run of the cache: \<^verbatim>\<open>get\<close> leaves it alone, so the steps are the \<^verbatim>\<open>put\<close>s of whichever callers
  hold the lock in turn, at whatever times they read.  The history records them.\<close>

inductive dns_reach :: "int \<Rightarrow> int \<Rightarrow> (string \<times> IP list \<times> int) list \<Rightarrow> dnsCache \<Rightarrow> bool" for ttl mx where
  fresh: "dns_reach ttl mx [] (newDNSCache ttl mx)"
| put: "dns_reach ttl mx h c \<Longrightarrow> dns_reach ttl mx ((host, ips, now) # h) (cache_put c host ips now)"

inductive_cases dns_reach_NilE: "dns_reach ttl mx [] c"

lemma map_of_del_Some: "map_of (map_del k m) a = Some v \<Longrightarrow> map_of m a = Some v"
  by (simp split: if_splits)

lemma cache_put_entry:
  assumes "map_of (entries (cache_put c host ips now)) k = Some e"
  shows "(k = host \<and> e = \<lparr>ceIPs = ips, expiresAt = now + cacheTTL c\<rparr>) \<or> map_of (entries c) k = Some e"
  using assms by (auto simp: cache_put_def Let_def split: if_splits)

lemma dns_reach_inv:
  assumes "dns_reach ttl mx h c" "0 < mx"
  shows "cache_ok c \<and> cacheTTL c = ttl \<and> cacheMax c = mx \<and>
     (\<forall>k e. map_of (entries c) k = Some e \<longrightarrow> (\<exists>t. (k, ceIPs e, t) \<in> set h \<and> expiresAt e = t + ttl))"
  using assms
proof (induction rule: dns_reach.induct)
  case fresh
  then show ?case by (simp add: newDNSCache_def cache_ok_def)
next
  case (put h c host ips now)
  then have ih: "cache_ok c" "cacheTTL c = ttl" "cacheMax c = mx"
     "\<And>k e. map_of (entries c) k = Some e \<Longrightarrow> \<exists>t. (k, ceIPs e, t) \<in> set h \<and> expiresAt e = t + ttl" by blast+
  have "\<exists>t. (k, ceIPs e, t) \<in> set ((host, ips, now) # h) \<and> expiresAt e = t + ttl"
    if "map_of (entries (cache_put c host ips now)) k = Some e" for k e
    using cache_put_entry[OF that] ih(2,4) by fastforce
  moreover have "cacheTTL (cache_put c host ips now) = ttl" "cacheMax (cache_put c host ips now) = mx"
    using ih by (simp_all add: cache_put_def Let_def)
  ultimately show ?case using cache_put_ok[OF ih(1)] by blast
qed

text \<open>
  C22: whatever callers do, the DNS cache holds at most its maximum number of hosts, and a hit is
  always an answer the DNS gave for that very host no longer than the time to live ago.
\<close>

theorem dns_cache_bounded_and_fresh:
  assumes "dns_reach ttl mx history c" "0 < mx"
  shows "int (length (entries c)) \<le> mx \<and>
    (\<forall>host now ips. cache_get c host now = Some ips \<longrightarrow> (\<exists>t. (host, ips, t) \<in> set history \<and> now \<le> t + ttl))"
proof (intro conjI allI impI)
  note inv = dns_reach_inv[OF assms]
  show "int (length (entries c)) \<le> mx" using inv by (simp add: cache_ok_def)
  fix host now ips
  assume "cache_get c host now = Some ips"
  then obtain e where e: "map_of (entries c) host = Some e" "ips = ceIPs e" "now \<le> expiresAt e"
    by (auto simp: cache_get_def split: option.splits if_splits)
  from inv e(1) obtain t where "(host, ceIPs e, t) \<in> set history" "expiresAt e = t + ttl" by blast
  with e show "\<exists>t. (host, ips, t) \<in> set history \<and> now \<le> t + ttl" by auto
qed

theorem dns_cache_bounded_and_fresh_witness:
  "int (length (entries (cache_put (cache_put (newDNSCache 60 1) ''a'' [[1, 1, 1, 1]] 0) ''b'' [[8, 8, 8, 8]] 5))) \<le> 1
   \<and> cache_get (cache_put (cache_put (newDNSCache 60 1) ''a'' [[1, 1, 1, 1]] 0) ''b'' [[8, 8, 8, 8]] 5) ''b'' 65 = Some [[8, 8, 8, 8]]
   \<and> (\<exists>t. (''b'', [[8, 8, 8, 8]], t) \<in> set [(''b'', [[8, 8, 8, 8 :: byte]], 5), (''a'', [[1, 1, 1, 1]], 0)] \<and> (65 :: int) \<le> t + 60)"
proof -
  have r: "dns_reach 60 1 [(''b'', [[8, 8, 8, 8]], 5), (''a'', [[1, 1, 1, 1]], 0)]
      (cache_put (cache_put (newDNSCache 60 1) ''a'' [[1, 1, 1, 1]] 0) ''b'' [[8, 8, 8, 8]] 5)"
    by (intro dns_reach.put dns_reach.fresh)
  have g: "cache_get (cache_put (cache_put (newDNSCache 60 1) ''a'' [[1, 1, 1, 1]] 0) ''b'' [[8, 8, 8, 8]] 5) ''b'' 65
      = Some [[8, 8, 8, 8]]" by code_simp
  have b: "0 < (1 :: int)" by simp
  from dns_cache_bounded_and_fresh[OF r b] g show ?thesis by (intro conjI) blast+
qed

section \<open>What passes the policy\<close>

lemma firstBlocked_None: "firstBlocked addrs = None \<longleftrightarrow> (\<forall>a \<in> set addrs. classifyIP a = None)"
  by (induction addrs) (auto split: option.split)

lemma isAllowedPort_iff: "isAllowedPort p \<longleftrightarrow> p = ''80'' \<or> p = ''443''"
proof -
  have "atoi_ok ''80''" "atoi_ok ''443''" by code_simp+
  then show ?thesis by (auto simp: isAllowedPort_def allowedPorts_def)
qed

definition effectivePort :: "URL \<Rightarrow> string" where
  "effectivePort u = (if url_Port u = [] then (if urlScheme u = ''http'' then ''80'' else ''443'') else url_Port u)"

definition schemeOK :: "URL \<Rightarrow> bool" where
  "schemeOK u \<longleftrightarrow> urlScheme u = ''http'' \<or> urlScheme u = ''https''"

text \<open>\<^verbatim>\<open>Resolve\<close> past the parser, one guard after the other.\<close>

lemma ssrf_Resolve_eq:
  assumes "parse raw = Inr u"
  shows "ssrf_Resolve parse r raw dc =
    (if \<not> schemeOK u then reject SSRFReasonNonHTTPScheme (''scheme '' @ go_quote (urlScheme u) @ '' not allowed'') r
     else if Hostname u = [] then reject SSRFReasonEmptyHost ''empty host'' r
     else if \<not> isAllowedPort (effectivePort u)
       then reject SSRFReasonPortNotAllowed (''port '' @ effectivePort u @ '' not allowed'') r
     else case lookup r (Hostname u) dc of
         (Inl e, r1) \<Rightarrow> reject SSRFReasonResolutionFailed (''dns lookup: '' @ err_msg e) r1
       | (Inr addrs, r1) \<Rightarrow>
           (if addrs = [] then reject SSRFReasonResolutionEmpty ''dns lookup: no addresses'' r1
            else case firstBlocked addrs of
              Some (a, reason) \<Rightarrow> reject reason (''address '' @ ip_String a @ '' in blocked range'') r1
            | None \<Rightarrow> (Inr \<lparr>resURL = u, resHost = Hostname u, resPort = effectivePort u, resIP = hd addrs\<rparr>, r1)))"
  unfolding ssrf_Resolve_def assms sum.case Let_def effectivePort_def[symmetric] schemeOK_def de_Morgan_disj by (rule refl)

lemma reject_Inr [simp]: "reject reason msg r = (Inr ru, r') \<longleftrightarrow> False" "fst (reject reason msg r) = Inr ru \<longleftrightarrow> False"
  by (simp_all add: reject_def)

lemma ssrf_Resolve_Inr:
  assumes "parse raw = Inr u"
  shows "fst (ssrf_Resolve parse r raw dc) = Inr ru \<longleftrightarrow>
    schemeOK u \<and> Hostname u \<noteq> [] \<and> isAllowedPort (effectivePort u)
    \<and> (\<exists>addrs. fst (lookup r (Hostname u) dc) = Inr addrs \<and> addrs \<noteq> [] \<and> firstBlocked addrs = None
         \<and> ru = \<lparr>resURL = u, resHost = Hostname u, resPort = effectivePort u, resIP = hd addrs\<rparr>)"
  unfolding ssrf_Resolve_eq[where parse = parse and raw = raw, OF assms]
  by (cases "lookup r (Hostname u) dc"; cases "fst (lookup r (Hostname u) dc)") (auto split: option.splits)

text \<open>
  C9: what passes the SSRF policy, exactly: a URL resolves to a pinned address if and only if it
  parses, its scheme is http or https, its host is not empty, its port is 80 or 443, the lookup
  returned at least one address and every one of them is allowed; the pin is the first of them.
\<close>

theorem ssrf_resolution_exact:
  "fst (ssrf_Resolve parse r raw dc) = Inr ru \<longleftrightarrow>
     parse raw = Inr (resURL ru) \<and> schemeOK (resURL ru)
     \<and> resHost ru = Hostname (resURL ru) \<and> resHost ru \<noteq> []
     \<and> resPort ru = effectivePort (resURL ru) \<and> (resPort ru = ''80'' \<or> resPort ru = ''443'')
     \<and> (\<exists>addrs. fst (lookup r (resHost ru) dc) = Inr addrs \<and> addrs \<noteq> [] \<and> resIP ru = hd addrs
          \<and> list_all (\<lambda>a. classifyIP a = None) addrs)"
proof (cases "parse raw")
  case (Inl e)
  then show ?thesis by (simp add: ssrf_Resolve_def)
next
  case (Inr u)
  show ?thesis
    unfolding ssrf_Resolve_Inr[where parse = parse and raw = raw, OF Inr] isAllowedPort_iff firstBlocked_None list_all_iff Inr
    by (cases ru) auto
qed



definition demo_parse :: "string \<Rightarrow> URL result" where
  "demo_parse s = Inr \<lparr>urlScheme = ''https'', urlUser = None, urlHost = ''docs.example'', urlPath = ''/a'',
     urlRawPath = [], urlRawQuery = [], urlFragment = []\<rparr>"

definition demo_render :: "URL \<Rightarrow> string" where
  "demo_render u = urlScheme u @ ''://'' @ urlHost u @ urlPath u"

definition demo_call :: "nat \<Rightarrow> dnsCall" where
  "demo_call k = \<lparr>dnsAnswer = Inr [[93, 184, 216, 34]], clock1 = 0, clock2 = 0, clock3 = 0, otherFlight = None\<rparr>"


end
