(* ===== verification/Compatutil.thy ===== *)
theory Compatutil
  imports Config
begin

text \<open>
  \<^verbatim>\<open>internal/engine/compatutil\<close>: the sanitisers every adapter puts caller-controlled names and MIME types
  through, and \<^verbatim>\<open>JoinURL\<close>.
\<close>

section \<open>File names\<close>

fun SafeFilename_loop :: "string \<Rightarrow> bool" where
  "SafeFilename_loop [] = True"
| "SafeFilename_loop (b # name) = (if byte_of b < 32 \<or> byte_of b > 126 then False else SafeFilename_loop name)"

definition SafeFilename :: "string \<Rightarrow> string" where
  "SafeFilename name = (if SafeFilename_loop name then name else [])"

text \<open>\<^verbatim>\<open>strings.NewReplacer\<close> with the two one-byte rules: one pass over the bytes.\<close>

definition escapeByte :: "char \<Rightarrow> string" where
  "escapeByte c = (if c = CHR 0x5C then [CHR 0x5C, CHR 0x5C] else if c = CHR 0x22 then [CHR 0x5C, CHR 0x22] else [c])"

definition SafeMultipartFilename :: "string \<Rightarrow> string" where
  "SafeMultipartFilename name = (if SafeFilename name = [] then [] else concat (map escapeByte name))"

section \<open>MIME types\<close>

definition outboundMIMERE :: "string \<Rightarrow> bool" where
  "outboundMIMERE s =
     (case IndexByte s (CHR ''/'') of
        None \<Rightarrow> False
      | Some i \<Rightarrow> reToken isAlnum mimeByte 126 (take i s) \<and> reToken isAlnum mimeByte 126 (drop (Suc i) s))"

definition SafeOutboundMIME :: "string \<Rightarrow> string" where
  "SafeOutboundMIME declared = (if \<not> outboundMIMERE declared then ''application/octet-stream'' else declared)"

section \<open>URLs\<close>

definition JoinURL :: "(string \<Rightarrow> URL result) \<Rightarrow> (URL \<Rightarrow> string) \<Rightarrow> string \<Rightarrow> string \<Rightarrow> string result" where
  "JoinURL parse render base p0 =
     (case parse base of
        Inl e \<Rightarrow> Inl (wrap_error ''invalid url: '' e)
      | Inr u \<Rightarrow>
          (let p = (if HasPrefix p0 ''/'' then p0 else CHR ''/'' # p0)
           in Inr (render (u\<lparr>urlPath := TrimRight (urlPath u) (CHR ''/'') @ p\<rparr>))))"

section \<open>Reading a quoted string\<close>

text \<open>How a receiver reads the rest of a quoted string after its opening quote (RFC 2616, section
  2.2): the value and what follows the closing quote.\<close>

fun readQuoted :: "string \<Rightarrow> (string \<times> string) option" where
  "readQuoted [] = None"
| "readQuoted (c # s) =
     (if c = CHR 0x22 then Some ([], s)
      else if c = CHR 0x5C then
        (case s of [] \<Rightarrow> None | d # s' \<Rightarrow> map_option (\<lambda>(v, r). (d # v, r)) (readQuoted s'))
      else map_option (\<lambda>(v, r). (c # v, r)) (readQuoted s))"

lemma readQuoted_escape:
  "readQuoted (concat (map escapeByte name) @ CHR 0x22 # rest) = Some (name, rest)"
  by (induction name) (auto simp: escapeByte_def)

lemma SafeFilename_iff: "SafeFilename_loop name \<longleftrightarrow> list_all (\<lambda>b. 32 \<le> byte_of b \<and> byte_of b \<le> 126) name"
  by (induction name) auto

lemma SafeFilename_nonempty: "SafeFilename name \<noteq> [] \<Longrightarrow> SafeFilename name = name \<and> SafeFilename_loop name"
  by (simp add: SafeFilename_def split: if_splits)

text \<open>
  A hostile file name cannot break out of the \<^verbatim>\<open>filename="..."\<close> token: what the multipart sanitiser
  returns is printable ASCII only, and a receiver that reads it between quotes gets back exactly
  the original name and stops at the closing quote, whatever follows.
\<close>

theorem multipart_filename_contained:
  assumes "SafeMultipartFilename name \<noteq> []"
  shows "readQuoted (SafeMultipartFilename name @ CHR 0x22 # rest) = Some (name, rest)
    \<and> list_all (\<lambda>b. 32 \<le> byte_of b \<and> byte_of b \<le> 126) (SafeMultipartFilename name)"
proof -
  have s: "SafeFilename name \<noteq> []" and e: "SafeMultipartFilename name = concat (map escapeByte name)"
    using assms by (auto simp: SafeMultipartFilename_def split: if_splits)
  have p: "list_all (\<lambda>b. 32 \<le> byte_of b \<and> byte_of b \<le> 126) name"
    using SafeFilename_nonempty[OF s] by (simp add: SafeFilename_iff)
  have q: "byte_of (CHR 0x5C) = 92" "byte_of (CHR 0x22) = 34" by (simp_all add: byte_of_def)
  have "32 \<le> byte_of c \<and> byte_of c \<le> 126 \<Longrightarrow> list_all (\<lambda>b. 32 \<le> byte_of b \<and> byte_of b \<le> 126) (escapeByte c)" for c
    by (simp add: escapeByte_def q)
  then have "list_all (\<lambda>b. 32 \<le> byte_of b \<and> byte_of b \<le> 126) (concat (map escapeByte name))"
    using p by (induction name) auto
  then show ?thesis by (simp add: e readQuoted_escape)
qed

theorem multipart_filename_contained_witness:
  "readQuoted (SafeMultipartFilename [CHR ''a'', CHR 0x22, CHR '';'', CHR 0x5C] @ CHR 0x22 # ''; x'')
     = Some ([CHR ''a'', CHR 0x22, CHR '';'', CHR 0x5C], ''; x'')"
proof -
  have "SafeMultipartFilename [CHR ''a'', CHR 0x22, CHR '';'', CHR 0x5C] \<noteq> []" by code_simp
  from multipart_filename_contained[OF this] show ?thesis by blast
qed

lemma mimeByte_visible: "mimeByte c \<Longrightarrow> 33 \<le> byte_of c \<and> byte_of c \<le> 126"
  by (auto simp: mimeByte_def isAlnum_def)

lemma IndexByte_Some: "IndexByte s b = Some i \<Longrightarrow> i < length s \<and> s = take i s @ b # drop (Suc i) s"
  by (induction s arbitrary: i) (auto split: if_splits)

lemma octet_stream_safe: "outboundMIMERE ''application/octet-stream''"
  by code_simp

lemma outboundMIMERE_visible:
  assumes "outboundMIMERE s"
  shows "list_all (\<lambda>c. 33 \<le> byte_of c \<and> byte_of c \<le> 126) s"
proof -
  obtain i where i: "IndexByte s (CHR ''/'') = Some i"
    and t: "reToken isAlnum mimeByte 126 (take i s)" "reToken isAlnum mimeByte 126 (drop (Suc i) s)"
    using assms by (auto simp: outboundMIMERE_def split: option.splits)
  have a: "isAlnum c \<Longrightarrow> 33 \<le> byte_of c \<and> byte_of c \<le> 126" for c by (auto simp: isAlnum_def)
  have "list_all (\<lambda>c. 33 \<le> byte_of c \<and> byte_of c \<le> 126) (take i s)"
    "list_all (\<lambda>c. 33 \<le> byte_of c \<and> byte_of c \<le> 126) (drop (Suc i) s)"
    by (rule reToken_all[OF t(1) a mimeByte_visible], assumption+)
      (rule reToken_all[OF t(2) a mimeByte_visible], assumption+)
  moreover have "33 \<le> byte_of (CHR ''/'') \<and> byte_of (CHR ''/'') \<le> 126" by (simp add: byte_of_def)
  ultimately have "list_all (\<lambda>c. 33 \<le> byte_of c \<and> byte_of c \<le> 126) (take i s @ CHR ''/'' # drop (Suc i) s)" by simp
  then show ?thesis using IndexByte_Some[OF i] by simp
qed

text \<open>
  What is stamped as an outbound \<^verbatim>\<open>Content-Type\<close> is always a bare \<^verbatim>\<open>type/subtype\<close> of visible ASCII: no
  space, control byte, CR or LF; a value that is one already passes unchanged, and the grammar is
  the one the configuration check applies to extension overrides.
\<close>

theorem outbound_mime_clean:
  "outboundMIMERE (SafeOutboundMIME declared)
   \<and> list_all (\<lambda>c. 33 \<le> byte_of c \<and> byte_of c \<le> 126) (SafeOutboundMIME declared)
   \<and> (outboundMIMERE declared \<longleftrightarrow> SafeOutboundMIME declared = declared)
   \<and> outboundMIMERE declared = mimeValueRE declared"
proof -
  have safe: "outboundMIMERE (SafeOutboundMIME declared)"
    using octet_stream_safe by (simp add: SafeOutboundMIME_def)
  moreover have "outboundMIMERE declared \<longleftrightarrow> SafeOutboundMIME declared = declared"
    using safe by (auto simp: SafeOutboundMIME_def)
  moreover have "outboundMIMERE declared = mimeValueRE declared"
    by (simp add: outboundMIMERE_def mimeValueRE_def)
  ultimately show ?thesis using outboundMIMERE_visible by blast
qed

text \<open>Exactly one slash at the seam of a joined path, when neither side had more.\<close>

lemma JoinURL_path:
  assumes "parse base = Inr u" "HasPrefix p ''/''"
  shows "\<exists>n. urlPath u = TrimRight (urlPath u) (CHR ''/'') @ replicate n (CHR ''/'')
     \<and> JoinURL parse render base p = Inr (render (u\<lparr>urlPath := TrimRight (urlPath u) (CHR ''/'') @ p\<rparr>))"
  using TrimRight_iff[of "urlPath u" "CHR ''/''"] assms by (auto simp: JoinURL_def)

end
