(* ===== verification/Convert.thy ===== *)
theory Convert
  imports Spool Ssrf Compatutil
begin

text \<open>
  The synchronous handlers: \<^verbatim>\<open>handlers/convert.go\<close> (building the engine request from a multipart upload
  or from sources, dispatch, the single-step fallback of \<^verbatim>\<open>handlers/fallback.go\<close>), \<^verbatim>\<open>handlers/external.go\<close>
  and the body-preserving log of \<^verbatim>\<open>handlers/upstream_log.go\<close>.  A multipart body is the list of its parts
  and what ends it; the engine adapters are a function argument that answers the n-th call and may
  move the read position of the bodies it was given.
\<close>

section \<open>Requests and responses\<close>

record FileBlob =
  Filename :: string
  ContentType :: string
  blobSize :: int
  blobBody :: Reader

record ConvertRequest =
  Files :: "FileBlob list"
  Sources :: "HTTPSource list"
  Options :: "(string, string) gomap"
  Headers :: Header
  RequestID :: string
  reqFacade :: Facade

record ConvertResponse =
  StatusCode :: int
  respHeaders :: Header
  respBody :: src

text \<open>The error envelopes of \<^verbatim>\<open>engine/respond\<close>.\<close>

record ErrorDetail =
  edMessage :: string

record DoclingError =
  deStatus :: string
  deErrors :: "ErrorDetail list"

record ExternalError =
  eePageContent :: string
  eeMetadata :: "(string, string) gomap"

definition NewDoclingError :: "string \<Rightarrow> DoclingError" where
  "NewDoclingError msg = \<lparr>deStatus = ''failure'', deErrors = [\<lparr>edMessage = msg\<rparr>]\<rparr>"

definition NewExternalError :: "string \<Rightarrow> ExternalError" where
  "NewExternalError msg = \<lparr>eePageContent = [], eeMetadata = [(''error'', msg)]\<rparr>"

datatype replyBody = DoclingErrorBody DoclingError | ExternalErrorBody ExternalError | StreamBody src

record reply =
  replyStatus :: int
  replyHeaders :: Header
  replyPayload :: replyBody

definition docling_error :: "int \<Rightarrow> string \<Rightarrow> reply" where
  "docling_error status msg = \<lparr>replyStatus = status, replyHeaders = [], replyPayload = DoclingErrorBody (NewDoclingError msg)\<rparr>"

definition external_error :: "int \<Rightarrow> string \<Rightarrow> reply" where
  "external_error status msg = \<lparr>replyStatus = status, replyHeaders = [], replyPayload = ExternalErrorBody (NewExternalError msg)\<rparr>"

section \<open>Building the request\<close>

record part =
  FormName :: string
  FileName :: string
  partContentType :: string
  partData :: src

definition maxFilePartBytes :: int where "maxFilePartBytes = 0"
definition maxFormFieldBytes :: int where "maxFormFieldBytes = 2 ^ 20"

text \<open>The \<^verbatim>\<open>cleanup\<close> callback: every staged part is closed; the unlink of a spilled one goes through.\<close>

fun closeAll :: "Reader list \<Rightarrow> tempfiles \<Rightarrow> tempfiles" where
  "closeAll [] tmp = tmp"
| "closeAll (c # cs) tmp = closeAll cs (snd (snd (Close c None RmOk tmp)))"

text \<open>The loop over the parts: the k-th part meets the k-th state of the operating system.  The result
  has the readers to close later and the temp files that exist.\<close>

fun buildLoop ::
  "(string \<Rightarrow> string option) \<Rightarrow> Resolver option \<Rightarrow> (nat \<Rightarrow> spoolEnv) \<Rightarrow> go_error option \<Rightarrow> nat \<Rightarrow> ConvertRequest \<Rightarrow>
   Reader list \<Rightarrow> tempfiles \<Rightarrow> part list \<Rightarrow> ConvertRequest result \<times> Reader list \<times> tempfiles" where
  "buildLoop detect rs envs perr k req closers tmp [] =
     (case perr of
        Some e \<Rightarrow> (Inl (wrap_error ''read part: '' e), [], closeAll closers tmp)
      | None \<Rightarrow> (Inr req, closers, tmp))"
| "buildLoop detect rs envs perr k req closers tmp (p # ps) =
     (if FileName p \<noteq> [] then
        (case Part (partData p) ThresholdDefault maxFilePartBytes (envs k) tmp of
           (Inl e, _, tmp1) \<Rightarrow>
             (Inl (if errors_Is e ErrTooLarge then plain_error (''file '' @ go_quote (FileName p) @ '' too large'')
                   else wrap_error (''read part '' @ go_quote (FormName p) @ '': '') e),
              [], closeAll closers tmp1)
         | (Inr sr, _, tmp1) \<Rightarrow>
             (case peekAndResolveMIME detect (partContentType p) (FileName p) sr rs of
                (Inl e, _) \<Rightarrow>
                  (Inl (wrap_error (''mime detect '' @ go_quote (FileName p) @ '': '') e), [], closeAll (closers @ [sr]) tmp1)
              | (Inr resolved, sr1) \<Rightarrow>
                  buildLoop detect rs envs perr (Suc k)
                    (req\<lparr>Files := Files req @ [\<lparr>Filename = FileName p, ContentType = resMIME resolved,
                                               blobSize = reader_Size sr, blobBody = sr1\<rparr>]\<rparr>)
                    (closers @ [sr]) tmp1 ps))
      else
        (case Copy (partData p) (Some (maxFormFieldBytes + 1)) of
           (buf, err, _) \<Rightarrow>
             (case err of
                Some e \<Rightarrow> (Inl (wrap_error (''read part '' @ go_quote (FormName p) @ '': '') e), [], closeAll closers tmp)
              | None \<Rightarrow>
                  (if int (length buf) > maxFormFieldBytes
                   then (Inl (plain_error (''form field '' @ go_quote (FormName p) @ '' exceeds '' @ show_int maxFormFieldBytes @ '' bytes'')),
                         [], closeAll closers tmp)
                   else buildLoop detect rs envs perr (Suc k) (req\<lparr>Options := map_put (FormName p) buf (Options req)\<rparr>)
                          closers tmp ps))))"

definition emptyRequest :: "Header \<Rightarrow> ConvertRequest" where
  "emptyRequest h = \<lparr>Files = [], Sources = [], Options = [], Headers = AllowlistedHeaders h, RequestID = [], reqFacade = []\<rparr>"

text \<open>\<^verbatim>\<open>buildFileRequest\<close>; the media type is the answer of \<^verbatim>\<open>mime.ParseMediaType\<close>.\<close>

definition buildFileRequest ::
  "(string \<Rightarrow> string option) \<Rightarrow> Resolver option \<Rightarrow> (nat \<Rightarrow> spoolEnv) \<Rightarrow> Header \<Rightarrow> string result \<Rightarrow>
   part list \<Rightarrow> go_error option \<Rightarrow> tempfiles \<Rightarrow> ConvertRequest result \<times> Reader list \<times> tempfiles" where
  "buildFileRequest detect rs envs h mediaType parts perr tmp =
     (case mediaType of
        Inl e \<Rightarrow> (Inl (wrap_error ''parse content-type: '' e), [], tmp)
      | Inr mt \<Rightarrow>
          (if \<not> HasPrefix mt ''multipart/'' then (Inl (plain_error ''content-type must be multipart/form-data''), [], tmp)
           else buildLoop detect rs envs perr 0 (emptyRequest h) [] tmp parts))"

text \<open>\<^verbatim>\<open>buildSourceRequest\<close>; the body is the answer of the JSON decoder.\<close>

definition buildSourceRequest ::
  "(string \<Rightarrow> URL result) \<Rightarrow> (URL \<Rightarrow> string) \<Rightarrow> (nat \<Rightarrow> dnsCall) \<Rightarrow> SsrfResolver \<Rightarrow> Header \<Rightarrow>
   (HTTPSource list \<times> (string, string) gomap) result \<Rightarrow> ConvertRequest result \<times> SsrfResolver" where
  "buildSourceRequest parse render dcs r h body =
     (case body of
        Inl e \<Rightarrow> (Inl (wrap_error ''decode json: '' e), r)
      | Inr (srcs, opts) \<Rightarrow>
          (if srcs = [] then (Inl (plain_error ''http_sources required''), r)
           else case validateSources parse render dcs r srcs of
                  (Inl e, r1) \<Rightarrow> (Inl e, r1)
                | (Inr pinned, r1) \<Rightarrow> (Inr ((emptyRequest h)\<lparr>Sources := pinned, Options := opts\<rparr>), r1)))"

section \<open>Dispatch and fallback\<close>

type_synonym engineRun = "nat \<Rightarrow> Engine \<Rightarrow> ConvertRequest \<Rightarrow> ConvertResponse result \<times> ConvertRequest"

definition fallbackEligible :: "ConvertResponse result \<Rightarrow> bool" where
  "fallbackEligible res = (case res of Inl _ \<Rightarrow> True | Inr resp \<Rightarrow> StatusCode resp \<ge> 500)"

fun rewindFiles :: "FileBlob list \<Rightarrow> bool \<times> FileBlob list" where
  "rewindFiles [] = (True, [])"
| "rewindFiles (f # fs) =
     (case Seek (blobBody f) 0 SeekStart of
        (Inl _, b) \<Rightarrow> (False, f\<lparr>blobBody := b\<rparr> # fs)
      | (Inr _, b) \<Rightarrow> (let (ok, fs') = rewindFiles fs in (ok, f\<lparr>blobBody := b\<rparr> # fs')))"

definition currentFilename :: "ConvertRequest \<Rightarrow> string" where
  "currentFilename req = (case Files req of [] \<Rightarrow> [] | f # _ \<Rightarrow> Filename f)"

text \<open>The engine choice of \<^verbatim>\<open>Convert.handle\<close>.\<close>

definition convertPick :: "staticRegistry \<Rightarrow> bool \<Rightarrow> ConvertRequest \<Rightarrow> Engine \<times> PickSource" where
  "convertPick reg source req =
     (case Files req of
        f # _ \<Rightarrow>
          (if source then (registry_Default reg, PickSourceDefault)
           else case PickRouteVerbose reg FacadeDocling \<lparr>hintMIME = ContentType f, hintFilename = Filename f\<rparr> of
                  Inr picked \<Rightarrow> picked
                | Inl _ \<Rightarrow> (registry_Default reg, PickSourceDefault))
      | [] \<Rightarrow> (registry_Default reg, PickSourceDefault))"

text \<open>The calls of the engines: who was called with what, and the last answer.\<close>

definition dispatch ::
  "staticRegistry \<Rightarrow> bool \<Rightarrow> engineRun \<Rightarrow> Engine \<Rightarrow> ConvertRequest \<Rightarrow>
   Engine \<times> ConvertResponse result \<times> (Engine \<times> ConvertRequest) list" where
  "dispatch reg fallback run eng req =
     (let (res, req1) = run 0 eng req; defaultEng = registry_Default reg in
      if fallback \<and> fallbackEligible res \<and> engineRef eng \<noteq> engineRef defaultEng then
        (let (ok, files) = rewindFiles (Files req1) in
         if ok then (let req2 = req1\<lparr>Files := files\<rparr>
                     in (defaultEng, fst (run 1 defaultEng req2), [(eng, req), (defaultEng, req2)]))
         else (eng, res, [(eng, req)]))
      else (eng, res, [(eng, req)]))"

definition logUpstreamStatus :: "UpstreamLogConfig \<Rightarrow> ConvertResponse \<Rightarrow> ConvertResponse" where
  "logUpstreamStatus cfg r =
     (if \<not> ulEnabled cfg \<or> StatusCode r < 400 then r
      else if ulBodySnippetBytes cfg > 0 then
        (let (buf, fin, rest) = CopyN (respBody r) (ulBodySnippetBytes cfg)
         in r\<lparr>respBody := rest\<lparr>srcData := buf @ srcData rest\<rparr>\<rparr>)
      else r)"

text \<open>The bytes of the log line, before credentials are redacted.\<close>

definition bodySnippet :: "UpstreamLogConfig \<Rightarrow> ConvertResponse \<Rightarrow> string" where
  "bodySnippet cfg r =
     (if ulBodySnippetBytes cfg > 0 then fst (CopyN (respBody r) (ulBodySnippetBytes cfg)) else [])"

datatype logLevel = LogTrace | LogDebug | LogInfo | LogWarn | LogError

definition eventForLevel :: "string \<Rightarrow> int \<Rightarrow> logLevel" where
  "eventForLevel level status =
     (let l = ToLower level in
      if l = ''trace'' then LogTrace
      else if l = ''debug'' then LogDebug
      else if l = ''info'' then LogInfo
      else if l = ''warn'' \<or> l = ''warning'' then LogWarn
      else if l = ''error'' then LogError
      else if status \<ge> 500 then LogError
      else LogWarn)"

text \<open>The log line of an upstream error: its level and its body snippet.\<close>

definition upstreamEvent :: "UpstreamLogConfig \<Rightarrow> ConvertResponse \<Rightarrow> (logLevel \<times> string) option" where
  "upstreamEvent cfg r =
     (if \<not> ulEnabled cfg \<or> StatusCode r < 400 then None
      else Some (eventForLevel (if StatusCode r < 500 then ulLevel4xx cfg else ulLevel5xx cfg) (StatusCode r),
                 bodySnippet cfg r))"

definition convert_handle ::
  "staticRegistry \<Rightarrow> bool \<Rightarrow> (Name \<Rightarrow> UpstreamLogConfig) option \<Rightarrow> engineRun \<Rightarrow> bool \<Rightarrow> string \<Rightarrow>
   ConvertRequest result \<Rightarrow> reply \<times> (Engine \<times> ConvertRequest) list" where
  "convert_handle reg fallback upstreamLog run source requestID built =
     (case built of
        Inl e \<Rightarrow> (docling_error 400 (err_msg e), [])
      | Inr req0 \<Rightarrow>
          (let (eng, pickSrc) = convertPick reg source req0;
               req = req0\<lparr>reqFacade := FacadeDocling, RequestID := requestID\<rparr>;
               (eng1, res, calls) = dispatch reg fallback run eng req
           in case res of
                Inl e \<Rightarrow> (docling_error 502 (''engine '' @ engineName eng1 @ '' failed (request_id='' @ requestID @ '')''), calls)
              | Inr resp \<Rightarrow>
                  (let resp1 = (case upstreamLog of None \<Rightarrow> resp | Some pol \<Rightarrow> logUpstreamStatus (pol (engineName eng1)) resp)
                   in (\<lparr>replyStatus = StatusCode resp1, replyHeaders = copyResponseHeaders [] (respHeaders resp1),
                        replyPayload = StreamBody (respBody resp1)\<rparr>, calls))))"

text \<open>The two endpoints; the deferred \<^verbatim>\<open>cleanup\<close> runs once the reply is written.\<close>

definition convert_File ::
  "(string \<Rightarrow> string option) \<Rightarrow> Resolver option \<Rightarrow> (nat \<Rightarrow> spoolEnv) \<Rightarrow> staticRegistry \<Rightarrow> bool \<Rightarrow>
   (Name \<Rightarrow> UpstreamLogConfig) option \<Rightarrow> engineRun \<Rightarrow> tempfiles \<Rightarrow> string \<Rightarrow> Header \<Rightarrow> string result \<Rightarrow> part list \<Rightarrow>
   go_error option \<Rightarrow> reply \<times> (Engine \<times> ConvertRequest) list \<times> tempfiles" where
  "convert_File detect rs envs reg fallback upstreamLog run tmp requestID h mediaType parts perr =
     (let (built, closers, tmp1) = buildFileRequest detect rs envs h mediaType parts perr tmp;
          (rep, calls) = convert_handle reg fallback upstreamLog run False requestID built
      in (rep, calls, closeAll closers tmp1))"

definition convert_Source ::
  "(string \<Rightarrow> URL result) \<Rightarrow> (URL \<Rightarrow> string) \<Rightarrow> (nat \<Rightarrow> dnsCall) \<Rightarrow> SsrfResolver \<Rightarrow> staticRegistry \<Rightarrow> bool \<Rightarrow>
   (Name \<Rightarrow> UpstreamLogConfig) option \<Rightarrow> engineRun \<Rightarrow> string \<Rightarrow> Header \<Rightarrow>
   (HTTPSource list \<times> (string, string) gomap) result \<Rightarrow> reply \<times> (Engine \<times> ConvertRequest) list \<times> SsrfResolver" where
  "convert_Source parse render dcs r reg fallback upstreamLog run requestID h body =
     (let (built, r1) = buildSourceRequest parse render dcs r h body;
          (rep, calls) = convert_handle reg fallback upstreamLog run True requestID built
      in (rep, calls, r1))"

section \<open>The external facade\<close>

definition fromHex :: "char \<Rightarrow> char \<Rightarrow> char option" where
  "fromHex a b = (case (hex_val a, hex_val b) of (Some x, Some y) \<Rightarrow> Some (char_of (x * 16 + y)) | _ \<Rightarrow> None)"

text \<open>\<^verbatim>\<open>url.QueryUnescape\<close>.\<close>

fun QueryUnescape :: "string \<Rightarrow> string option" where
  "QueryUnescape [] = Some []"
| "QueryUnescape (c # s) =
     (if c = CHR ''%'' then
        (case s of
           a # b # s' \<Rightarrow> (case fromHex a b of None \<Rightarrow> None | Some d \<Rightarrow> map_option ((#) d) (QueryUnescape s'))
         | _ \<Rightarrow> None)
      else map_option ((#) (if c = CHR ''+'' then CHR '' '' else c)) (QueryUnescape s))"

definition decodeFilename :: "string \<Rightarrow> string" where
  "decodeFilename raw =
     (if raw = [] then ''upload''
      else case QueryUnescape raw of
             None \<Rightarrow> ''upload''
           | Some dec \<Rightarrow> (if list_ex (\<lambda>b. byte_of b < 32 \<or> byte_of b > 126) dec then ''upload'' else dec))"

definition external_Process ::
  "(string \<Rightarrow> string option) \<Rightarrow> Resolver option \<Rightarrow> staticRegistry \<Rightarrow> int \<Rightarrow> (Name \<Rightarrow> UpstreamLogConfig) option \<Rightarrow>
   engineRun \<Rightarrow> spoolEnv \<Rightarrow> tempfiles \<Rightarrow> string \<Rightarrow> Header \<Rightarrow> src \<Rightarrow> reply \<times> (Engine \<times> ConvertRequest) list \<times> tempfiles" where
  "external_Process detect rs reg maxBytes upstreamLog run env tmp requestID h body =
     (let declaredCT = header_Get h ''Content-Type'' in
      if declaredCT = [] then (external_error 400 ''missing Content-Type'', [], tmp)
      else let filename = decodeFilename (header_Get h ''X-Filename'') in
        case Part body ThresholdDefault maxBytes env tmp of
          (Inl e, _, tmp1) \<Rightarrow>
            (if errors_Is e ErrTooLarge then (external_error 413 ''request body too large'', [], tmp1)
             else (external_error 400 ''read body failed'', [], tmp1))
        | (Inr sr, _, tmp1) \<Rightarrow>
            (let tmp2 = snd (snd (Close sr None RmOk tmp1)) in
             case peekAndResolveMIME detect declaredCT filename sr rs of
               (Inl e, _) \<Rightarrow> (external_error 400 ''mime detect failed'', [], tmp2)
             | (Inr resolved, sr1) \<Rightarrow>
                 (let req = (emptyRequest h)\<lparr>reqFacade := FacadeExternal, RequestID := requestID,
                              Files := [\<lparr>Filename = filename, ContentType = resMIME resolved,
                                         blobSize = reader_Size sr, blobBody = sr1\<rparr>]\<rparr> in
                  case PickRouteVerbose reg FacadeExternal \<lparr>hintMIME = resMIME resolved, hintFilename = filename\<rparr> of
                    Inl e \<Rightarrow> (external_error 501 (''no engine for external facade: '' @ err_msg e), [], tmp2)
                  | Inr (eng, pickSrc) \<Rightarrow>
                      (case fst (run 0 eng req) of
                         Inl e \<Rightarrow>
                           (external_error 502 (''engine '' @ engineName eng @ '' failed (request_id='' @ requestID @ '')''),
                            [(eng, req)], tmp2)
                       | Inr resp \<Rightarrow>
                           (let resp1 = (case upstreamLog of None \<Rightarrow> resp | Some pol \<Rightarrow> logUpstreamStatus (pol (engineName eng)) resp)
                            in (\<lparr>replyStatus = StatusCode resp1,
                                 replyHeaders = header_Set (copyResponseHeaders [] (respHeaders resp1)) ''X-Content-Type-Options'' ''nosniff'',
                                 replyPayload = StreamBody (respBody resp1)\<rparr>, [(eng, req)], tmp2))))))"

section \<open>Staged uploads\<close>

text \<open>The names \<^verbatim>\<open>os.CreateTemp\<close> hands out while one upload is read: new to the directory and different from one another.\<close>

definition fresh_names :: "(nat \<Rightarrow> spoolEnv) \<Rightarrow> tempfiles \<Rightarrow> bool" where
  "fresh_names envs tmp \<longleftrightarrow> [] \<notin> tmp \<and> (\<forall>k p. envCreateTemp (envs k) = Inr p \<longrightarrow> p \<notin> tmp)
     \<and> (\<forall>j k p. j < k \<longrightarrow> envCreateTemp (envs j) = Inr p \<longrightarrow> envCreateTemp (envs k) \<noteq> Inr p)"

lemma closeAll_eq: "list_all reader_ok cs \<Longrightarrow> closeAll cs tmp = tmp - (rdPath ` set cs - {[]})"
  by (induction cs arbitrary: tmp) (auto simp: Close_tmp)

text \<open>What holds of the temp directory before the k-th part: it is the one the upload started with and
  the files of the readers staged so far.\<close>

definition staged :: "(nat \<Rightarrow> spoolEnv) \<Rightarrow> tempfiles \<Rightarrow> nat \<Rightarrow> Reader list \<Rightarrow> tempfiles \<Rightarrow> bool" where
  "staged envs tmp0 k cs tmp \<longleftrightarrow> list_all reader_ok cs \<and> tmp = tmp0 \<union> (rdPath ` set cs - {[]})
     \<and> (\<forall>c \<in> set cs. rdPath c = [] \<or> (\<exists>j < k. envCreateTemp (envs j) = Inr (rdPath c)))"

lemma staged_close: "fresh_names envs tmp0 \<Longrightarrow> staged envs tmp0 k cs tmp \<Longrightarrow> closeAll cs tmp = tmp0"
  by (auto simp: staged_def closeAll_eq fresh_names_def)

lemma staged_mono: "staged envs tmp0 k cs tmp \<Longrightarrow> staged envs tmp0 (Suc k) cs tmp"
  by (fastforce simp: staged_def)

lemma staged_Part:
  assumes f: "fresh_names envs tmp0" and s: "staged envs tmp0 k cs tmp"
    and part: "Part r threshold maxBytes (envs k) tmp = (res, r', tmp')"
  shows "case res of Inl _ \<Rightarrow> tmp' = tmp | Inr sr \<Rightarrow> staged envs tmp0 (Suc k) (cs @ [sr]) tmp'"
proof -
  have new: "p \<notin> tmp" if "envCreateTemp (envs k) = Inr p" for p
    using that f s by (fastforce simp: staged_def fresh_names_def)
  have ne: "[] \<notin> tmp" using f s by (auto simp: staged_def fresh_names_def)
  show ?thesis
  proof (cases res)
    case (Inr sr)
    with part have "reader_ok sr" by (auto dest: Part_Inr(1))
    then show ?thesis using Part_tmp[OF new ne part] s Inr
      by (simp add: staged_def) (fastforce intro: less_SucI)
  qed (use Part_tmp[OF new ne part] in simp)
qed

text \<open>The file the loop appends for a file part.\<close>

definition file_of :: "(string \<Rightarrow> string option) \<Rightarrow> Resolver option \<Rightarrow> part \<Rightarrow> FileBlob \<Rightarrow> bool" where
  "file_of detect rs p f \<longleftrightarrow> Filename f = FileName p \<and> reader_ok (blobBody f) \<and> contents (blobBody f) = srcData (partData p)
     \<and> position (blobBody f) = 0 \<and> blobSize f = int (length (srcData (partData p)))
     \<and> ContentType f = resMIME (Resolve detect (case rs of None \<Rightarrow> defaultResolver | Some r \<Rightarrow> r) (partContentType p)
                                  (take 512 (srcData (partData p))) (FileName p))"

lemma buildLoop_file:
  assumes "FileName p \<noteq> []" "Part (partData p) ThresholdDefault maxFilePartBytes (envs k) tmp = (Inr sr, r', tmp1)"
  shows "\<exists>f. file_of detect rs p f \<and> buildLoop detect rs envs perr k req closers tmp (p # ps) =
     buildLoop detect rs envs perr (Suc k) (req\<lparr>Files := Files req @ [f]\<rparr>) (closers @ [sr]) tmp1 ps"
proof -
  note s = Part_Inr[OF assms(2)]
  obtain sr1 where "peekAndResolveMIME detect (partContentType p) (FileName p) sr rs
      = (Inr (Resolve detect (case rs of None \<Rightarrow> defaultResolver | Some r \<Rightarrow> r) (partContentType p)
              (take 512 (contents sr)) (FileName p)), sr1)"
    "reader_ok sr1" "contents sr1 = contents sr" "position sr1 = 0"
    using peek_ok[OF s(1,3)] by blast
  then show ?thesis using assms s
    by (intro exI[of _ "\<lparr>Filename = FileName p, ContentType = resMIME (Resolve detect
          (case rs of None \<Rightarrow> defaultResolver | Some r \<Rightarrow> r) (partContentType p) (take 512 (contents sr)) (FileName p)),
          blobSize = reader_Size sr, blobBody = sr1\<rparr>"])
      (simp add: file_of_def reader_Size_def)
qed

text \<open>The form fields the loop lets through.\<close>

definition field_ok :: "part \<Rightarrow> bool" where
  "field_ok p \<longleftrightarrow> srcErr (partData p) = None \<and> int (length (srcData (partData p))) \<le> maxFormFieldBytes"

lemma buildLoop_field:
  assumes "FileName p = []"
  shows "field_ok p \<Longrightarrow> buildLoop detect rs envs perr k req closers tmp (p # ps) =
     buildLoop detect rs envs perr (Suc k) (req\<lparr>Options := map_put (FormName p) (srcData (partData p)) (Options req)\<rparr>) closers tmp ps"
   "\<not> field_ok p \<Longrightarrow> \<exists>e. buildLoop detect rs envs perr k req closers tmp (p # ps) = (Inl e, [], closeAll closers tmp)"
proof -
  show "field_ok p \<Longrightarrow> buildLoop detect rs envs perr k req closers tmp (p # ps) =
     buildLoop detect rs envs perr (Suc k) (req\<lparr>Options := map_put (FormName p) (srcData (partData p)) (Options req)\<rparr>) closers tmp ps"
    using assms by (simp add: field_ok_def Copy_def maxFormFieldBytes_def)
  show "\<not> field_ok p \<Longrightarrow> \<exists>e. buildLoop detect rs envs perr k req closers tmp (p # ps) = (Inl e, [], closeAll closers tmp)"
    using assms by (auto simp: field_ok_def Copy_def maxFormFieldBytes_def split: option.split)
qed

declare buildLoop.simps(2) [simp del]

text \<open>One step of the loop: it goes on with a file or a field, or it fails with the temp files released.\<close>

lemma buildLoop_cases:
  obtains (isfile) f sr r' tmp1 where "FileName p \<noteq> []"
      "Part (partData p) ThresholdDefault maxFilePartBytes (envs k) tmp = (Inr sr, r', tmp1)" "file_of detect rs p f"
      "buildLoop detect rs envs perr k req closers tmp (p # ps) =
         buildLoop detect rs envs perr (Suc k) (req\<lparr>Files := Files req @ [f]\<rparr>) (closers @ [sr]) tmp1 ps"
  | (field) "FileName p = []" "field_ok p" "buildLoop detect rs envs perr k req closers tmp (p # ps) =
         buildLoop detect rs envs perr (Suc k) (req\<lparr>Options := map_put (FormName p) (srcData (partData p)) (Options req)\<rparr>) closers tmp ps"
  | (badfile) e e1 r' tmp1 where "FileName p \<noteq> []"
      "Part (partData p) ThresholdDefault maxFilePartBytes (envs k) tmp = (Inl e1, r', tmp1)"
      "buildLoop detect rs envs perr k req closers tmp (p # ps) = (Inl e, [], closeAll closers tmp1)"
  | (badfield) e where "FileName p = []" "\<not> field_ok p"
      "buildLoop detect rs envs perr k req closers tmp (p # ps) = (Inl e, [], closeAll closers tmp)"
proof (cases "FileName p = []")
  case True
  with that(2,4) buildLoop_field[OF True] show ?thesis by blast
next
  case False
  obtain res r' tmp1 where part: "Part (partData p) ThresholdDefault maxFilePartBytes (envs k) tmp = (res, r', tmp1)"
    by (metis prod_cases3)
  show ?thesis
  proof (cases res)
    case (Inl e1)
    then show ?thesis using that(3)[OF False, of e1 r' tmp1] part False by (simp add: buildLoop.simps(2))
  next
    case (Inr sr)
    then show ?thesis using that(1) part False buildLoop_file[OF False] by blast
  qed
qed

lemma buildLoop_tmp:
  assumes f: "fresh_names envs tmp0" and "staged envs tmp0 k closers tmp"
    and "buildLoop detect rs envs perr k req closers tmp parts = (res, closers', tmp')"
  shows "(\<forall>e. res = Inl e \<longrightarrow> tmp' = tmp0) \<and> closeAll closers' tmp' = tmp0"
  using assms(2,3)
proof (induction parts arbitrary: k req closers tmp)
  case Nil
  then show ?case using staged_close[OF f] by (auto split: option.splits)
next
  case (Cons p ps)
  show ?case
  proof (cases rule: buildLoop_cases[of p envs k tmp detect rs perr req closers ps])
    case (isfile fb sr r' tmp1)
    then show ?thesis using Cons staged_Part[OF f Cons.prems(1) isfile(2)] by simp
  next
    case field
    then show ?thesis using Cons.IH[OF staged_mono[OF Cons.prems(1)]] Cons.prems(2) by simp
  next
    case (badfile e e1 r' tmp1)
    then show ?thesis using Cons.prems staged_Part[OF f Cons.prems(1) badfile(2)] staged_close[OF f] by auto
  next
    case (badfield e)
    then show ?thesis using Cons.prems staged_close[OF f] by auto
  qed
qed

lemma buildLoop_Inr:
  assumes "buildLoop detect rs envs perr k req closers tmp parts = (Inr req', closers', tmp')"
  shows "perr = None \<and> list_all (\<lambda>p. srcErr (partData p) = None \<and> (FileName p = [] \<longrightarrow> field_ok p)) parts \<and>
    (\<exists>fs. list_all2 (file_of detect rs) (filter (\<lambda>p. FileName p \<noteq> []) parts) fs \<and>
       req' = req\<lparr>Files := Files req @ fs, Options := fold (\<lambda>p. map_put (FormName p) (srcData (partData p)))
                  (filter (\<lambda>p. FileName p = []) parts) (Options req)\<rparr>)"
  using assms
proof (induction parts arbitrary: k req closers tmp)
  case Nil
  then show ?case by (auto split: option.splits)
next
  case (Cons p ps)
  show ?case
  proof (cases rule: buildLoop_cases[of p envs k tmp detect rs perr req closers ps])
    case (isfile fb sr r' tmp1)
    with Cons.IH[OF Cons.prems[unfolded isfile(4)]] obtain fs where
      "perr = None" "list_all (\<lambda>p. srcErr (partData p) = None \<and> (FileName p = [] \<longrightarrow> field_ok p)) ps"
      "list_all2 (file_of detect rs) (filter (\<lambda>p. FileName p \<noteq> []) ps) fs"
      "req' = req\<lparr>Files := Files req @ [fb] @ fs, Options := fold (\<lambda>p. map_put (FormName p) (srcData (partData p)))
                  (filter (\<lambda>p. FileName p = []) ps) (Options req)\<rparr>"
      by auto
    with isfile Part_Inr(5)[OF isfile(2)] show ?thesis by (auto intro!: exI[of _ "fb # fs"])
  next
    case field
    with Cons.IH[OF Cons.prems[unfolded field(3)]] obtain fs where
      "perr = None" "list_all (\<lambda>p. srcErr (partData p) = None \<and> (FileName p = [] \<longrightarrow> field_ok p)) ps"
      "list_all2 (file_of detect rs) (filter (\<lambda>p. FileName p \<noteq> []) ps) fs"
      "req' = req\<lparr>Files := Files req @ fs, Options := fold (\<lambda>p. map_put (FormName p) (srcData (partData p)))
                  (filter (\<lambda>p. FileName p = []) ps) (map_put (FormName p) (srcData (partData p)) (Options req))\<rparr>"
      by auto
    with field show ?thesis by (auto simp: field_ok_def)
  qed (use Cons.prems in auto)
qed

lemma buildLoop_accepts:
  assumes "\<And>k. healthy (envs k)" "perr = None"
    "list_all (\<lambda>p. srcErr (partData p) = None \<and> (FileName p = [] \<longrightarrow> field_ok p)) parts"
  shows "\<exists>req'. fst (buildLoop detect rs envs perr k req closers tmp parts) = Inr req'"
  using assms(3)
proof (induction parts arbitrary: k req closers tmp)
  case (Cons p ps)
  show ?case
  proof (cases rule: buildLoop_cases[of p envs k tmp detect rs perr req closers ps])
    case (badfile e e1 r' tmp1)
    then show ?thesis using Cons.prems Part_outcome[OF assms(1)[of k], where r = "partData p" and tmp = tmp and threshold = ThresholdDefault and maxBytes = maxFilePartBytes]
      by (simp add: maxFilePartBytes_def)
  qed (use Cons in auto)
qed (simp add: assms(2))

lemma map_of_fold_put:
  "map_of (fold (\<lambda>p. map_put (key p) (val p)) ps m) = map_of m ++ map_of (rev (map (\<lambda>p. (key p, val p)) ps))"
  by (induction ps arbitrary: m) simp_all

text \<open>
  C7: building the request of an upload is exact.  With a working disk it succeeds if and only if the
  content type is multipart, the body ends properly, no part breaks off, and every form field is within 1 MiB; then
  the files of the request are the file parts in order, each with its name, all of its bytes from the first one, its
  size and the MIME type resolved from its head, each option has the last value sent for it, and the headers are
  the allow-listed ones.
\<close>

theorem upload_request_exact:
  assumes "\<And>k. healthy (envs k)"
  shows "case fst (buildFileRequest detect rs envs h (Inr mt) parts perr tmp) of
     Inl e \<Rightarrow> \<not> (HasPrefix mt ''multipart/'' \<and> perr = None \<and>
                list_all (\<lambda>p. srcErr (partData p) = None \<and> (FileName p = [] \<longrightarrow> field_ok p)) parts)
   | Inr req \<Rightarrow> HasPrefix mt ''multipart/'' \<and> perr = None \<and>
                list_all (\<lambda>p. srcErr (partData p) = None \<and> (FileName p = [] \<longrightarrow> field_ok p)) parts \<and>
                list_all2 (file_of detect rs) (filter (\<lambda>p. FileName p \<noteq> []) parts) (Files req) \<and>
                map_of (Options req) = map_of (rev (map (\<lambda>p. (FormName p, srcData (partData p)))
                                                    (filter (\<lambda>p. FileName p = []) parts))) \<and>
                Headers req = AllowlistedHeaders h \<and> Sources req = []"
proof (cases "HasPrefix mt ''multipart/''")
  case True
  obtain res cs tmp' where b: "buildLoop detect rs envs perr 0 (emptyRequest h) [] tmp parts = (res, cs, tmp')"
    by (metis prod_cases3)
  show ?thesis
  proof (cases res)
    case (Inl e)
    with b buildLoop_accepts[where envs = envs and perr = perr and parts = parts and detect = detect and rs = rs
        and k = 0 and req = "emptyRequest h" and closers = "[]" and tmp = tmp, OF assms] True show ?thesis
      by (auto simp: buildFileRequest_def)
  next
    case (Inr req)
    with b buildLoop_Inr[of detect rs envs perr 0 "emptyRequest h" "[]" tmp parts req cs tmp'] True show ?thesis
      by (auto simp: buildFileRequest_def emptyRequest_def map_of_fold_put)
  qed
qed (simp add: buildFileRequest_def)

definition demo_env :: "nat \<Rightarrow> spoolEnv" where
  "demo_env k = \<lparr>envTmpfile = Inl EISDIR, envCreateTemp = Inr (replicate (Suc k) CHR ''t''),
                 envWriteErr = None, envCopyErr = None, envSeekErr = None\<rparr>"

definition demo_parts :: "part list" where
  "demo_parts = [\<lparr>FormName = ''files'', FileName = ''a.pdf'', partContentType = ''application/pdf'',
                  partData = \<lparr>srcData = ''%PDF'', srcErr = None\<rparr>\<rparr>,
                 \<lparr>FormName = ''ocr'', FileName = [], partContentType = [],
                  partData = \<lparr>srcData = ''true'', srcErr = None\<rparr>\<rparr>]"

lemma demo_healthy: "healthy (demo_env k)"
  by (simp add: healthy_def demo_env_def openSpoolFile_def openSpoolFileFallback_def)

theorem upload_request_exact_witness:
  "case fst (buildFileRequest (\<lambda>_. None) None demo_env [] (Inr ''multipart/form-data'') demo_parts None {}) of
     Inl e \<Rightarrow> False
   | Inr req \<Rightarrow> map_of (Options req) ''ocr'' = Some ''true'' \<and> map Filename (Files req) = [''a.pdf'']"
  using upload_request_exact[where envs = demo_env and detect = "\<lambda>_. None" and rs = None and h = "[]"
      and mt = "''multipart/form-data''" and parts = demo_parts and perr = None and tmp = "{}", OF demo_healthy]
  by (auto simp: demo_parts_def field_ok_def maxFormFieldBytes_def HasPrefix_def file_of_def list_all2_Cons1 split: sum.splits)


lemma demo_fresh: "fresh_names demo_env {}"
  by (auto simp: fresh_names_def demo_env_def)


section \<open>Engine calls\<close>

text \<open>What the handler relies on of an engine: it reads the bodies it is given, in whatever pattern, and changes nothing else.\<close>

definition same_file :: "FileBlob \<Rightarrow> FileBlob \<Rightarrow> bool" where
  "same_file f g \<longleftrightarrow> Filename g = Filename f \<and> ContentType g = ContentType f \<and> blobSize g = blobSize f
     \<and> (reader_ok (blobBody f) \<longrightarrow> reader_ok (blobBody g) \<and> contents (blobBody g) = contents (blobBody f))"

definition engine_reads :: "engineRun \<Rightarrow> bool" where
  "engine_reads run \<longleftrightarrow> (\<forall>n e q. list_all2 same_file (Files q) (Files (snd (run n e q))) \<and>
     snd (run n e q) = q\<lparr>Files := Files (snd (run n e q))\<rparr>)"

lemma rewind_file:
  assumes "file_of detect rs p f" "same_file f g"
  shows "\<exists>b. Seek (blobBody g) 0 SeekStart = (Inr 0, b) \<and> file_of detect rs p (g\<lparr>blobBody := b\<rparr>)"
proof -
  from assms have "reader_ok (blobBody g)" by (simp add: file_of_def same_file_def)
  from spooled.rewind_ok[OF this] assms show ?thesis by (auto simp: file_of_def same_file_def)
qed

lemma rewindFiles_ok:
  assumes "list_all2 (file_of detect rs) ps fs" "list_all2 same_file fs gs"
  shows "\<exists>gs'. rewindFiles gs = (True, gs') \<and> list_all2 (file_of detect rs) ps gs'"
  using assms
proof (induction gs arbitrary: ps fs)
  case (Cons g gs)
  then obtain p ps1 f fs1 where l: "ps = p # ps1" "fs = f # fs1" "file_of detect rs p f" "same_file f g"
    "list_all2 (file_of detect rs) ps1 fs1" "list_all2 same_file fs1 gs"
    by (auto simp: list_all2_Cons2)
  from Cons.IH[OF l(5,6)] rewind_file[OF l(3,4)] l(1) show ?case by auto
qed auto


text \<open>A first engine that consumes the whole body and then fails, so that the second gets it from the start.\<close>

definition demo_run :: engineRun where
  "demo_run n e q = ((if n = 0 then Inl (plain_error ''connection reset'') else Inr \<lparr>StatusCode = 200, respHeaders = [],
       respBody = \<lparr>srcData = ''ok'', srcErr = None\<rparr>\<rparr>),
     q\<lparr>Files := map (\<lambda>f. f\<lparr>blobBody := snd (Seek (blobBody f) 0 SeekEnd)\<rparr>) (Files q)\<rparr>)"

lemma Seek_end: "reader_ok b \<Longrightarrow> reader_ok (snd (Seek b 0 SeekEnd)) \<and> contents (snd (Seek b 0 SeekEnd)) = contents b"
  by (elim reader_ok_cases) (auto simp: Seek_def seekTo_def reader_ok_def contents_def)

lemma demo_reads: "engine_reads demo_run"
  unfolding engine_reads_def demo_run_def
  by (auto simp: list_all2_conv_all_nth same_file_def Seek_end)

definition demo_request :: ConvertRequest where
  "demo_request = projr (fst (buildFileRequest (\<lambda>_. None) None demo_env [] (Inr ''multipart/form-data'') demo_parts None {}))"

lemma demo_built:
  "\<exists>cs t. buildFileRequest (\<lambda>_. None) None demo_env [] (Inr ''multipart/form-data'') demo_parts None {} = (Inr demo_request, cs, t)"
proof -
  have "\<not> isl (fst (buildFileRequest (\<lambda>_. None) None demo_env [] (Inr ''multipart/form-data'') demo_parts None {}))" by code_simp
  then show ?thesis unfolding demo_request_def by (metis prod.collapse sum.collapse(2))
qed

lemma demo_pick:
  "fst (convertPick demo_registry False demo_request) = demo_tika" "registry_Default demo_registry = demo_docling"
  by code_simp+


section \<open>What the caller sees\<close>

lemma logUpstreamStatus_id: "logUpstreamStatus cfg r = r"
proof -
  obtain buf fin rest where c: "CopyN (respBody r) (ulBodySnippetBytes cfg) = (buf, fin, rest)" by (metis prod_cases3)
  show ?thesis
  proof (cases "ulBodySnippetBytes cfg > 0")
    case True
    then have "rest\<lparr>srcData := buf @ srcData rest\<rparr> = respBody r"
      using CopyN_cases[OF c] by (cases rest; cases "respBody r") simp
    then show ?thesis by (simp add: logUpstreamStatus_def c)
  qed (simp add: logUpstreamStatus_def)
qed

text \<open>
  Logging an upstream error is invisible to the caller.  The response that is streamed afterwards is the engine's,
  body included, for every snippet size; a line is logged exactly when logging is on and the status is an error, and
  its snippet is the first bytes of the body, at most the configured number.
\<close>

theorem upstream_log_transparent:
  "logUpstreamStatus cfg r = r \<and>
   (case upstreamEvent cfg r of
      None \<Rightarrow> \<not> (ulEnabled cfg \<and> 400 \<le> StatusCode r)
    | Some (level, snippet) \<Rightarrow> ulEnabled cfg \<and> 400 \<le> StatusCode r
        \<and> snippet = take (nat (ulBodySnippetBytes cfg)) (srcData (respBody r)))"
  by (auto simp: logUpstreamStatus_id upstreamEvent_def bodySnippet_def CopyN_def)

lemma case_map_sum: "(case map_sum f id res of Inl _ \<Rightarrow> a | Inr x \<Rightarrow> b x) = (case res of Inl _ \<Rightarrow> a | Inr x \<Rightarrow> b x)"
  by (cases res) simp_all


text \<open>
  C19: facades at the engines.  On the external facade only engines that answer it are ever called, at most once,
  and a request that reaches none is refused with 400, 413 or 501.  On the upload and source endpoints each engine
  called either answers the Docling facade or is the default engine, which is called even if it does not.
\<close>

theorem facades_respected:
  assumes "registry_ok reg"
  shows "(case external_Process detect rs reg maxBytes ul run env tmp rid h body of
            (rep, calls, _) \<Rightarrow> (\<forall>c \<in> set calls. AcceptsFacade (Capabilities (fst c)) FacadeExternal) \<and>
               (calls = [] \<and> replyStatus rep \<in> {400, 413, 501} \<or> length calls = 1))
       \<and> (\<forall>c \<in> set (snd (convert_handle reg fallback ul run source rid built)).
            AcceptsFacade (Capabilities (fst c)) FacadeDocling \<or> fst c = registry_Default reg)"
proof -
  note acc = static.pick_accepts[OF assms]
  have "case external_Process detect rs reg maxBytes ul run env tmp rid h body of
            (rep, calls, _) \<Rightarrow> (\<forall>c \<in> set calls. AcceptsFacade (Capabilities (fst c)) FacadeExternal) \<and>
               (calls = [] \<and> replyStatus rep \<in> {400, 413, 501} \<or> length calls = 1)"
    by (auto simp: external_Process_def external_error_def Let_def dest: acc split: prod.split sum.split)
  moreover have "AcceptsFacade (Capabilities (fst (convertPick reg source req))) FacadeDocling
      \<or> fst (convertPick reg source req) = registry_Default reg" for req
    by (auto simp: convertPick_def dest: acc split: list.split sum.split)
  moreover have "fst c \<in> {fst (convertPick reg source req), registry_Default reg}"
    if "built = Inr req" "c \<in> set (snd (convert_handle reg fallback ul run source rid built))" for c req
    using that by (auto simp: convert_handle_def dispatch_def Let_def split_beta split: sum.splits if_splits)
  moreover have "snd (convert_handle reg fallback ul run source rid (Inl e)) = []" for e
    by (simp add: convert_handle_def)
  ultimately show ?thesis by (cases built) fastforce+
qed

text \<open>A registry whose default engine answers the external facade only.\<close>

definition external_only :: Engine where
  "external_only = \<lparr>engineRef = 3, engineName = ''ext'', engineURL = ''http://e'',
     Capabilities = \<lparr>Facades = [FacadeExternal], HTTPSources = False\<rparr>\<rparr>"

definition external_registry :: staticRegistry where
  "external_registry = projr (NewRegistry [(''ext'', \<lparr>entryEngine = external_only, MimeTypes = [], Extensions = []\<rparr>)] ''ext'' [])"

lemma external_registry_ok: "registry_ok external_registry"
proof -
  have "NewRegistry [(''ext'', \<lparr>entryEngine = external_only, MimeTypes = [], Extensions = []\<rparr>)] ''ext'' [] = Inr external_registry"
    by code_simp
  moreover have "map_ok [(''ext'', \<lparr>entryEngine = external_only, MimeTypes = [], Extensions = []\<rparr>)]" by (simp add: map_ok_def)
  ultimately show ?thesis unfolding registry_ok_def by blast
qed

theorem facades_respected_witness:
  "map (engineName \<circ> fst) (snd (convert_handle external_registry False None demo_run False ''id'' (Inr demo_request))) = [''ext'']
   \<and> \<not> AcceptsFacade (Capabilities (registry_Default external_registry)) FacadeDocling
   \<and> list_all (\<lambda>c. fst c = registry_Default external_registry \<or> AcceptsFacade (Capabilities (fst c)) FacadeDocling)
        (snd (convert_handle external_registry False None demo_run False ''id'' (Inr demo_request)))"
proof (intro conjI)
  show "map (engineName \<circ> fst) (snd (convert_handle external_registry False None demo_run False ''id'' (Inr demo_request))) = [''ext'']"
    by code_simp
  show "\<not> AcceptsFacade (Capabilities (registry_Default external_registry)) FacadeDocling" by code_simp
  show "list_all (\<lambda>c. fst c = registry_Default external_registry \<or> AcceptsFacade (Capabilities (fst c)) FacadeDocling)
        (snd (convert_handle external_registry False None demo_run False ''id'' (Inr demo_request)))"
    unfolding list_all_iff using facades_respected[OF external_registry_ok] by blast
qed

end
