(* ===== verification/Adapters.thy ===== *)
theory Adapters
  imports Convert Authutil
begin

text \<open>
  \<^verbatim>\<open>internal/engine/compat\<close>: the four engine adapters.  An adapter turns a request of the handlers into outbound HTTP
  requests and the answers into a response.  The HTTP client behind the circuit breaker is an argument that answers the
  n-th outbound request; the JSON decoder is an argument too, the encoder is modelled on values.  Every adapter is
  shown to meet one interface, stated as a locale.
\<close>

section \<open>JSON\<close>

datatype json = JNull | JBool bool | JNum string | JStr string | JArr "json list" | JObj "(string \<times> json) list"

definition jsonByte :: "char \<Rightarrow> string" where
  "jsonByte c =
     (let b = byte_of c in
      if b = 34 \<or> b = 92 then [CHR 0x5C, c]
      else if b = 8 then [CHR 0x5C, CHR ''b'']
      else if b = 9 then [CHR 0x5C, CHR ''t'']
      else if b = 10 then [CHR 0x5C, CHR ''n'']
      else if b = 12 then [CHR 0x5C, CHR ''f'']
      else if b = 13 then [CHR 0x5C, CHR ''r'']
      else if b < 32 \<or> b = 38 \<or> b = 60 \<or> b = 62
      then [CHR 0x5C, CHR ''u'', CHR ''0'', CHR ''0'', hex_nibble (b div 16), hex_nibble (b mod 16)]
      else [c])"

definition jsonString :: "string \<Rightarrow> string" where
  "jsonString s = CHR 0x22 # concat (map jsonByte s) @ [CHR 0x22]"

definition commaJoin :: "string list \<Rightarrow> string" where
  "commaJoin xs = (case xs of [] \<Rightarrow> [] | y # ys \<Rightarrow> y @ concat (map ((#) (CHR '','')) ys))"

fun json_Marshal :: "json \<Rightarrow> string" where
  "json_Marshal JNull = ''null''"
| "json_Marshal (JBool b) = (if b then ''true'' else ''false'')"
| "json_Marshal (JNum n) = n"
| "json_Marshal (JStr s) = jsonString s"
| "json_Marshal (JArr xs) = ''['' @ commaJoin (map json_Marshal xs) @ '']''"
| "json_Marshal (JObj kvs) = ''{'' @ commaJoin (map (\<lambda>(k, v). jsonString k @ '':'' @ json_Marshal v) kvs) @ ''}''"

text \<open>A Go map is encoded with its keys sorted.\<close>

definition jsonMap :: "(string, json) gomap \<Rightarrow> json" where
  "jsonMap m = JObj (map (\<lambda>k. (k, the (map_of m k))) (stringSort (map fst m)))"

definition marshalDoclingError :: "DoclingError \<Rightarrow> string" where
  "marshalDoclingError e = json_Marshal (JObj [(''status'', JStr (deStatus e)),
     (''errors'', JArr (map (\<lambda>d. JObj [(''message'', JStr (edMessage d))]) (deErrors e)))])"

definition marshalExternalError :: "ExternalError \<Rightarrow> string" where
  "marshalExternalError e = json_Marshal (JObj [(''page_content'', JStr (eePageContent e)),
     (''metadata'', jsonMap (map (\<lambda>(k, v). (k, JStr v)) (eeMetadata e)))])"

section \<open>Outbound requests\<close>

record outPart =
  opDisposition :: string
  opContentType :: "string option"
  opData :: string

datatype outBody = RawBody string | MultipartBody "outPart list"

record outReq =
  oqMethod :: string
  oqURL :: string
  oqHeader :: Header
  oqBody :: outBody

text \<open>The client behind the breaker: what the n-th outbound request of a conversion is answered with.\<close>

type_synonym roundTrip = "nat \<Rightarrow> outReq \<Rightarrow> ConvertResponse result"

definition bodyBytes :: "Reader \<Rightarrow> string" where
  "bodyBytes b = drop (position b) (contents b)"

definition pathOr :: "EngineConfig \<Rightarrow> string \<Rightarrow> string \<Rightarrow> string" where
  "pathOr cfg key dflt = (case map_of (ecPaths cfg) key of Some v \<Rightarrow> (if v \<noteq> [] then v else dflt) | None \<Rightarrow> dflt)"

section \<open>The docling adapter\<close>

definition docling_Capabilities :: EngineCapabilities where
  "docling_Capabilities = \<lparr>Facades = [FacadeDocling], HTTPSources = True\<rparr>"

definition convertFilePath :: "EngineConfig \<Rightarrow> string" where
  "convertFilePath cfg = pathOr cfg ''convert_file'' ''/v1/convert/file''"

definition convertSourcePath :: "EngineConfig \<Rightarrow> string" where
  "convertSourcePath cfg = pathOr cfg ''convert_source'' ''/v1/convert/source''"

definition fwdHeaderAllowlist :: "string list" where
  "fwdHeaderAllowlist = [''Accept'', ''Accept-Encoding'', ''User-Agent'']"

definition ApplyForwardHeaders :: "Header \<Rightarrow> Header \<Rightarrow> string \<Rightarrow> Header" where
  "ApplyForwardHeaders dst src requestID =
     (let d1 = header_Del (fold (\<lambda>k d. if header_Get src k \<noteq> [] then header_Set d k (header_Get src k) else d) fwdHeaderAllowlist dst)
                 ''X-Request-ID''
      in if requestID \<noteq> [] then header_Set d1 ''X-Request-ID'' requestID else d1)"

definition CreateFilePart :: "string \<Rightarrow> string \<Rightarrow> string \<Rightarrow> string \<Rightarrow> outPart" where
  "CreateFilePart field filename contentType data =
     (let safe0 = SafeMultipartFilename filename;
          safe = (if safe0 = [] then ''upload'' else safe0)
      in \<lparr>opDisposition = ''form-data; name='' @ go_quote field @ ''; filename='' @ go_quote safe,
          opContentType = (if contentType \<noteq> [] then Some contentType else None), opData = data\<rparr>)"

text \<open>\<^verbatim>\<open>multipart.Writer.WriteField\<close>: quotes and backslashes are escaped, CR and LF percent-encoded.\<close>

definition escapeFieldByte :: "char \<Rightarrow> string" where
  "escapeFieldByte c = (if c = CHR 0x0D then ''%0D'' else if c = CHR 0x0A then ''%0A'' else escapeByte c)"

definition WriteField :: "string \<Rightarrow> string \<Rightarrow> outPart" where
  "WriteField k v =
     \<lparr>opDisposition = ''form-data; name='' @ CHR 0x22 # concat (map escapeFieldByte k) @ [CHR 0x22], opContentType = None, opData = v\<rparr>"

definition isJSON :: "string \<Rightarrow> bool" where
  "isJSON ct = HasPrefix (ToLower (TrimSpace ct)) ''application/json''"

definition nullableContentFields :: "string list" where
  "nullableContentFields = [''md_content'', ''text_content'', ''html_content'', ''json_content'', ''doctags_content'']"

definition nullNeedle :: "string \<Rightarrow> string" where
  "nullNeedle field = CHR 0x22 # field @ [CHR 0x22] @ '':null''"

definition emptyRepl :: "string \<Rightarrow> string" where
  "emptyRepl field = CHR 0x22 # field @ [CHR 0x22, CHR '':'', CHR 0x22, CHR 0x22]"

definition normalizeNullContent :: "string \<Rightarrow> string" where
  "normalizeNullContent raw = fold (\<lambda>field out. ReplaceAll out (nullNeedle field) (emptyRepl field)) nullableContentFields raw"

definition maybeNormalize :: "ConvertResponse \<Rightarrow> ConvertResponse result" where
  "maybeNormalize resp =
     (if \<not> isJSON (header_Get (respHeaders resp) ''Content-Type'') then Inr resp
      else case srcErr (respBody resp) of
             Some e \<Rightarrow> Inl e
           | None \<Rightarrow>
               (let raw = srcData (respBody resp); patched = normalizeNullContent raw;
                    h = (if length patched \<noteq> length raw then header_Set (respHeaders resp) ''Content-Length'' (show_nat (length patched))
                         else respHeaders resp)
                in Inr (resp\<lparr>respHeaders := h, respBody := \<lparr>srcData = patched, srcErr = None\<rparr>\<rparr>)))"

definition docling_do :: "roundTrip \<Rightarrow> outReq \<Rightarrow> ConvertResponse result \<times> outReq list" where
  "docling_do rt hreq = (case rt 0 hreq of Inl e \<Rightarrow> (Inl e, [hreq]) | Inr resp \<Rightarrow> (maybeNormalize resp, [hreq]))"

definition docling_parts :: "EngineConfig \<Rightarrow> ConvertRequest \<Rightarrow> outPart list" where
  "docling_parts cfg req =
     map (\<lambda>f. CreateFilePart ''files'' (Filename f) (ContentType f) (bodyBytes (blobBody f))) (Files req)
     @ map (\<lambda>(k, v). WriteField k v) (Options req) @ map (\<lambda>(k, v). WriteField k v) (ecForwardOptions cfg)"

definition docling_header :: "string \<Rightarrow> EngineConfig \<Rightarrow> string \<Rightarrow> ConvertRequest \<Rightarrow> Header" where
  "docling_header nm cfg contentType req =
     ApplyForwardHeaders (fst (snd (ApplyMulti (header_Set [] ''Content-Type'' contentType) nm cfg))) (Headers req) (RequestID req)"

text \<open>\<^verbatim>\<open>http.NewRequestWithContext\<close> parses the target once more.\<close>

definition docling_convertFile ::
  "(string \<Rightarrow> URL result) \<Rightarrow> (URL \<Rightarrow> string) \<Rightarrow> string \<Rightarrow> string \<Rightarrow> EngineConfig \<Rightarrow> roundTrip \<Rightarrow> ConvertRequest \<Rightarrow>
   ConvertResponse result \<times> outReq list" where
  "docling_convertFile parse render boundary nm cfg rt req =
     (case JoinURL parse render (ecURL cfg) (convertFilePath cfg) of
        Inl e \<Rightarrow> (Inl e, [])
      | Inr target \<Rightarrow>
          (case parse target of
             Inl e \<Rightarrow> (Inl e, [])
           | Inr _ \<Rightarrow>
               docling_do rt \<lparr>oqMethod = ''POST'', oqURL = target,
                 oqHeader = docling_header nm cfg (''multipart/form-data; boundary='' @ boundary) req,
                 oqBody = MultipartBody (docling_parts cfg req)\<rparr>))"

definition buildSourceJSON :: "ConvertRequest \<Rightarrow> string" where
  "buildSourceJSON req =
     json_Marshal (JObj
       ((if Sources req = [] then [] else
          [(''http_sources'', JArr (map (\<lambda>s. JObj ((''url'', JStr (srcURL s)) #
              (if srcHeaders s = [] then [] else [(''headers'', jsonMap (map (\<lambda>(k, v). (k, JStr v)) (srcHeaders s)))]))) (Sources req)))])
        @ (if Options req = [] then [] else [(''options'', jsonMap (map (\<lambda>(k, v). (k, JStr v)) (Options req)))])))"

definition docling_convertSource ::
  "(string \<Rightarrow> URL result) \<Rightarrow> (URL \<Rightarrow> string) \<Rightarrow> string \<Rightarrow> EngineConfig \<Rightarrow> roundTrip \<Rightarrow> ConvertRequest \<Rightarrow>
   ConvertResponse result \<times> outReq list" where
  "docling_convertSource parse render nm cfg rt req =
     (case JoinURL parse render (ecURL cfg) (convertSourcePath cfg) of
        Inl e \<Rightarrow> (Inl e, [])
      | Inr target \<Rightarrow>
          (case parse target of
             Inl e \<Rightarrow> (Inl e, [])
           | Inr _ \<Rightarrow>
               docling_do rt \<lparr>oqMethod = ''POST'', oqURL = target, oqHeader = docling_header nm cfg ''application/json'' req,
                 oqBody = RawBody (buildSourceJSON req)\<rparr>))"

definition docling_Convert ::
  "(string \<Rightarrow> URL result) \<Rightarrow> (URL \<Rightarrow> string) \<Rightarrow> string \<Rightarrow> string \<Rightarrow> EngineConfig \<Rightarrow> roundTrip \<Rightarrow> ConvertRequest \<Rightarrow>
   ConvertResponse result \<times> outReq list" where
  "docling_Convert parse render boundary nm cfg rt req =
     (if Sources req \<noteq> [] then docling_convertSource parse render nm cfg rt req
      else docling_convertFile parse render boundary nm cfg rt req)"

section \<open>The external adapter\<close>

definition external_Capabilities :: EngineCapabilities where
  "external_Capabilities = \<lparr>Facades = [FacadeExternal], HTTPSources = False\<rparr>"

definition processPath :: "EngineConfig \<Rightarrow> string" where
  "processPath cfg = pathOr cfg ''process'' ''/process''"

text \<open>\<^verbatim>\<open>url.PathEscape\<close>.\<close>

definition pathSegmentByte :: "char \<Rightarrow> bool" where
  "pathSegmentByte c = (let b = byte_of c in (48 \<le> b \<and> b \<le> 57) \<or> (65 \<le> b \<and> b \<le> 90) \<or> (97 \<le> b \<and> b \<le> 122)
     \<or> b \<in> {36, 38, 43, 45, 46, 58, 61, 64, 95, 126})"

definition upper_nibble :: "nat \<Rightarrow> char" where
  "upper_nibble n = char_of (if n < 10 then 48 + n else 55 + n)"

definition PathEscape :: "string \<Rightarrow> string" where
  "PathEscape s = concat (map (\<lambda>c. if pathSegmentByte c then [c]
      else [CHR ''%'', upper_nibble (byte_of c div 16), upper_nibble (byte_of c mod 16)]) s)"

definition json_response :: "int \<Rightarrow> string \<Rightarrow> ConvertResponse" where
  "json_response status body = \<lparr>StatusCode = status, respHeaders = header_Set [] ''Content-Type'' ''application/json'',
     respBody = \<lparr>srcData = body, srcErr = None\<rparr>\<rparr>"

definition external_jsonError :: "int \<Rightarrow> string \<Rightarrow> ConvertResponse" where
  "external_jsonError status msg = json_response status (marshalExternalError (NewExternalError msg))"

definition external_header :: "string \<Rightarrow> EngineConfig \<Rightarrow> ConvertRequest \<Rightarrow> FileBlob \<Rightarrow> Header" where
  "external_header nm cfg req f =
     (let h = fst (snd (ApplyMulti (header_Set (header_Set [] ''Content-Type'' (SafeOutboundMIME (ContentType f)))
                                      ''X-Filename'' (PathEscape (SafeFilename (Filename f)))) nm cfg))
      in if RequestID req \<noteq> [] then header_Set h ''X-Request-ID'' (RequestID req) else h)"

definition callOnce ::
  "(string \<Rightarrow> URL result) \<Rightarrow> (URL \<Rightarrow> string) \<Rightarrow> string \<Rightarrow> EngineConfig \<Rightarrow> roundTrip \<Rightarrow> nat \<Rightarrow> ConvertRequest \<Rightarrow> FileBlob \<Rightarrow>
   ConvertResponse result \<times> outReq list" where
  "callOnce parse render nm cfg rt n req f =
     (case JoinURL parse render (ecURL cfg) (processPath cfg) of
        Inl e \<Rightarrow> (Inl e, [])
      | Inr target \<Rightarrow>
          (case parse target of
             Inl e \<Rightarrow> (Inl e, [])
           | Inr _ \<Rightarrow>
               (let hreq = \<lparr>oqMethod = ''PUT'', oqURL = target, oqHeader = external_header nm cfg req f,
                            oqBody = RawBody (bodyBytes (blobBody f))\<rparr>
                in (rt n hreq, [hreq]))))"

record externalDoc =
  xdPageContent :: string
  xdMetadata :: "(string, json) gomap"

text \<open>\<^verbatim>\<open>decodeExternalResponse\<close>; the decoders answer for an array and for an object.\<close>

definition decodeExternalResponse ::
  "(string \<Rightarrow> externalDoc list result) \<Rightarrow> (string \<Rightarrow> externalDoc result) \<Rightarrow> string \<Rightarrow> externalDoc list result" where
  "decodeExternalResponse decArr decObj raw0 =
     (case TrimSpace raw0 of
        [] \<Rightarrow> Inr [\<lparr>xdPageContent = [], xdMetadata = []\<rparr>]
      | c # cs \<Rightarrow>
          (if c = CHR ''['' then decArr (c # cs)
           else if c = CHR ''{'' then (case decObj (c # cs) of Inl e \<Rightarrow> Inl e | Inr d \<Rightarrow> Inr [d])
           else Inr [\<lparr>xdPageContent = c # cs, xdMetadata = []\<rparr>]))"

definition externalDocJSON :: "externalDoc \<Rightarrow> json" where
  "externalDocJSON d = JObj ((''page_content'', JStr (xdPageContent d)) #
     (if xdMetadata d = [] then [] else [(''metadata'', jsonMap (xdMetadata d))]))"

text \<open>The loop of \<^verbatim>\<open>callBatched\<close>: a response that ends it early, or the documents.\<close>

fun batchLoop ::
  "(string \<Rightarrow> externalDoc list result) \<Rightarrow> (string \<Rightarrow> externalDoc result) \<Rightarrow> (nat \<Rightarrow> FileBlob \<Rightarrow> ConvertResponse result \<times> outReq list) \<Rightarrow>
   nat \<Rightarrow> externalDoc list \<Rightarrow> FileBlob list \<Rightarrow> (ConvertResponse + externalDoc list) result \<times> outReq list" where
  "batchLoop decArr decObj call n docs [] = (Inr (Inr docs), [])"
| "batchLoop decArr decObj call n docs (f # fs) =
     (case call n f of
        (Inl e, qs) \<Rightarrow> (Inl e, qs)
      | (Inr one, qs) \<Rightarrow>
          (if StatusCode one \<ge> 400 then (Inr (Inl one), qs)
           else case srcErr (respBody one) of
                  Some e \<Rightarrow> (Inl e, qs)
                | None \<Rightarrow>
                    (case decodeExternalResponse decArr decObj (srcData (respBody one)) of
                       Inl e \<Rightarrow> (Inl e, qs)
                     | Inr parsed \<Rightarrow>
                         (case batchLoop decArr decObj call (Suc n) (docs @ parsed) fs of (r, qs') \<Rightarrow> (r, qs @ qs')))))"

definition callBatched ::
  "(string \<Rightarrow> URL result) \<Rightarrow> (URL \<Rightarrow> string) \<Rightarrow> (string \<Rightarrow> externalDoc list result) \<Rightarrow> (string \<Rightarrow> externalDoc result) \<Rightarrow> string \<Rightarrow>
   EngineConfig \<Rightarrow> roundTrip \<Rightarrow> ConvertRequest \<Rightarrow> ConvertResponse result \<times> outReq list" where
  "callBatched parse render decArr decObj nm cfg rt req =
     (case batchLoop decArr decObj (\<lambda>n f. callOnce parse render nm cfg rt n req f) 0 [] (Files req) of
        (Inl e, qs) \<Rightarrow> (Inl e, qs)
      | (Inr (Inl one), qs) \<Rightarrow> (Inr one, qs)
      | (Inr (Inr docs), qs) \<Rightarrow> (Inr (json_response 200 (json_Marshal (JArr (map externalDocJSON docs)))), qs))"

definition external_Convert ::
  "(string \<Rightarrow> URL result) \<Rightarrow> (URL \<Rightarrow> string) \<Rightarrow> (string \<Rightarrow> externalDoc list result) \<Rightarrow> (string \<Rightarrow> externalDoc result) \<Rightarrow> string \<Rightarrow>
   EngineConfig \<Rightarrow> roundTrip \<Rightarrow> ConvertRequest \<Rightarrow> ConvertResponse result \<times> outReq list" where
  "external_Convert parse render decArr decObj nm cfg rt req =
     (if Sources req \<noteq> [] then (Inr (external_jsonError 501 ''external: http_sources not supported''), [])
      else case Files req of
             [] \<Rightarrow> (Inr (external_jsonError 400 ''no files in request''), [])
           | [f] \<Rightarrow> callOnce parse render nm cfg rt 0 req f
           | _ \<Rightarrow> callBatched parse render decArr decObj nm cfg rt req)"

section \<open>The docling-external adapter\<close>

definition composite_Capabilities :: EngineCapabilities where
  "composite_Capabilities = \<lparr>Facades = [FacadeDocling, FacadeExternal], HTTPSources = True\<rparr>"

definition composite_Convert ::
  "(string \<Rightarrow> URL result) \<Rightarrow> (URL \<Rightarrow> string) \<Rightarrow> string \<Rightarrow> (string \<Rightarrow> externalDoc list result) \<Rightarrow> (string \<Rightarrow> externalDoc result) \<Rightarrow> string \<Rightarrow>
   EngineConfig \<Rightarrow> roundTrip \<Rightarrow> ConvertRequest \<Rightarrow> ConvertResponse result \<times> outReq list" where
  "composite_Convert parse render boundary decArr decObj nm cfg rt req =
     (if reqFacade req = FacadeDocling then docling_Convert parse render boundary nm cfg rt req
      else if reqFacade req = FacadeExternal then external_Convert parse render decArr decObj nm cfg rt req
      else (Inl (plain_error (''docling-external: unknown facade '' @ go_quote (reqFacade req))), []))"

section \<open>The Tika adapter\<close>

definition tika_Capabilities :: EngineCapabilities where
  "tika_Capabilities = \<lparr>Facades = [FacadeDocling, FacadeExternal], HTTPSources = False\<rparr>"

definition tikaTextPath :: "EngineConfig \<Rightarrow> string" where
  "tikaTextPath cfg = pathOr cfg ''text'' ''/tika/text''"

type_synonym tikaItem = "(string, json) gomap"

record item =
  itFilename :: string
  itMdContent :: string
  itTextContent :: string
  itMetadata :: "(string, json) gomap"

fun mergeContent :: "string \<Rightarrow> tikaItem list \<Rightarrow> string" where
  "mergeContent content [] = content"
| "mergeContent content (it # its) =
     (case map_of it ''X-TIKA:content'' of
        Some (JStr v) \<Rightarrow> mergeContent ((if content \<noteq> [] then content @ [CHR 0x0A, CHR 0x0A] else content) @ v) its
      | _ \<Rightarrow> mergeContent content its)"

definition mergeTikaItems :: "tikaItem list \<Rightarrow> string \<Rightarrow> item" where
  "mergeTikaItems items filename =
     (let content = mergeContent [] items in
      \<lparr>itFilename = filename, itMdContent = content, itTextContent = content,
       itMetadata = (case items of [] \<Rightarrow> [] | it # _ \<Rightarrow> filter (\<lambda>kv. fst kv \<noteq> ''X-TIKA:content'') it)\<rparr>)"

definition tikaSpace :: "char \<Rightarrow> bool" where
  "tikaSpace c = (byte_of c \<in> {32, 9, 13, 10})"

text \<open>\<^verbatim>\<open>decodeTikaResponse\<close>; the decoders answer for the array and the object at the head of the rest of the stream.\<close>

definition decodeTikaResponse ::
  "(src \<Rightarrow> tikaItem list result) \<Rightarrow> (src \<Rightarrow> tikaItem result) \<Rightarrow> src \<Rightarrow> string \<Rightarrow> item result" where
  "decodeTikaResponse decArr decObj body filename =
     (case dropWhile tikaSpace (srcData body) of
        [] \<Rightarrow> (case srcErr body of
                 Some e \<Rightarrow> Inl e
               | None \<Rightarrow> Inr \<lparr>itFilename = filename, itMdContent = [], itTextContent = [], itMetadata = []\<rparr>)
      | b # rest \<Rightarrow>
          (if b = CHR ''['' then
             (case decArr (body\<lparr>srcData := b # rest\<rparr>) of Inl e \<Rightarrow> Inl e | Inr items \<Rightarrow> Inr (mergeTikaItems items filename))
           else if b = CHR ''{'' then
             (case decObj (body\<lparr>srcData := b # rest\<rparr>) of Inl e \<Rightarrow> Inl e | Inr single \<Rightarrow> Inr (mergeTikaItems [single] filename))
           else
             (case srcErr body of
                Some e \<Rightarrow> Inl e
              | None \<Rightarrow> Inr \<lparr>itFilename = filename, itMdContent = b # rest, itTextContent = b # rest, itMetadata = []\<rparr>)))"

definition tika_header :: "string \<Rightarrow> EngineConfig \<Rightarrow> FileBlob \<Rightarrow> Header" where
  "tika_header nm cfg f =
     (let h = fst (snd (ApplyMulti (header_Set (header_Set [] ''Content-Type'' (SafeOutboundMIME (ContentType f))) ''Accept'' ''application/json'') nm cfg))
      in if map_of (ecForwardOptions cfg) ''x_tika_pdf_extract_inline_images'' = Some ''true''
         then header_Set h ''X-Tika-PDFextractInlineImages'' ''true'' else h)"

definition convertOne ::
  "(string \<Rightarrow> URL result) \<Rightarrow> (URL \<Rightarrow> string) \<Rightarrow> (src \<Rightarrow> tikaItem list result) \<Rightarrow> (src \<Rightarrow> tikaItem result) \<Rightarrow> string \<Rightarrow> EngineConfig \<Rightarrow>
   roundTrip \<Rightarrow> nat \<Rightarrow> FileBlob \<Rightarrow> (int + item) result \<times> outReq list" where
  "convertOne parse render decArr decObj nm cfg rt n f =
     (case JoinURL parse render (ecURL cfg) (tikaTextPath cfg) of
        Inl e \<Rightarrow> (Inl e, [])
      | Inr target \<Rightarrow>
          (case parse target of
             Inl e \<Rightarrow> (Inl e, [])
           | Inr _ \<Rightarrow>
               (let hreq = \<lparr>oqMethod = ''PUT'', oqURL = target, oqHeader = tika_header nm cfg f, oqBody = RawBody (bodyBytes (blobBody f))\<rparr>
                in case rt n hreq of
                     Inl e \<Rightarrow> (Inl e, [hreq])
                   | Inr resp \<Rightarrow>
                       (if StatusCode resp \<ge> 400 then (Inr (Inl (StatusCode resp)), [hreq])
                        else case decodeTikaResponse decArr decObj (respBody resp) (Filename f) of
                               Inl e \<Rightarrow> (Inl e, [hreq])
                             | Inr doc \<Rightarrow> (Inr (Inr doc), [hreq])))))"

definition tika_jsonError :: "Facade \<Rightarrow> int \<Rightarrow> string \<Rightarrow> ConvertResponse" where
  "tika_jsonError facade status msg =
     json_response status (if facade = FacadeExternal then marshalExternalError (NewExternalError msg)
                           else marshalDoclingError (NewDoclingError msg))"

definition itemJSON :: "item \<Rightarrow> json" where
  "itemJSON it = JObj
     ((if itFilename it = [] then [] else [(''filename'', JStr (itFilename it))])
      @ [(''md_content'', JStr (itMdContent it))]
      @ (if itTextContent it = [] then [] else [(''text_content'', JStr (itTextContent it))])
      @ (if itMetadata it = [] then [] else [(''metadata'', jsonMap (itMetadata it))]))"

definition wrapDoclingResponse :: "item list \<Rightarrow> ConvertResponse" where
  "wrapDoclingResponse items = json_response 200 (json_Marshal (JObj
     ((case items of
         [] \<Rightarrow> []
       | [d] \<Rightarrow> [(''document'', itemJSON d)]
       | _ \<Rightarrow> [(''documents'', JArr (map itemJSON items))])
      @ [(''status'', JStr (if items = [] then ''failure'' else ''success'')), (''processing_time'', JNum ''0''),
         (''errors'', JArr (if items = [] then [JStr ''no documents produced''] else []))])))"

definition externalItem :: "item \<Rightarrow> json" where
  "externalItem it =
     JObj [(''page_content'', JStr (itMdContent it)),
           (''metadata'', jsonMap (if itFilename it \<noteq> [] then map_put ''filename'' (JStr (itFilename it)) (itMetadata it) else itMetadata it))]"

definition wrapExternalResponse :: "item list \<Rightarrow> ConvertResponse" where
  "wrapExternalResponse items =
     json_response 200 (case items of [d] \<Rightarrow> json_Marshal (externalItem d) | _ \<Rightarrow> json_Marshal (JArr (map externalItem items)))"

text \<open>The loop over the files: an error, a response that ends it, or the documents.\<close>

fun tikaLoop ::
  "(nat \<Rightarrow> FileBlob \<Rightarrow> (int + item) result \<times> outReq list) \<Rightarrow> Facade \<Rightarrow> nat \<Rightarrow> item list \<Rightarrow> FileBlob list \<Rightarrow>
   (ConvertResponse + item list) result \<times> outReq list" where
  "tikaLoop one facade n results [] = (Inr (Inr results), [])"
| "tikaLoop one facade n results (f # fs) =
     (case one n f of
        (Inl e, qs) \<Rightarrow> (Inl e, qs)
      | (Inr (Inl status), qs) \<Rightarrow>
          (Inr (Inl (tika_jsonError facade status (''tika upstream error: '' @ show_int status @ '' on '' @ go_quote (Filename f)))), qs)
      | (Inr (Inr doc), qs) \<Rightarrow> (case tikaLoop one facade (Suc n) (results @ [doc]) fs of (r, qs') \<Rightarrow> (r, qs @ qs')))"

definition tika_Convert ::
  "(string \<Rightarrow> URL result) \<Rightarrow> (URL \<Rightarrow> string) \<Rightarrow> (src \<Rightarrow> tikaItem list result) \<Rightarrow> (src \<Rightarrow> tikaItem result) \<Rightarrow> string \<Rightarrow> EngineConfig \<Rightarrow>
   roundTrip \<Rightarrow> ConvertRequest \<Rightarrow> ConvertResponse result \<times> outReq list" where
  "tika_Convert parse render decArr decObj nm cfg rt req =
     (if Sources req \<noteq> [] then (Inr (tika_jsonError (reqFacade req) 501 ''tika does not support http_sources; upload files instead''), [])
      else if Files req = [] then (Inr (tika_jsonError (reqFacade req) 400 ''no files in request''), [])
      else case tikaLoop (\<lambda>n f. convertOne parse render decArr decObj nm cfg rt n f) (reqFacade req) 0 [] (Files req) of
             (Inl e, qs) \<Rightarrow> (Inl e, qs)
           | (Inr (Inl resp), qs) \<Rightarrow> (Inr resp, qs)
           | (Inr (Inr results), qs) \<Rightarrow>
               (Inr (if reqFacade req = FacadeExternal then wrapExternalResponse results else wrapDoclingResponse results), qs))"

section \<open>Health probes\<close>

definition probe :: "(string \<Rightarrow> URL result) \<Rightarrow> (URL \<Rightarrow> string) \<Rightarrow> EngineConfig \<Rightarrow> string \<Rightarrow> string \<Rightarrow> (string \<Rightarrow> int result) \<Rightarrow> go_error option" where
  "probe parse render cfg label dflt get =
     (case JoinURL parse render (ecURL cfg) (if ecHealthPath cfg = [] then dflt else ecHealthPath cfg) of
        Inl e \<Rightarrow> Some e
      | Inr u \<Rightarrow> (case parse u of
                    Inl e \<Rightarrow> Some e
                  | Inr _ \<Rightarrow> (case get u of
                               Inl e \<Rightarrow> Some e
                             | Inr status \<Rightarrow> (if status \<ge> 500 then Some (plain_error (label @ '' health: status '' @ show_int status)) else None))))"

definition docling_Health :: "(string \<Rightarrow> URL result) \<Rightarrow> (URL \<Rightarrow> string) \<Rightarrow> EngineConfig \<Rightarrow> (string \<Rightarrow> int result) \<Rightarrow> go_error option" where
  "docling_Health parse render cfg get = probe parse render cfg ''docling'' ''/health'' get"

definition external_Health :: "(string \<Rightarrow> URL result) \<Rightarrow> (URL \<Rightarrow> string) \<Rightarrow> EngineConfig \<Rightarrow> (string \<Rightarrow> int result) \<Rightarrow> go_error option" where
  "external_Health parse render cfg get = probe parse render cfg ''external'' ''/health'' get"

definition tika_Health :: "(string \<Rightarrow> URL result) \<Rightarrow> (URL \<Rightarrow> string) \<Rightarrow> EngineConfig \<Rightarrow> (string \<Rightarrow> int result) \<Rightarrow> go_error option" where
  "tika_Health parse render cfg get = probe parse render cfg ''tika'' ''/version'' get"

definition composite_Health :: "(string \<Rightarrow> URL result) \<Rightarrow> (URL \<Rightarrow> string) \<Rightarrow> EngineConfig \<Rightarrow> (string \<Rightarrow> int result) \<Rightarrow> go_error option" where
  "composite_Health parse render cfg get =
     (case docling_Health parse render cfg get of
        Some e \<Rightarrow> Some (wrap_error ''docling child: '' e)
      | None \<Rightarrow> (case external_Health parse render cfg get of Some e \<Rightarrow> Some (wrap_error ''external child: '' e) | None \<Rightarrow> None))"

section \<open>Construction\<close>

text \<open>An adapter value is its kind with its name and configuration; the shared client and breaker are behind
  \<^verbatim>\<open>roundTrip\<close>.\<close>

datatype adapterKind = DoclingAdapter | ExternalAdapter | TikaAdapter | CompositeAdapter

record Adapter =
  adKind :: adapterKind
  adName :: string
  adCfg :: EngineConfig

definition adapter_New :: "adapterKind \<Rightarrow> string \<Rightarrow> string \<Rightarrow> EngineConfig \<Rightarrow> Adapter result" where
  "adapter_New kind label nm cfg =
     (if ecURL cfg = [] then Inl (plain_error (label @ '': url is required'')) else Inr \<lparr>adKind = kind, adName = nm, adCfg = cfg\<rparr>)"

definition docling_New :: "string \<Rightarrow> EngineConfig \<Rightarrow> Adapter result" where
  "docling_New nm cfg = adapter_New DoclingAdapter ''docling'' nm cfg"

definition external_New :: "string \<Rightarrow> EngineConfig \<Rightarrow> Adapter result" where
  "external_New nm cfg = adapter_New ExternalAdapter ''external'' nm cfg"

definition tika_New :: "string \<Rightarrow> EngineConfig \<Rightarrow> Adapter result" where
  "tika_New nm cfg = adapter_New TikaAdapter ''tika'' nm cfg"

definition composite_New :: "string \<Rightarrow> EngineConfig \<Rightarrow> Adapter result" where
  "composite_New nm cfg =
     (case adapter_New CompositeAdapter ''docling-external'' nm cfg of
        Inl e \<Rightarrow> Inl e
      | Inr a \<Rightarrow>
          (case docling_New nm cfg of
             Inl e \<Rightarrow> Inl (wrap_error ''docling-external: docling child: '' e)
           | Inr _ \<Rightarrow> (case external_New nm cfg of
                          Inl e \<Rightarrow> Inl (wrap_error ''docling-external: external child: '' e)
                        | Inr _ \<Rightarrow> Inr a)))"

definition newAdapterByCompat :: "string \<Rightarrow> EngineConfig \<Rightarrow> Adapter result" where
  "newAdapterByCompat nm ec =
     (if ecCompatType ec = CompatDocling then docling_New nm ec
      else if ecCompatType ec = CompatExternal then external_New nm ec
      else if ecCompatType ec = CompatTika then tika_New nm ec
      else if ecCompatType ec = CompatDoclingExternal then composite_New nm ec
      else Inl (plain_error (''unknown compat_type '' @ go_quote (ecCompatType ec))))"

text \<open>The methods of the interface \<^verbatim>\<open>engine.Engine\<close>, dispatched on the adapter.\<close>

record codecs =
  cdBoundary :: string
  cdExtArr :: "string \<Rightarrow> externalDoc list result"
  cdExtObj :: "string \<Rightarrow> externalDoc result"
  cdTikaArr :: "src \<Rightarrow> tikaItem list result"
  cdTikaObj :: "src \<Rightarrow> tikaItem result"

definition engine_Capabilities :: "Adapter \<Rightarrow> EngineCapabilities" where
  "engine_Capabilities a = (case adKind a of DoclingAdapter \<Rightarrow> docling_Capabilities | ExternalAdapter \<Rightarrow> external_Capabilities
     | TikaAdapter \<Rightarrow> tika_Capabilities | CompositeAdapter \<Rightarrow> composite_Capabilities)"

definition engine_Convert ::
  "(string \<Rightarrow> URL result) \<Rightarrow> (URL \<Rightarrow> string) \<Rightarrow> codecs \<Rightarrow> Adapter \<Rightarrow> roundTrip \<Rightarrow> ConvertRequest \<Rightarrow> ConvertResponse result \<times> outReq list" where
  "engine_Convert parse render cd a rt req =
     (case adKind a of
        DoclingAdapter \<Rightarrow> docling_Convert parse render (cdBoundary cd) (adName a) (adCfg a) rt req
      | ExternalAdapter \<Rightarrow> external_Convert parse render (cdExtArr cd) (cdExtObj cd) (adName a) (adCfg a) rt req
      | TikaAdapter \<Rightarrow> tika_Convert parse render (cdTikaArr cd) (cdTikaObj cd) (adName a) (adCfg a) rt req
      | CompositeAdapter \<Rightarrow> composite_Convert parse render (cdBoundary cd) (cdExtArr cd) (cdExtObj cd) (adName a) (adCfg a) rt req)"

definition engine_Health :: "(string \<Rightarrow> URL result) \<Rightarrow> (URL \<Rightarrow> string) \<Rightarrow> Adapter \<Rightarrow> (string \<Rightarrow> int result) \<Rightarrow> go_error option" where
  "engine_Health parse render a get =
     (case adKind a of DoclingAdapter \<Rightarrow> docling_Health parse render (adCfg a) get
      | ExternalAdapter \<Rightarrow> external_Health parse render (adCfg a) get
      | TikaAdapter \<Rightarrow> tika_Health parse render (adCfg a) get
      | CompositeAdapter \<Rightarrow> composite_Health parse render (adCfg a) get)"

end
