(* ===== verification/Adapter_Contract.thy ===== *)
theory Adapter_Contract
  imports Adapters
begin

text \<open>
  The contract the handlers and the worker rely on when they call an engine, as the locale \<^verbatim>\<open>engine_adapter\<close>, and
  its interpretation on each of the four adapters: where requests go, what they carry, what is refused, and what an
  unreachable backend turns into.
\<close>

section \<open>What an outbound request carries\<close>

definition fileMark :: string where
  "fileMark = ''form-data; name='' @ go_quote ''files'' @ ''; filename=''"

text \<open>The file bodies a receiver finds in a request.\<close>

definition filePayloads :: "outReq \<Rightarrow> string list" where
  "filePayloads q = (case oqBody q of RawBody b \<Rightarrow> [b] | MultipartBody ps \<Rightarrow> map opData (filter (\<lambda>p. HasPrefix (opDisposition p) fileMark) ps))"

definition uploads :: "ConvertRequest \<Rightarrow> string list" where
  "uploads req = map (\<lambda>f. bodyBytes (blobBody f)) (Files req)"

definition targetsOf :: "(string \<Rightarrow> URL result) \<Rightarrow> (URL \<Rightarrow> string) \<Rightarrow> string list \<Rightarrow> EngineConfig \<Rightarrow> string set" where
  "targetsOf parse render ps cfg = {u. \<exists>p \<in> set ps. JoinURL parse render (ecURL cfg) p = Inr u}"

text \<open>An escaped field name ends at the first bare quote.\<close>

lemma escaped_field_quote:
  assumes "concat (map escapeFieldByte k) @ [CHR 0x22] = u @ CHR 0x22 # r" "CHR 0x22 \<notin> set u" "CHR 0x5C \<notin> set u"
  shows "r = []"
  using assms
proof (induction k arbitrary: u)
  case Nil
  then show ?case by (cases u) auto
next
  case (Cons c k)
  show ?case
  proof (cases "c = CHR 0x22 \<or> c = CHR 0x5C")
    case True
    then obtain w where "escapeFieldByte c = CHR 0x5C # w" by (auto simp: escapeFieldByte_def escapeByte_def)
    with Cons.prems(1) have "u @ CHR 0x22 # r = CHR 0x5C # (w @ concat (map escapeFieldByte k) @ [CHR 0x22])" by simp
    with Cons.prems(3) show ?thesis by (cases u) auto
  next
    case False
    then have q: "CHR 0x22 \<notin> set (escapeFieldByte c)" by (auto simp: escapeFieldByte_def escapeByte_def)
    have e: "escapeFieldByte c @ (concat (map escapeFieldByte k) @ [CHR 0x22]) = u @ CHR 0x22 # r"
      using Cons.prems(1) by simp
    then obtain us where "(escapeFieldByte c @ us = u \<and> concat (map escapeFieldByte k) @ [CHR 0x22] = us @ CHR 0x22 # r)
        \<or> (escapeFieldByte c = u @ us \<and> us @ concat (map escapeFieldByte k) @ [CHR 0x22] = CHR 0x22 # r)"
      unfolding append_eq_append_conv2 by blast
    then show ?thesis
    proof
      assume a: "escapeFieldByte c @ us = u \<and> concat (map escapeFieldByte k) @ [CHR 0x22] = us @ CHR 0x22 # r"
      then have "CHR 0x22 \<notin> set us" "CHR 0x5C \<notin> set us" using Cons.prems(2,3) by auto
      with a show ?thesis using Cons.IH[of us] by blast
    next
      assume a: "escapeFieldByte c = u @ us \<and> us @ concat (map escapeFieldByte k) @ [CHR 0x22] = CHR 0x22 # r"
      show ?thesis
      proof (cases us)
        case Nil
        with a have "concat (map escapeFieldByte k) @ [CHR 0x22] = [] @ CHR 0x22 # r" by simp
        then show ?thesis using Cons.IH[of "[]"] by simp
      next
        case (Cons d us')
        with a have "d = CHR 0x22" by simp
        with a Cons q show ?thesis by simp
      qed
    qed
  qed
qed

lemma field_is_no_file: "\<not> HasPrefix (opDisposition (WriteField k v)) fileMark"
proof
  assume "HasPrefix (opDisposition (WriteField k v)) fileMark"
  then obtain r where "opDisposition (WriteField k v) = fileMark @ r" by (auto simp: HasPrefix_iff)
  moreover have "fileMark = ''form-data; name='' @ CHR 0x22 # ''files'' @ CHR 0x22 # ''; filename=''" by code_simp
  ultimately have "opDisposition (WriteField k v) = (''form-data; name='' @ CHR 0x22 # ''files'' @ CHR 0x22 # ''; filename='') @ r"
    by (simp only:)
  then have "concat (map escapeFieldByte k) @ [CHR 0x22] = ''files'' @ CHR 0x22 # (''; filename='' @ r)"
    by (simp add: WriteField_def)
  from escaped_field_quote[OF this] show False by simp
qed

lemma file_is_file: "HasPrefix (opDisposition (CreateFilePart ''files'' f ct d)) fileMark" "opData (CreateFilePart fld f ct d) = d"
  by (simp_all add: CreateFilePart_def fileMark_def Let_def HasPrefix_iff)

lemma docling_payloads: "oqBody q = MultipartBody (docling_parts cfg req) \<Longrightarrow> filePayloads q = uploads req"
proof -
  have f: "filter (\<lambda>p. HasPrefix (opDisposition p) fileMark) (map (\<lambda>(k, v). WriteField k v) m) = []" for m
    by (induction m) (auto simp: field_is_no_file)
  have g: "map opData (filter (\<lambda>p. HasPrefix (opDisposition p) fileMark)
      (map (\<lambda>f. CreateFilePart ''files'' (Filename f) (ContentType f) (bodyBytes (blobBody f))) fs))
      = map (\<lambda>f. bodyBytes (blobBody f)) fs" for fs
    by (induction fs) (simp_all only: list.map filter.simps file_is_file if_True)
  assume "oqBody q = MultipartBody (docling_parts cfg req)"
  then show ?thesis by (simp only: filePayloads_def docling_parts_def outBody.case filter_append map_append f g uploads_def
      append_Nil2 list.map)
qed

section \<open>The per-file loops\<close>

text \<open>One call of a loop body: the file's bytes to a target, or an error before anything is sent.\<close>

definition sends_one :: "string set \<Rightarrow> (nat \<Rightarrow> FileBlob \<Rightarrow> 'r result \<times> outReq list) \<Rightarrow> bool" where
  "sends_one T call \<longleftrightarrow> (\<forall>n f. (\<exists>q. snd (call n f) = [q] \<and> filePayloads q = [bodyBytes (blobBody f)] \<and> oqURL q \<in> T)
      \<or> (snd (call n f) = [] \<and> isl (fst (call n f))))"

text \<open>What a loop has sent of the files: some prefix of them, to the targets only.\<close>

definition sent_prefix :: "string set \<Rightarrow> FileBlob list \<Rightarrow> outReq list \<Rightarrow> bool" where
  "sent_prefix T fs qs \<longleftrightarrow> oqURL ` set qs \<subseteq> T \<and> (\<exists>m. concat (map filePayloads qs) = take m (map (\<lambda>f. bodyBytes (blobBody f)) fs))"

definition sent_all :: "FileBlob list \<Rightarrow> outReq list \<Rightarrow> bool" where
  "sent_all fs qs \<longleftrightarrow> concat (map filePayloads qs) = map (\<lambda>f. bodyBytes (blobBody f)) fs"

lemma sent_prefix_Nil [simp]: "sent_prefix T fs []"
  by (auto simp: sent_prefix_def intro: exI[of _ 0])

lemma sent_prefix_one [simp]:
  "oqURL q \<in> T \<Longrightarrow> filePayloads q = [bodyBytes (blobBody f)] \<Longrightarrow> sent_prefix T (f # fs) [q]"
  by (auto simp: sent_prefix_def intro: exI[of _ 1])

lemma sent_prefix_Cons:
  "oqURL q \<in> T \<Longrightarrow> filePayloads q = [bodyBytes (blobBody f)] \<Longrightarrow> sent_prefix T fs qs \<Longrightarrow> sent_prefix T (f # fs) (q # qs)"
  by (fastforce simp: sent_prefix_def intro: exI[of _ "Suc _"])

lemma sends_oneE:
  assumes "sends_one T call" "call n f = (r, qs)"
  obtains q where "qs = [q]" "filePayloads q = [bodyBytes (blobBody f)]" "oqURL q \<in> T" | e where "qs = []" "r = Inl e"
proof -
  have "(\<exists>q. qs = [q] \<and> filePayloads q = [bodyBytes (blobBody f)] \<and> oqURL q \<in> T) \<or> (qs = [] \<and> isl r)"
    using assms by (metis sends_one_def fst_conv snd_conv)
  then show thesis using that by (cases r) auto
qed

lemma batchLoop_sent:
  assumes "sends_one T call" "batchLoop decArr decObj call n docs fs = (r, qs)"
  shows "sent_prefix T fs qs \<and> (\<forall>one. r = Inr (Inl one) \<longrightarrow> StatusCode one \<ge> 400) \<and> (\<forall>ds. r = Inr (Inr ds) \<longrightarrow> sent_all fs qs)"
  using assms(2)
proof (induction fs arbitrary: n docs r qs)
  case (Cons f fs)
  obtain r1 qs1 where c: "call n f = (r1, qs1)" by fastforce
  from assms(1) c show ?case
  proof (cases rule: sends_oneE)
    case (1 q)
    show ?thesis
    proof (cases "\<exists>one parsed. r1 = Inr one \<and> StatusCode one < 400 \<and> srcErr (respBody one) = None
        \<and> decodeExternalResponse decArr decObj (srcData (respBody one)) = Inr parsed")
      case True
      then obtain one parsed where o: "r1 = Inr one" "StatusCode one < 400" "srcErr (respBody one) = None"
        "decodeExternalResponse decArr decObj (srcData (respBody one)) = Inr parsed" by blast
      obtain r2 qs2 where l: "batchLoop decArr decObj call (Suc n) (docs @ parsed) fs = (r2, qs2)" by fastforce
      have "r = r2" "qs = q # qs2" using Cons.prems o l c 1 by auto
      with Cons.IH[OF l] 1 show ?thesis by (auto simp: sent_all_def intro: sent_prefix_Cons)
    next
      case False
      with Cons.prems c 1 have "qs = [q]" "(\<forall>one. r = Inr (Inl one) \<longrightarrow> StatusCode one \<ge> 400)" "\<forall>ds. r \<noteq> Inr (Inr ds)"
        by (auto split: sum.splits if_splits option.splits)
      with 1 show ?thesis by simp
    qed
  next
    case (2 e)
    with Cons.prems c show ?thesis by auto
  qed
qed (auto simp: sent_all_def)

lemma tikaLoop_sent:
  assumes "sends_one T call" "\<And>n f st. fst (call n f) = Inr (Inl st) \<Longrightarrow> st \<ge> 400" "tikaLoop call facade n results fs = (r, qs)"
  shows "sent_prefix T fs qs \<and> (\<forall>one. r = Inr (Inl one) \<longrightarrow> StatusCode one \<ge> 400) \<and> (\<forall>ds. r = Inr (Inr ds) \<longrightarrow> sent_all fs qs)"
  using assms(3)
proof (induction fs arbitrary: n results r qs)
  case (Cons f fs)
  obtain r1 qs1 where c: "call n f = (r1, qs1)" by fastforce
  from assms(1) c show ?case
  proof (cases rule: sends_oneE)
    case (1 q)
    show ?thesis
    proof (cases "\<exists>doc. r1 = Inr (Inr doc)")
      case True
      then obtain doc where o: "r1 = Inr (Inr doc)" by blast
      obtain r2 qs2 where l: "tikaLoop call facade (Suc n) (results @ [doc]) fs = (r2, qs2)" by fastforce
      have "r = r2" "qs = q # qs2" using Cons.prems o l c 1 by auto
      with Cons.IH[OF l] 1 show ?thesis by (auto simp: sent_all_def intro: sent_prefix_Cons)
    next
      case False
      have "\<forall>st. r1 = Inr (Inl st) \<longrightarrow> st \<ge> 400" using assms(2)[of n f] c by simp
      with False Cons.prems c 1 have "qs = [q]" "(\<forall>one. r = Inr (Inl one) \<longrightarrow> StatusCode one \<ge> 400)" "\<forall>ds. r \<noteq> Inr (Inr ds)"
        by (auto simp: tika_jsonError_def json_response_def split: sum.splits)
      with 1 show ?thesis by simp
    qed
  next
    case (2 e)
    with Cons.prems c show ?thesis by auto
  qed
qed (auto simp: sent_all_def)

lemma loops_unreachable:
  assumes "fs \<noteq> []"
  shows "(\<And>n f. isl (fst (call n f))) \<Longrightarrow> isl (fst (batchLoop decArr decObj call k docs fs))"
    and "(\<And>n f. isl (fst (one n f))) \<Longrightarrow> isl (fst (tikaLoop one facade k results fs))"
proof -
  obtain f fs' where fs: "fs = f # fs'" using assms by (cases fs) auto
  show "isl (fst (batchLoop decArr decObj call k docs fs))" if "\<And>n f. isl (fst (call n f))"
    using that[of k f] by (cases "call k f") (auto simp: fs isl_def)
  show "isl (fst (tikaLoop one facade k results fs))" if "\<And>n f. isl (fst (one n f))"
    using that[of k f] by (cases "one k f") (auto simp: fs isl_def)
qed

lemma callOnce_sends_one:
  "sends_one (targetsOf parse render [processPath cfg] cfg) (\<lambda>n f. callOnce parse render nm cfg rt n req f)"
  by (auto simp: sends_one_def callOnce_def targetsOf_def filePayloads_def Let_def split: sum.split)

lemma convertOne_sends_one:
  "sends_one (targetsOf parse render [tikaTextPath cfg] cfg) (\<lambda>n f. convertOne parse render decArr decObj nm cfg rt n f)"
  by (auto simp: sends_one_def convertOne_def targetsOf_def filePayloads_def Let_def split: sum.split)

lemma convertOne_status: "fst (convertOne parse render decArr decObj nm cfg rt n f) = Inr (Inl st) \<Longrightarrow> st \<ge> 400"
  by (auto simp: convertOne_def Let_def split: sum.splits if_splits)

lemma calls_unreachable:
  assumes "\<And>n q. isl (rt n q)"
  shows "isl (fst (callOnce parse render nm cfg rt n req f))" "isl (fst (convertOne parse render tArr tObj nm cfg rt n f))"
  using assms by (auto simp: callOnce_def convertOne_def Let_def isl_def split: sum.split) (metis sum.distinct(1))+

section \<open>The contract\<close>

locale engine_adapter =
  fixes caps :: EngineCapabilities
    and targets :: "EngineConfig \<Rightarrow> string set"
    and convert :: "string \<Rightarrow> EngineConfig \<Rightarrow> roundTrip \<Rightarrow> ConvertRequest \<Rightarrow> ConvertResponse result \<times> outReq list"
  assumes confined: "q \<in> set (snd (convert nm cfg rt req)) \<Longrightarrow> oqURL q \<in> targets cfg"
    and sources_refused: "\<not> HTTPSources caps \<Longrightarrow> Sources req \<noteq> [] \<Longrightarrow>
      snd (convert nm cfg rt req) = [] \<and> (\<exists>resp. fst (convert nm cfg rt req) = Inr resp \<and> StatusCode resp = 501)"
    and in_order: "Sources req = [] \<Longrightarrow> \<exists>m. concat (map filePayloads (snd (convert nm cfg rt req))) = take m (uploads req)"
    and complete: "Sources req = [] \<Longrightarrow> fst (convert nm cfg rt req) = Inr resp \<Longrightarrow> StatusCode resp < 400 \<Longrightarrow>
      concat (map filePayloads (snd (convert nm cfg rt req))) = uploads req"
    and unreachable: "(\<And>n q. isl (rt n q)) \<Longrightarrow> snd (convert nm cfg rt req) \<noteq> [] \<Longrightarrow> isl (fst (convert nm cfg rt req))"
begin

text \<open>An upload answered with success reached the backend: with the backend down, no upload of a file succeeds.\<close>

lemma offline_upload_fails:
  assumes "\<forall>n q. isl (rt n q)" "Sources req = []" "Files req \<noteq> []" "convert nm cfg rt req = (Inr resp, qs)"
  shows "StatusCode resp \<ge> 400"
proof (rule ccontr)
  assume "\<not> StatusCode resp \<ge> 400"
  with assms complete[of req nm cfg rt resp] have "concat (map filePayloads (snd (convert nm cfg rt req))) = uploads req" by simp
  moreover have "uploads req \<noteq> []" using assms(3) by (simp add: uploads_def)
  ultimately have "snd (convert nm cfg rt req) \<noteq> []" by auto
  with unreachable[of rt nm cfg req] assms(1,4) show False by simp
qed

text \<open>The laws together, as the callers use them.\<close>

lemma upload_contract:
  assumes "convert nm cfg rt req = (r, qs)"
  shows "oqURL ` set qs \<subseteq> targets cfg
    \<and> (Sources req = [] \<longrightarrow> (\<exists>m. concat (map filePayloads qs) = take m (uploads req))
         \<and> (\<forall>resp. r = Inr resp \<longrightarrow> StatusCode resp < 400 \<longrightarrow> concat (map filePayloads qs) = uploads req))
    \<and> (\<not> HTTPSources caps \<longrightarrow> Sources req \<noteq> [] \<longrightarrow> qs = [] \<and> (\<exists>resp. r = Inr resp \<and> StatusCode resp = 501))"
proof -
  have r: "fst (convert nm cfg rt req) = r" "snd (convert nm cfg rt req) = qs" using assms by simp_all
  show ?thesis
    using confined[of _ nm cfg rt req] in_order[of req nm cfg rt] complete[of req nm cfg rt] sources_refused[of req nm cfg rt]
    unfolding r by blast
qed

end

section \<open>The adapters meet it\<close>

lemma docling_Convert_cases:
  assumes "docling_Convert parse render boundary nm cfg rt req = (r, qs)"
  shows "(qs = [] \<and> isl r)
    \<or> (\<exists>q. qs = [q] \<and> oqURL q \<in> targetsOf parse render [convertFilePath cfg, convertSourcePath cfg] cfg
         \<and> (Sources req = [] \<longrightarrow> oqBody q = MultipartBody (docling_parts cfg req)) \<and> (isl (rt 0 q) \<longrightarrow> isl r))"
  using assms
  by (auto simp: docling_Convert_def docling_convertFile_def docling_convertSource_def docling_do_def targetsOf_def
      split: sum.splits if_splits)

interpretation docling: engine_adapter docling_Capabilities
  "\<lambda>cfg. targetsOf parse render [convertFilePath cfg, convertSourcePath cfg] cfg" "docling_Convert parse render boundary"
  for parse render boundary
proof
  fix q nm cfg rt req resp
  obtain r qs where c: "docling_Convert parse render boundary nm cfg rt req = (r, qs)" by fastforce
  note cs = docling_Convert_cases[OF c]
  show "oqURL q \<in> targetsOf parse render [convertFilePath cfg, convertSourcePath cfg] cfg"
    if "q \<in> set (snd (docling_Convert parse render boundary nm cfg rt req))"
    using that cs by (auto simp: c)
  show "\<exists>m. concat (map filePayloads (snd (docling_Convert parse render boundary nm cfg rt req))) = take m (uploads req)"
    if "Sources req = []"
    using that cs docling_payloads by (fastforce simp: c intro: exI[of _ 0] exI[of _ "length (uploads req)"])
  show "concat (map filePayloads (snd (docling_Convert parse render boundary nm cfg rt req))) = uploads req"
    if "Sources req = []" "fst (docling_Convert parse render boundary nm cfg rt req) = Inr resp"
    using that cs docling_payloads by (fastforce simp: c)
  show "isl (fst (docling_Convert parse render boundary nm cfg rt req))" if "\<And>n q. isl (rt n q)"
    using that[of 0] cs by (auto simp: c)
qed (simp add: docling_Capabilities_def)


text \<open>A loop adapter meets the contract when it refuses sources and what it sends of the files is accounted for.\<close>

lemma loop_adapter:
  assumes "\<And>nm cfg rt req r qs. conv nm cfg rt req = (r, qs) \<Longrightarrow> Sources req = [] \<Longrightarrow>
      sent_prefix (T cfg) (Files req) qs \<and> (\<forall>resp. r = Inr resp \<longrightarrow> StatusCode resp < 400 \<longrightarrow> sent_all (Files req) qs)"
    and "\<And>nm cfg rt req. Sources req \<noteq> [] \<Longrightarrow> snd (conv nm cfg rt req) = [] \<and> (\<exists>resp. fst (conv nm cfg rt req) = Inr resp \<and> StatusCode resp = 501)"
    and "\<And>nm cfg rt req. (\<And>n q. isl (rt n q)) \<Longrightarrow> Sources req = [] \<Longrightarrow> snd (conv nm cfg rt req) \<noteq> [] \<Longrightarrow> isl (fst (conv nm cfg rt req))"
  shows "engine_adapter caps T conv"
proof
  fix q nm cfg rt req resp
  obtain r qs where c: "conv nm cfg rt req = (r, qs)" by fastforce
  note sent = assms(1)[OF c] and refused = assms(2)[of req nm cfg rt]
  show "oqURL q \<in> T cfg" if "q \<in> set (snd (conv nm cfg rt req))"
    using that sent refused by (cases "Sources req = []") (auto simp: c sent_prefix_def)
  show "snd (conv nm cfg rt req) = [] \<and> (\<exists>resp. fst (conv nm cfg rt req) = Inr resp \<and> StatusCode resp = 501)" if "Sources req \<noteq> []"
    using that refused by simp
  show "\<exists>m. concat (map filePayloads (snd (conv nm cfg rt req))) = take m (uploads req)" if "Sources req = []"
    using that sent by (simp add: c sent_prefix_def uploads_def)
  show "concat (map filePayloads (snd (conv nm cfg rt req))) = uploads req"
    if "Sources req = []" "fst (conv nm cfg rt req) = Inr resp" "StatusCode resp < 400"
    using that sent by (simp add: c sent_all_def uploads_def)
  show "isl (fst (conv nm cfg rt req))" if "\<And>n q. isl (rt n q)" "snd (conv nm cfg rt req) \<noteq> []"
    using that refused assms(3)[of rt req nm cfg] by blast
qed

lemma external_sent:
  assumes "external_Convert parse render decArr decObj nm cfg rt req = (r, qs)" "Sources req = []"
  shows "sent_prefix (targetsOf parse render [processPath cfg] cfg) (Files req) qs
    \<and> (\<forall>resp. r = Inr resp \<longrightarrow> StatusCode resp < 400 \<longrightarrow> sent_all (Files req) qs)"
proof -
  note one = callOnce_sends_one[of parse render cfg nm rt req]
  consider "Files req = []" | f where "Files req = [f]" | f g fs where "Files req = f # g # fs"
    by (cases "Files req" rule: remdups_adj.cases) auto
  then show ?thesis
  proof cases
    case 1
    with assms show ?thesis by (auto simp: external_Convert_def sent_all_def)
  next
    case (2 f)
    with assms have c: "callOnce parse render nm cfg rt 0 req f = (r, qs)" by (simp add: external_Convert_def)
    from one c show ?thesis by (cases rule: sends_oneE) (auto simp: 2 sent_all_def)
  next
    case (3 f g fs)
    obtain l lqs where l: "batchLoop decArr decObj (\<lambda>n f. callOnce parse render nm cfg rt n req f) 0 [] (Files req) = (l, lqs)" by fastforce
    from assms 3 have "callBatched parse render decArr decObj nm cfg rt req = (r, qs)" by (simp add: external_Convert_def)
    then have "qs = lqs" "\<forall>resp. r = Inr resp \<longrightarrow> StatusCode resp < 400 \<longrightarrow> (\<exists>ds. l = Inr (Inr ds)) \<or> (\<exists>one. l = Inr (Inl one) \<and> StatusCode one < 400)"
      unfolding callBatched_def l by (auto split: sum.splits)
    with batchLoop_sent[OF one l] show ?thesis by fastforce
  qed
qed

interpretation external: engine_adapter external_Capabilities
  "\<lambda>cfg. targetsOf parse render [processPath cfg] cfg" "external_Convert parse render decArr decObj"
  for parse render decArr decObj
proof (rule loop_adapter)
  fix nm cfg rt req r qs
  show "external_Convert parse render decArr decObj nm cfg rt req = (r, qs) \<Longrightarrow> Sources req = [] \<Longrightarrow>
      sent_prefix (targetsOf parse render [processPath cfg] cfg) (Files req) qs
      \<and> (\<forall>resp. r = Inr resp \<longrightarrow> StatusCode resp < 400 \<longrightarrow> sent_all (Files req) qs)"
    by (rule external_sent)
  show "Sources req \<noteq> [] \<Longrightarrow> snd (external_Convert parse render decArr decObj nm cfg rt req) = []
      \<and> (\<exists>resp. fst (external_Convert parse render decArr decObj nm cfg rt req) = Inr resp \<and> StatusCode resp = 501)"
    by (simp add: external_Convert_def external_jsonError_def json_response_def)
  assume rt: "\<And>n q. isl (rt n q)" and s: "Sources req = []"
    and ne: "snd (external_Convert parse render decArr decObj nm cfg rt req) \<noteq> []"
  then have f: "Files req \<noteq> []" by (auto simp: external_Convert_def)
  obtain l lqs where l: "batchLoop decArr decObj (\<lambda>n f. callOnce parse render nm cfg rt n req f) 0 [] (Files req) = (l, lqs)" by fastforce
  have "isl l" using loops_unreachable(1)[OF f, of "\<lambda>n f. callOnce parse render nm cfg rt n req f" decArr decObj 0 "[]"]
    calls_unreachable(1)[OF rt] l by auto
  then have "isl (fst (callBatched parse render decArr decObj nm cfg rt req))"
    unfolding callBatched_def l by (auto simp: isl_def)
  then show "isl (fst (external_Convert parse render decArr decObj nm cfg rt req))"
    using s f calls_unreachable(1)[OF rt] by (auto simp: external_Convert_def split: list.split)
qed

interpretation composite: engine_adapter composite_Capabilities
  "\<lambda>cfg. targetsOf parse render [convertFilePath cfg, convertSourcePath cfg, processPath cfg] cfg"
  "composite_Convert parse render boundary decArr decObj"
  for parse render boundary decArr decObj
proof
  fix q nm cfg rt req resp
  let ?c = "composite_Convert parse render boundary decArr decObj nm cfg rt req"
  show "oqURL q \<in> targetsOf parse render [convertFilePath cfg, convertSourcePath cfg, processPath cfg] cfg" if "q \<in> set (snd ?c)"
    using that docling.confined[of q parse render boundary nm cfg rt req] external.confined[of q parse render decArr decObj nm cfg rt req]
    by (auto simp: composite_Convert_def targetsOf_def split: if_splits)
  show "\<exists>m. concat (map filePayloads (snd ?c)) = take m (uploads req)" if "Sources req = []"
    using that docling.in_order[of req parse render boundary nm cfg rt] external.in_order[of req parse render decArr decObj nm cfg rt]
    by (auto simp: composite_Convert_def intro: exI[of _ 0])
  show "concat (map filePayloads (snd ?c)) = uploads req" if "Sources req = []" "fst ?c = Inr resp" "StatusCode resp < 400"
    using that docling.complete[of req parse render boundary nm cfg rt] external.complete[of req parse render decArr decObj nm cfg rt]
    by (auto simp: composite_Convert_def split: if_splits)
  show "isl (fst ?c)" if "\<And>n q. isl (rt n q)" "snd ?c \<noteq> []"
    using that docling.unreachable[of rt parse render boundary nm cfg req] external.unreachable[of rt parse render decArr decObj nm cfg req]
    by (auto simp: composite_Convert_def split: if_splits)
qed (simp add: composite_Capabilities_def)

interpretation tika: engine_adapter tika_Capabilities
  "\<lambda>cfg. targetsOf parse render [tikaTextPath cfg] cfg" "tika_Convert parse render decArr decObj"
  for parse render decArr decObj
proof (rule loop_adapter)
  fix nm cfg rt req r qs
  let ?one = "\<lambda>n f. convertOne parse render decArr decObj nm cfg rt n f"
  show "sent_prefix (targetsOf parse render [tikaTextPath cfg] cfg) (Files req) qs
      \<and> (\<forall>resp. r = Inr resp \<longrightarrow> StatusCode resp < 400 \<longrightarrow> sent_all (Files req) qs)"
    if c: "tika_Convert parse render decArr decObj nm cfg rt req = (r, qs)" and s: "Sources req = []"
  proof (cases "Files req = []")
    case True
    with c s show ?thesis by (auto simp: tika_Convert_def sent_all_def)
  next
    case False
    obtain l lqs where l: "tikaLoop ?one (reqFacade req) 0 [] (Files req) = (l, lqs)" by fastforce
    from c s False l have "qs = lqs"
      "\<forall>resp. r = Inr resp \<longrightarrow> StatusCode resp < 400 \<longrightarrow> (\<exists>ds. l = Inr (Inr ds)) \<or> (\<exists>one. l = Inr (Inl one) \<and> StatusCode one < 400)"
      unfolding tika_Convert_def by (auto split: sum.splits)
    moreover have "sent_prefix (targetsOf parse render [tikaTextPath cfg] cfg) (Files req) lqs
        \<and> (\<forall>one. l = Inr (Inl one) \<longrightarrow> StatusCode one \<ge> 400) \<and> (\<forall>ds. l = Inr (Inr ds) \<longrightarrow> sent_all (Files req) lqs)"
      by (rule tikaLoop_sent[OF convertOne_sends_one convertOne_status l])
    ultimately show ?thesis by fastforce
  qed
  show "Sources req \<noteq> [] \<Longrightarrow> snd (tika_Convert parse render decArr decObj nm cfg rt req) = []
      \<and> (\<exists>resp. fst (tika_Convert parse render decArr decObj nm cfg rt req) = Inr resp \<and> StatusCode resp = 501)"
    by (simp add: tika_Convert_def tika_jsonError_def json_response_def)
  assume rt: "\<And>n q. isl (rt n q)" and s: "Sources req = []"
    and ne: "snd (tika_Convert parse render decArr decObj nm cfg rt req) \<noteq> []"
  then have f: "Files req \<noteq> []" by (auto simp: tika_Convert_def)
  obtain l lqs where l: "tikaLoop ?one (reqFacade req) 0 [] (Files req) = (l, lqs)" by fastforce
  have "isl l" using loops_unreachable(2)[OF f, of ?one "reqFacade req" 0 "[]"] calls_unreachable(2)[OF rt] l by auto
  then show "isl (fst (tika_Convert parse render decArr decObj nm cfg rt req))"
    using s f unfolding tika_Convert_def l by (auto simp: isl_def)
qed

section \<open>Every engine a configuration can name\<close>

definition enginePaths :: "Adapter \<Rightarrow> string list" where
  "enginePaths a = (let cfg = adCfg a in
     case adKind a of
       DoclingAdapter \<Rightarrow> [convertFilePath cfg, convertSourcePath cfg]
     | ExternalAdapter \<Rightarrow> [processPath cfg]
     | TikaAdapter \<Rightarrow> [tikaTextPath cfg]
     | CompositeAdapter \<Rightarrow> [convertFilePath cfg, convertSourcePath cfg, processPath cfg])"

lemma engine_contract:
  assumes "engine_Convert parse render cd a rt req = (r, qs)"
  shows "oqURL ` set qs \<subseteq> targetsOf parse render (enginePaths a) (adCfg a)
    \<and> (Sources req = [] \<longrightarrow> (\<exists>m. concat (map filePayloads qs) = take m (uploads req))
         \<and> (\<forall>resp. r = Inr resp \<longrightarrow> StatusCode resp < 400 \<longrightarrow> concat (map filePayloads qs) = uploads req))
    \<and> (\<not> HTTPSources (engine_Capabilities a) \<longrightarrow> Sources req \<noteq> [] \<longrightarrow> qs = [] \<and> (\<exists>resp. r = Inr resp \<and> StatusCode resp = 501))"
  using assms unfolding engine_Convert_def engine_Capabilities_def enginePaths_def Let_def
  by (cases "adKind a"; simp only: adapterKind.case)
    (erule docling.upload_contract external.upload_contract tika.upload_contract composite.upload_contract)+

lemma engine_offline:
  assumes "\<forall>n q. isl (rt n q)" "Sources req = []" "Files req \<noteq> []" "engine_Convert parse render cd a rt req = (Inr resp, qs)"
  shows "StatusCode resp \<ge> 400"
  using assms(4) unfolding engine_Convert_def
  by (cases "adKind a"; simp only: adapterKind.case)
    (erule docling.offline_upload_fails[OF assms(1-3)] external.offline_upload_fails[OF assms(1-3)]
      tika.offline_upload_fails[OF assms(1-3)] composite.offline_upload_fails[OF assms(1-3)])+

lemma newAdapterByCompat_Inr:
  "newAdapterByCompat nm ec = Inr a \<Longrightarrow> adName a = nm \<and> adCfg a = ec \<and> ecURL ec \<noteq> []"
  by (auto simp: newAdapterByCompat_def docling_New_def external_New_def tika_New_def composite_New_def adapter_New_def
      split: if_splits)

lemma targetsOf_backend:
  "targetsOf parse render ps cfg \<subseteq> {render (u\<lparr>urlPath := TrimRight (urlPath u) (CHR ''/'') @ p\<rparr>) | u p. parse (ecURL cfg) = Inr u \<and> HasPrefix p ''/''}"
proof
  fix x
  assume "x \<in> targetsOf parse render ps cfg"
  then obtain p u where "parse (ecURL cfg) = Inr u" "x = render (u\<lparr>urlPath := TrimRight (urlPath u) (CHR ''/'') @ (if HasPrefix p ''/'' then p else CHR ''/'' # p)\<rparr>)"
    by (cases "parse (ecURL cfg)") (auto simp: targetsOf_def JoinURL_def Let_def simp del: if_split)
  moreover have "HasPrefix (if HasPrefix p ''/'' then p else CHR ''/'' # p) ''/''" by (simp add: HasPrefix_def)
  ultimately show "x \<in> {render (u\<lparr>urlPath := TrimRight (urlPath u) (CHR ''/'') @ p\<rparr>) | u p. parse (ecURL cfg) = Inr u \<and> HasPrefix p ''/''}"
    by blast
qed

text \<open>A backend at a fixed address, and an upload of two files with an option.\<close>

definition demo_backend :: "CompatType \<Rightarrow> EngineConfig" where
  "demo_backend ct = DefaultEngineConfig\<lparr>ecEnable := True, ecCompatType := ct, ecURL := ''https://docs.example/a''\<rparr>"

definition demo_blob :: "string \<Rightarrow> string \<Rightarrow> FileBlob" where
  "demo_blob nm d = \<lparr>Filename = nm, ContentType = ''application/pdf'', blobSize = int (length d),
     blobBody = \<lparr>memBuf = Some (d, 0), rdFile = None, rdPath = [], rdSize = int (length d), closed = False\<rparr>\<rparr>"

definition demo_two_files :: ConvertRequest where
  "demo_two_files = \<lparr>Files = [demo_blob ''a.pdf'' ''AAA'', demo_blob ''b.pdf'' ''BB''], Sources = [], Options = [(''ocr'', ''true'')],
     Headers = [], RequestID = ''r1'', reqFacade = FacadeDocling\<rparr>"

definition demo_source :: ConvertRequest where
  "demo_source = demo_two_files\<lparr>Files := [], Sources := [\<lparr>srcURL = ''http://x/'', srcHeaders = []\<rparr>]\<rparr>"

definition demo_codecs :: codecs where
  "demo_codecs = \<lparr>cdBoundary = ''b'', cdExtArr = (\<lambda>_. Inr []), cdExtObj = (\<lambda>_. Inr \<lparr>xdPageContent = [], xdMetadata = []\<rparr>),
     cdTikaArr = (\<lambda>_. Inr []), cdTikaObj = (\<lambda>_. Inr [])\<rparr>"

definition demo_ok :: roundTrip where
  "demo_ok n q = Inr \<lparr>StatusCode = 200, respHeaders = [], respBody = \<lparr>srcData = ''text'', srcErr = None\<rparr>\<rparr>"



text \<open>
  C3: an upload that an engine reports as converted was delivered whole: the files found in the outbound requests, read in the
  order sent, are exactly the uploaded files with all their bytes, whichever of the four compatibility types the engine has and
  whatever options or file names came along (a field name cannot pose as a file part).  In every other case what was sent is a
  prefix of them, and with the backend unreachable no upload is reported as converted.
\<close>

theorem uploads_delivered_whole_in_order:
  assumes "newAdapterByCompat nm ec = Inr a" "engine_Convert parse render cd a rt req = (r, qs)" "Sources req = []"
  shows "(\<exists>m. concat (map filePayloads qs) = take m (map (\<lambda>f. bodyBytes (blobBody f)) (Files req)))
    \<and> (\<forall>resp. r = Inr resp \<longrightarrow> StatusCode resp < 400 \<longrightarrow>
         concat (map filePayloads qs) = map (\<lambda>f. bodyBytes (blobBody f)) (Files req)
         \<and> (Files req = [] \<or> (\<exists>n q. \<not> isl (rt n q))))"
  using engine_contract[OF assms(2)] engine_offline[of rt req parse render cd a] assms(2,3) unfolding uploads_def
  by (metis leD)

theorem uploads_delivered_whole_in_order_witness:
  "\<exists>a resp qs. newAdapterByCompat ''x'' (demo_backend CompatExternal) = Inr a
     \<and> engine_Convert demo_parse demo_render demo_codecs a demo_ok demo_two_files = (Inr resp, qs)
     \<and> concat (map filePayloads qs) = [''AAA'', ''BB'']"
proof -
  let ?a = "\<lparr>adKind = ExternalAdapter, adName = ''x'', adCfg = demo_backend CompatExternal\<rparr>"
  let ?c = "engine_Convert demo_parse demo_render demo_codecs ?a demo_ok demo_two_files"
  have a: "newAdapterByCompat ''x'' (demo_backend CompatExternal) = Inr ?a"
    by (simp add: newAdapterByCompat_def demo_backend_def compat_defs external_New_def adapter_New_def)
  have "case fst ?c of Inr resp \<Rightarrow> StatusCode resp < 400 | Inl _ \<Rightarrow> False" by code_simp
  then obtain resp where r: "fst ?c = Inr resp" "StatusCode resp < 400" by (auto split: sum.splits)
  have c: "?c = (Inr resp, snd ?c)" using r(1) by (metis prod.collapse)
  have "Sources demo_two_files = []" by (simp add: demo_two_files_def)
  with uploads_delivered_whole_in_order[OF a c] r
  have "concat (map filePayloads (snd ?c)) = map (\<lambda>f. bodyBytes (blobBody f)) (Files demo_two_files)" by blast
  also have "\<dots> = [''AAA'', ''BB'']" by code_simp
  finally show ?thesis using a c by blast
qed

end
