(* ===== verification/Tasks.thy ===== *)
theory Tasks
  imports Convert
begin

text \<open>
  \<^verbatim>\<open>internal/tasks\<close>: the payload of an asynchronous conversion (\<^verbatim>\<open>payload.go\<close>), the orchestrator that persists
  blobs, tokens, results and idempotency records in Redis (\<^verbatim>\<open>orchestrator.go\<close>) and the worker that runs the engine
  (\<^verbatim>\<open>worker.go\<close>).  Redis is an association list from keys to values with the TTL they were set with; what
  expires is a step of the environment.  The hash functions, UUIDs, tokens and the asynq client are arguments, and
  every Redis call may fail: the outcome is an argument too.  asynq's queue is the list of tasks handed to it.
\<close>

section \<open>Payloads\<close>

definition TypeConvert :: string where "TypeConvert = ''convert''"

record BlobRef =
  brKey :: string
  brFilename :: string
  brContentType :: string
  brSize :: int

record Payload =
  plEngine :: string
  plFacade :: string
  plRequestID :: string
  plBlobKeys :: "BlobRef list"
  plSources :: "HTTPSource list"
  plOptions :: "(string, string) gomap"
  localBlobs :: "string list option"

definition asyncSpoolThreshold :: int where "asyncSpoolThreshold = 8 * 2 ^ 20"
definition asyncSniffHeadBytes :: nat where "asyncSniffHeadBytes = 512"
definition asyncMaxFormFieldBytes :: int where "asyncMaxFormFieldBytes = 2 ^ 20"

definition attachLocalBlobs :: "Payload \<Rightarrow> string list \<Rightarrow> Payload" where
  "attachLocalBlobs p bufs = p\<lparr>localBlobs := Some bufs\<rparr>"

definition takeBuffers :: "Payload \<Rightarrow> string list \<times> Payload" where
  "takeBuffers p = (case localBlobs p of None \<Rightarrow> ([], p) | Some bufs \<Rightarrow> (bufs, p\<lparr>localBlobs := None\<rparr>))"

definition emptyPayload :: Payload where
  "emptyPayload = \<lparr>plEngine = [], plFacade = [], plRequestID = [], plBlobKeys = [], plSources = [], plOptions = [], localBlobs = None\<rparr>"

text \<open>\<^verbatim>\<open>io.Copy(buf, sr)\<close> from a freshly staged part: all that is left of it.\<close>

definition drain :: "Reader \<Rightarrow> string" where
  "drain sr = drop (position sr) (contents sr)"

text \<open>The MIME type the task is routed by; without a resolver the declared one is kept.\<close>

definition resolveAsync :: "(string \<Rightarrow> string option) \<Rightarrow> Resolver option \<Rightarrow> string \<Rightarrow> string \<Rightarrow> string \<Rightarrow> string" where
  "resolveAsync detect rs declaredCT buf fname =
     (case rs of None \<Rightarrow> declaredCT | Some r \<Rightarrow> resMIME (Resolve detect r declaredCT (take asyncSniffHeadBytes buf) fname))"

fun payloadLoop ::
  "(string \<Rightarrow> string option) \<Rightarrow> Resolver option \<Rightarrow> (nat \<Rightarrow> spoolEnv) \<Rightarrow> int \<Rightarrow> go_error option \<Rightarrow> nat \<Rightarrow> Payload \<Rightarrow>
   string list \<Rightarrow> tempfiles \<Rightarrow> part list \<Rightarrow> Payload result \<times> tempfiles" where
  "payloadLoop detect rs envs maxBlob perr k p bufs tmp [] =
     (case perr of
        Some e \<Rightarrow> (Inl (wrap_error ''read part: '' e), tmp)
      | None \<Rightarrow> (Inr (attachLocalBlobs p bufs), tmp))"
| "payloadLoop detect rs envs maxBlob perr k p bufs tmp (q # ps) =
     (if FileName q \<noteq> [] then
        (case Part (partData q) asyncSpoolThreshold maxBlob (envs k) tmp of
           (Inl e, _, tmp1) \<Rightarrow>
             (Inl (if errors_Is e ErrTooLarge
                   then plain_error (''blob '' @ go_quote (FileName q) @ '' exceeds max_blob_bytes '' @ show_int maxBlob)
                   else wrap_error ''copy part: '' e), tmp1)
         | (Inr sr, _, tmp1) \<Rightarrow>
             payloadLoop detect rs envs maxBlob perr (Suc k)
               (p\<lparr>plBlobKeys := plBlobKeys p @
                    [\<lparr>brKey = [], brFilename = FileName q,
                      brContentType = resolveAsync detect rs (partContentType q) (drain sr) (FileName q),
                      brSize = int (length (drain sr))\<rparr>]\<rparr>)
               (bufs @ [drain sr]) (snd (snd (Close sr None RmOk tmp1))) ps)
      else
        (case Copy (partData q) (Some (asyncMaxFormFieldBytes + 1)) of
           (buf, err, _) \<Rightarrow>
             (case err of
                Some e \<Rightarrow> (Inl e, tmp)
              | None \<Rightarrow>
                  (if int (length buf) > asyncMaxFormFieldBytes
                   then (Inl (plain_error (''form field '' @ go_quote (FormName q) @ '' exceeds '' @ show_int asyncMaxFormFieldBytes @ '' bytes'')), tmp)
                   else payloadLoop detect rs envs maxBlob perr (Suc k) (p\<lparr>plOptions := map_put (FormName q) buf (plOptions p)\<rparr>)
                          bufs tmp ps))))"

definition payloadFromMultipart ::
  "(string \<Rightarrow> string option) \<Rightarrow> Resolver option \<Rightarrow> (nat \<Rightarrow> spoolEnv) \<Rightarrow> int \<Rightarrow> string result \<Rightarrow> part list \<Rightarrow>
   go_error option \<Rightarrow> tempfiles \<Rightarrow> Payload result \<times> tempfiles" where
  "payloadFromMultipart detect rs envs maxBlob mediaType parts perr tmp =
     (case mediaType of
        Inl e \<Rightarrow> (Inl (wrap_error ''parse content-type: '' e), tmp)
      | Inr mt \<Rightarrow>
          (if \<not> HasPrefix mt ''multipart/'' then (Inl (plain_error ''content-type must be multipart/form-data''), tmp)
           else payloadLoop detect rs envs maxBlob perr 0 emptyPayload [] tmp parts))"

definition PayloadFromExternalRequest ::
  "(string \<Rightarrow> string option) \<Rightarrow> Resolver option \<Rightarrow> spoolEnv \<Rightarrow> int \<Rightarrow> Header \<Rightarrow> string \<Rightarrow> src \<Rightarrow> tempfiles \<Rightarrow>
   Payload result \<times> tempfiles" where
  "PayloadFromExternalRequest detect rs env maxBlob h filename0 body tmp =
     (let declaredCT = header_Get h ''Content-Type'' in
      if declaredCT = [] then (Inl (plain_error ''missing Content-Type''), tmp)
      else let filename = (if filename0 = [] then ''upload'' else filename0) in
        case Part body asyncSpoolThreshold maxBlob env tmp of
          (Inl e, _, tmp1) \<Rightarrow>
            (Inl (if errors_Is e ErrTooLarge
                  then plain_error (''blob '' @ go_quote filename @ '' exceeds max_blob_bytes '' @ show_int maxBlob)
                  else wrap_error ''read body: '' e), tmp1)
        | (Inr sr, _, tmp1) \<Rightarrow>
            (Inr (attachLocalBlobs
                   (emptyPayload\<lparr>plBlobKeys := [\<lparr>brKey = [], brFilename = filename,
                      brContentType = resolveAsync detect rs declaredCT (drain sr) filename,
                      brSize = int (length (drain sr))\<rparr>]\<rparr>) [drain sr]),
             snd (snd (Close sr None RmOk tmp1))))"

definition payloadFromJSON :: "(HTTPSource list \<times> (string, string) gomap) result \<Rightarrow> Payload result" where
  "payloadFromJSON body =
     (case body of
        Inl e \<Rightarrow> Inl e
      | Inr (srcs, opts) \<Rightarrow>
          (if srcs = [] then Inl (plain_error ''http_sources required'')
           else Inr (emptyPayload\<lparr>plSources := srcs, plOptions := opts\<rparr>)))"

section \<open>Redis\<close>

record tokenBinding =
  tbTaskID :: string
  tbKeyFP :: string

datatype redisVal = RBytes string | RBinding tokenBinding

type_synonym redis = "(string, redisVal \<times> Duration) gomap"

definition errRedisNil :: go_error where "errRedisNil = sentinel_error ''redis: nil'' RedisNil"
definition errTaskNotFound :: go_error where "errTaskNotFound = sentinel_error ''tasks: not found'' ErrNotFound"

text \<open>\<^verbatim>\<open>GET\<close>: the fault is a connection error of the call.\<close>

definition redis_Get :: "redis \<Rightarrow> go_error option \<Rightarrow> string \<Rightarrow> redisVal result" where
  "redis_Get rd fault key =
     (case fault of
        Some e \<Rightarrow> Inl e
      | None \<Rightarrow> (case map_of rd key of None \<Rightarrow> Inl errRedisNil | Some (v, ttl) \<Rightarrow> Inr v))"

definition redis_Set :: "redis \<Rightarrow> string \<Rightarrow> redisVal \<Rightarrow> Duration \<Rightarrow> redis" where
  "redis_Set rd key v ttl = map_put key (v, ttl) rd"

text \<open>The bytes of a value; a binding is stored as its JSON.\<close>

definition jsonField :: "string \<Rightarrow> string \<Rightarrow> string" where
  "jsonField name v = CHR 0x22 # name @ [CHR 0x22, CHR '':'', CHR 0x22] @ v @ [CHR 0x22]"

definition bytesOf :: "redisVal \<Rightarrow> string" where
  "bytesOf v = (case v of
      RBytes b \<Rightarrow> b
    | RBinding b \<Rightarrow> ''{'' @ jsonField ''task_id'' (tbTaskID b)
        @ (if tbKeyFP b = [] then [] else '','' @ jsonField ''key_fp'' (tbKeyFP b)) @ ''}'')"

text \<open>A pipeline: all commands take effect, or it fails after some of them did.\<close>

type_synonym pipeFault = "(go_error \<times> nat list) option"

definition pipeExec :: "(string \<times> redisVal \<times> Duration) list \<Rightarrow> pipeFault \<Rightarrow> redis \<Rightarrow> redis" where
  "pipeExec cmds fault rd =
     fold (\<lambda>(k, v, ttl) r. redis_Set r k v ttl)
       (case fault of None \<Rightarrow> cmds | Some (e, took) \<Rightarrow> map ((!) cmds) (filter (\<lambda>i. i < length cmds) took)) rd"

definition tokenKey :: "string \<Rightarrow> string" where "tokenKey token = ''owui-cee:token:'' @ token"
definition queueKey :: "string \<Rightarrow> string" where "queueKey taskID = ''owui-cee:queue:'' @ taskID"
definition resultKey :: "string \<Rightarrow> string" where "resultKey taskID = ''owui-cee:result:'' @ taskID"
definition blobKey :: "string \<Rightarrow> string" where "blobKey uuid = ''owui-cee:blob:'' @ uuid"

text \<open>The hash functions, rendered in hexadecimal.\<close>

record crypto =
  sha256hex :: "string \<Rightarrow> string"
  hmac256hex :: "string \<Rightarrow> string \<Rightarrow> string"

definition idemKey :: "crypto \<Rightarrow> string \<Rightarrow> string \<Rightarrow> string" where
  "idemKey cr apiKeyFP idem = ''owui-cee:idem:'' @ apiKeyFP @ '':'' @ sha256hex cr idem"

section \<open>The orchestrator\<close>

record Orchestrator =
  orCfg :: TasksConfig
  orPepper :: string

definition WithFingerprintPepper :: "Orchestrator \<Rightarrow> string \<Rightarrow> Orchestrator" where
  "WithFingerprintPepper o' pepper = (if pepper \<noteq> [] then o'\<lparr>orPepper := pepper\<rparr> else o')"

definition NewOrchestrator :: "TasksConfig \<Rightarrow> go_error option \<Rightarrow> go_error option \<Rightarrow> Orchestrator result" where
  "NewOrchestrator cfg asynqURI redisURI =
     (if \<not> tkEnabled cfg then Inl (plain_error ''tasks: not enabled'')
      else if tkRedisURL cfg = [] then Inl (plain_error ''tasks: REDIS_URL is required'')
      else case asynqURI of
             Some e \<Rightarrow> Inl (wrap_error ''parse redis url: '' e)
           | None \<Rightarrow> (case redisURI of
                        Some e \<Rightarrow> Inl (wrap_error ''parse redis url: '' e)
                      | None \<Rightarrow> Inr \<lparr>orCfg = cfg, orPepper = []\<rparr>))"

definition plain_keyFromAPIKey :: "crypto \<Rightarrow> string \<Rightarrow> string" where
  "plain_keyFromAPIKey cr apiKey = (if apiKey = [] then [] else sha256hex cr apiKey)"

definition keyFromAPIKey :: "crypto \<Rightarrow> Orchestrator \<Rightarrow> string \<Rightarrow> string" where
  "keyFromAPIKey cr orch apiKey =
     (if apiKey = [] then []
      else if orPepper orch = [] then plain_keyFromAPIKey cr apiKey
      else hmac256hex cr (orPepper orch) apiKey)"

text \<open>The running total is an \<^verbatim>\<open>int64\<close> and wraps like a duration.\<close>

fun blobLimitsLoop :: "int \<Rightarrow> int \<Rightarrow> int \<Rightarrow> BlobRef list \<Rightarrow> go_error option" where
  "blobLimitsLoop maxBlob maxTotal acc [] = None"
| "blobLimitsLoop maxBlob maxTotal acc (ref # refs) =
     (if brSize ref < 0 then Some (plain_error (''blob '' @ go_quote (brFilename ref) @ '': size unknown''))
      else if maxBlob > 0 \<and> brSize ref > maxBlob
      then Some (plain_error (''blob '' @ go_quote (brFilename ref) @ '': size '' @ show_int (brSize ref)
                   @ '' exceeds max_blob_bytes '' @ show_int maxBlob))
      else if maxTotal > 0 \<and> dur_add acc (brSize ref) > maxTotal
      then Some (plain_error (''aggregate blob size '' @ show_int (dur_add acc (brSize ref))
                   @ '' exceeds max_total_bytes '' @ show_int maxTotal))
      else blobLimitsLoop maxBlob maxTotal (dur_add acc (brSize ref)) refs)"

definition validateBlobLimits :: "Payload \<Rightarrow> int \<Rightarrow> int \<Rightarrow> go_error option" where
  "validateBlobLimits p maxBlob maxTotal = blobLimitsLoop maxBlob maxTotal 0 (plBlobKeys p)"

text \<open>A task in asynq's queue.\<close>

record queuedTask =
  qtID :: string
  qtQueue :: string
  qtPayload :: Payload
  qtMaxRetry :: int
  qtTimeout :: Duration

record enqEnv =
  eeUUID :: "nat \<Rightarrow> string"
  eeBlobPipe :: pipeFault
  eeEnqueue :: "(string \<times> string) result"
  eeToken :: "string result"
  eeTokenPipe :: pipeFault

definition assignKeys :: "string list \<Rightarrow> BlobRef list \<Rightarrow> BlobRef list" where
  "assignKeys keys refs = fold (\<lambda>(i, k) rs. rs[i := (rs ! i)\<lparr>brKey := k\<rparr>]) (zip [0..<length keys] keys) refs"

text \<open>The blob stage of \<^verbatim>\<open>Enqueue\<close>: the payload with its keys, and the store.\<close>

definition persistBlobs :: "Orchestrator \<Rightarrow> Payload \<Rightarrow> enqEnv \<Rightarrow> redis \<Rightarrow> Payload result \<times> redis" where
  "persistBlobs orch p0 env rd =
     (case takeBuffers p0 of (bufs, p) \<Rightarrow>
        (if bufs = [] then (Inr p, rd)
         else let keys = map (\<lambda>i. blobKey (eeUUID env i)) [0..<length bufs];
                  rd1 = pipeExec (map (\<lambda>(k, b). (k, RBytes b, tkRetention (orCfg orch))) (zip keys bufs)) (eeBlobPipe env) rd
              in case eeBlobPipe env of
                   Some (e, _) \<Rightarrow> (Inl (wrap_error ''persist blobs: '' e), rd1)
                 | None \<Rightarrow> (Inr (p\<lparr>plBlobKeys := assignKeys keys (plBlobKeys p)\<rparr>), rd1)))"

definition orDefault :: "Duration \<Rightarrow> Duration \<Rightarrow> Duration" where
  "orDefault d e = (if d \<le> 0 then e else d)"

definition Enqueue ::
  "crypto \<Rightarrow> Orchestrator \<Rightarrow> Payload \<Rightarrow> string \<Rightarrow> enqEnv \<Rightarrow> redis \<Rightarrow> queuedTask list \<Rightarrow>
   string result \<times> redis \<times> queuedTask list" where
  "Enqueue cr orch p0 apiKey env rd q =
     (case validateBlobLimits p0 (tkMaxBlobBytes (orCfg orch)) (tkMaxTotalBytes (orCfg orch)) of
        Some e \<Rightarrow> (Inl e, rd, q)
      | None \<Rightarrow>
          (case persistBlobs orch p0 env rd of
             (Inl e, rd1) \<Rightarrow> (Inl e, rd1, q)
           | (Inr p, rd1) \<Rightarrow>
               (case eeEnqueue env of
                  Inl e \<Rightarrow> (Inl e, rd1, q)
                | Inr (tid, queue) \<Rightarrow>
                    (let q1 = q @ [\<lparr>qtID = tid, qtQueue = queue, qtPayload = p, qtMaxRetry = tkRetry (orCfg orch),
                                    qtTimeout = orDefault (tkTaskTimeout (orCfg orch)) (5 * minute)\<rparr>] in
                     case eeToken env of
                       Inl e \<Rightarrow> (Inl (wrap_error ''mint token: '' e), rd1, q1)
                     | Inr token \<Rightarrow>
                         (let rd2 = pipeExec
                                [(tokenKey token, RBinding \<lparr>tbTaskID = tid, tbKeyFP = keyFromAPIKey cr orch apiKey\<rparr>,
                                  orDefault (tkResultTTL (orCfg orch)) (60 * minute)),
                                 (queueKey tid, RBytes queue, tkRetention (orCfg orch))] (eeTokenPipe env) rd1
                          in case eeTokenPipe env of
                               Some (e, _) \<Rightarrow> (Inl (wrap_error ''persist token+queue: '' e), rd2, q1)
                             | None \<Rightarrow> (Inr token, rd2, q1))))))"

definition resolveToken ::
  "crypto \<Rightarrow> Orchestrator \<Rightarrow> redis \<Rightarrow> go_error option \<Rightarrow> string \<Rightarrow> string \<Rightarrow> string result" where
  "resolveToken cr orch rd fault token apiKey =
     (case redis_Get rd fault (tokenKey token) of
        Inl e \<Rightarrow> (if errors_Is e RedisNil then Inl errTaskNotFound else Inl e)
      | Inr (RBytes b) \<Rightarrow> Inl (plain_error ''invalid character'')
      | Inr (RBinding b) \<Rightarrow>
          (if tbKeyFP b \<noteq> [] \<and> keyFromAPIKey cr orch apiKey \<noteq> tbKeyFP b then Inl errTaskNotFound
           else Inr (tbTaskID b)))"

record taskInfo =
  tiState :: string
  tiQueue :: string
  tiRetried :: int
  tiMaxRetry :: int
  tiLastErr :: string

record StatusInfo =
  siTaskID :: string
  siTaskStatus :: string
  siQueue :: string
  siRetried :: int
  siMaxRetry :: int
  siLastError :: string

text \<open>asynq's task states, by the names \<^verbatim>\<open>TaskState.String\<close> gives them.\<close>

definition mapState :: "string \<Rightarrow> string" where
  "mapState s =
     (if s = ''active'' then ''started''
      else if s = ''pending'' \<or> s = ''scheduled'' \<or> s = ''aggregating'' then ''pending''
      else if s = ''retry'' then ''pending''
      else if s = ''archived'' \<or> s = ''completed'' then ''success''
      else ''unknown'')"

definition statusOf :: "string \<Rightarrow> taskInfo \<Rightarrow> StatusInfo" where
  "statusOf token info = \<lparr>siTaskID = token, siTaskStatus = mapState (tiState info), siQueue = tiQueue info,
     siRetried = tiRetried info, siMaxRetry = tiMaxRetry info, siLastError = tiLastErr info\<rparr>"

text \<open>The loop over all queues.\<close>

fun scanQueues :: "(string \<Rightarrow> string \<Rightarrow> taskInfo option) \<Rightarrow> string \<Rightarrow> string \<Rightarrow> string list \<Rightarrow> StatusInfo result" where
  "scanQueues inspect token tid [] = Inl errTaskNotFound"
| "scanQueues inspect token tid (q # qs) =
     (case inspect q tid of Some info \<Rightarrow> Inr (statusOf token info) | None \<Rightarrow> scanQueues inspect token tid qs)"

definition orch_Status ::
  "crypto \<Rightarrow> Orchestrator \<Rightarrow> (string \<Rightarrow> string \<Rightarrow> taskInfo option) \<Rightarrow> string list result \<Rightarrow> redis \<Rightarrow>
   go_error option \<Rightarrow> go_error option \<Rightarrow> string \<Rightarrow> string \<Rightarrow> StatusInfo result" where
  "orch_Status cr orch inspect queues rd fault qfault token apiKey =
     (case resolveToken cr orch rd fault token apiKey of
        Inl e \<Rightarrow> Inl e
      | Inr tid \<Rightarrow>
          (let fast = (case redis_Get rd qfault (queueKey tid) of
                         Inl _ \<Rightarrow> None
                       | Inr v \<Rightarrow> (if bytesOf v \<noteq> [] then inspect (bytesOf v) tid else None))
           in case fast of
                Some info \<Rightarrow> Inr (statusOf token info)
              | None \<Rightarrow> (case queues of Inl e \<Rightarrow> Inl e | Inr qs \<Rightarrow> scanQueues inspect token tid qs)))"

definition orch_Result ::
  "crypto \<Rightarrow> Orchestrator \<Rightarrow> redis \<Rightarrow> go_error option \<Rightarrow> go_error option \<Rightarrow> go_error option \<Rightarrow> string \<Rightarrow> string \<Rightarrow>
   (string \<times> string) result" where
  "orch_Result cr orch rd fault bfault cfault token apiKey =
     (case resolveToken cr orch rd fault token apiKey of
        Inl e \<Rightarrow> Inl e
      | Inr tid \<Rightarrow>
          (case redis_Get rd bfault (resultKey tid) of
             Inl e \<Rightarrow> (if errors_Is e RedisNil then Inl errTaskNotFound else Inl e)
           | Inr v \<Rightarrow> Inr (bytesOf v, (case redis_Get rd cfault (resultKey tid @ '':ct'') of Inl _ \<Rightarrow> [] | Inr c \<Rightarrow> bytesOf c))))"

definition SaveResult ::
  "Orchestrator \<Rightarrow> redis \<Rightarrow> go_error option \<Rightarrow> go_error option \<Rightarrow> string \<Rightarrow> string \<Rightarrow> string \<Rightarrow> go_error option \<times> redis" where
  "SaveResult orch rd fault cfault tid contentType body =
     (let ttl = orDefault (tkResultTTL (orCfg orch)) (60 * minute) in
      case fault of
        Some e \<Rightarrow> (Some e, rd)
      | None \<Rightarrow>
          (let rd1 = redis_Set rd (resultKey tid) (RBytes body) ttl in
           case cfault of
             Some e \<Rightarrow> (Some e, rd1)
           | None \<Rightarrow> (None, redis_Set rd1 (resultKey tid @ '':ct'') (RBytes contentType) ttl)))"

definition ResolveIdempotent ::
  "crypto \<Rightarrow> Orchestrator \<Rightarrow> redis \<Rightarrow> go_error option \<Rightarrow> string \<Rightarrow> string \<Rightarrow> string option result" where
  "ResolveIdempotent cr orch rd fault idem apiKey =
     (if idem = [] then Inr None
      else case redis_Get rd fault (idemKey cr (keyFromAPIKey cr orch apiKey) idem) of
             Inl e \<Rightarrow> (if errors_Is e RedisNil then Inr None else Inl (wrap_error ''idem lookup: '' e))
           | Inr v \<Rightarrow> Inr (Some (bytesOf v)))"

text \<open>\<^verbatim>\<open>SETNX\<close> and, when it lost, the read of the winner.  The token returned beside an error is ignored by the callers.\<close>

definition RecordIdempotent ::
  "crypto \<Rightarrow> Orchestrator \<Rightarrow> redis \<Rightarrow> go_error option \<Rightarrow> go_error option \<Rightarrow> string \<Rightarrow> string \<Rightarrow> string \<Rightarrow> string result \<times> redis" where
  "RecordIdempotent cr orch rd fault gfault idem apiKey token =
     (if idem = [] then (Inr token, rd)
      else let key = idemKey cr (keyFromAPIKey cr orch apiKey) idem;
               ttl = orDefault (tkResultTTL (orCfg orch)) (60 * minute) in
           case fault of
             Some e \<Rightarrow> (Inl (wrap_error ''idem record: '' e), rd)
           | None \<Rightarrow>
               (case map_of rd key of
                  None \<Rightarrow> (Inr token, redis_Set rd key (RBytes token) ttl)
                | Some _ \<Rightarrow>
                    (case redis_Get rd gfault key of
                       Inl e \<Rightarrow> (Inl (wrap_error ''idem read-after-lost-race: '' e), rd)
                     | Inr v \<Rightarrow> (Inr (bytesOf v), rd))))"

definition LoadBlob :: "redis \<Rightarrow> go_error option \<Rightarrow> string \<Rightarrow> string result" where
  "LoadBlob rd fault key =
     (case redis_Get rd fault key of
        Inl e \<Rightarrow> (if errors_Is e RedisNil then Inl errTaskNotFound else Inl e)
      | Inr v \<Rightarrow> Inr (bytesOf v))"

text \<open>One cycle of \<^verbatim>\<open>PollQueueDepth\<close>: the gauge values it sets.\<close>

record queueInfo =
  qiActive :: int
  qiPending :: int
  qiScheduled :: int
  qiRetry :: int
  qiAggregating :: int

definition PollQueueDepth :: "string list result \<Rightarrow> (string \<Rightarrow> queueInfo option) \<Rightarrow> (string \<times> int) list" where
  "PollQueueDepth queues info =
     (case queues of
        Inl e \<Rightarrow> []
      | Inr qs \<Rightarrow> List.map_filter (\<lambda>q. map_option (\<lambda>i. (q, qiActive i + qiPending i + qiScheduled i + qiRetry i + qiAggregating i)) (info q)) qs)"

section \<open>The worker\<close>

type_synonym lifecycle = "(string \<times> string) list"

fun loadFiles :: "redis \<Rightarrow> (nat \<Rightarrow> go_error option) \<Rightarrow> nat \<Rightarrow> BlobRef list \<Rightarrow> FileBlob list result" where
  "loadFiles rd faults k [] = Inr []"
| "loadFiles rd faults k (ref # refs) =
     (case LoadBlob rd (faults k) (brKey ref) of
        Inl e \<Rightarrow> Inl (wrap_error (''load blob '' @ brKey ref @ '': '') e)
      | Inr b \<Rightarrow>
          (case loadFiles rd faults (Suc k) refs of
             Inl e \<Rightarrow> Inl e
           | Inr fs \<Rightarrow> Inr (\<lparr>Filename = brFilename ref, ContentType = brContentType ref, blobSize = brSize ref,
                blobBody = \<lparr>memBuf = Some (b, 0), rdFile = None, rdPath = [], rdSize = int (length b), closed = False\<rparr>\<rparr> # fs)))"

definition workerRequest :: "Payload \<Rightarrow> FileBlob list \<Rightarrow> ConvertRequest" where
  "workerRequest p files =
     \<lparr>Files = files, Sources = plSources p, Options = plOptions p, Headers = [], RequestID = plRequestID p,
      reqFacade = (if plFacade p = [] then FacadeDocling else plFacade p)\<rparr>"

text \<open>\<^verbatim>\<open>handleConvert\<close>; the payload is what decoding the task's JSON gives.  The result has the error asynq sees, the
  store, the engine calls, and the lifecycle counters that were bumped.\<close>

definition skipRetry :: "string \<Rightarrow> go_error \<Rightarrow> go_error" where
  "skipRetry pre e = \<lparr>err_msg = pre @ err_msg e @ '': skip retry for the task'', err_chain = err_chain e @ [SkipRetry]\<rparr>"

definition handleConvert ::
  "Orchestrator \<Rightarrow> staticRegistry \<Rightarrow> engineRun \<Rightarrow> (nat \<Rightarrow> go_error option) \<Rightarrow> go_error option \<Rightarrow> go_error option \<Rightarrow>
   string \<Rightarrow> Payload result \<Rightarrow> redis \<Rightarrow> go_error option \<times> redis \<times> (Engine \<times> ConvertRequest) list \<times> lifecycle" where
  "handleConvert orch reg run faults sfault cfault taskID decoded rd =
     (case decoded of
        Inl e \<Rightarrow> (Some (skipRetry ''unmarshal: '' e), rd, [], [(''failed'', ''unmarshal'')])
      | Inr p \<Rightarrow>
          (case registry_Get reg (plEngine p) of
             Inl e \<Rightarrow> (Some (skipRetry (''engine '' @ plEngine p @ '': '') e), rd, [], [(''failed'', ''unknown_engine'')])
           | Inr eng \<Rightarrow>
               (case loadFiles rd faults 0 (plBlobKeys p) of
                  Inl e \<Rightarrow> (Some e, rd, [], [(''dequeued'', ''success''), (''failed'', ''blob_load'')])
                | Inr files \<Rightarrow>
                    (let req = workerRequest p files in
                     case fst (run 0 eng req) of
                       Inl e \<Rightarrow> (Some e, rd, [(eng, req)], [(''dequeued'', ''success''), (''failed'', ''engine_convert'')])
                     | Inr resp \<Rightarrow>
                         (case srcErr (respBody resp) of
                            Some e \<Rightarrow> (Some e, rd, [(eng, req)], [(''dequeued'', ''success''), (''failed'', ''read_response'')])
                          | None \<Rightarrow>
                              (case SaveResult orch rd sfault cfault taskID (header_Get (respHeaders resp) ''Content-Type'')
                                      (srcData (respBody resp)) of
                                 (Some e, rd1) \<Rightarrow> (Some e, rd1, [(eng, req)], [(''dequeued'', ''success''), (''failed'', ''save_result'')])
                               | (None, rd1) \<Rightarrow> (None, rd1, [(eng, req)], [(''dequeued'', ''success''), (''completed'', ''success'')])))))))"

section \<open>Limits\<close>

lemma blobLimitsLoop_exact:
  assumes "0 < maxBlob" "0 < maxTotal" "maxBlob + maxTotal < 2 ^ 63" "0 \<le> acc" "acc \<le> maxTotal"
  shows "blobLimitsLoop maxBlob maxTotal acc refs = None \<longleftrightarrow>
    list_all (\<lambda>r. 0 \<le> brSize r \<and> brSize r \<le> maxBlob) refs \<and> acc + sum_list (map brSize refs) \<le> maxTotal"
  using assms(4,5)
proof (induction refs arbitrary: acc)
  case (Cons r refs)
  show ?case
  proof (cases "0 \<le> brSize r \<and> brSize r \<le> maxBlob")
    case True
    then have a: "dur_add acc (brSize r) = acc + brSize r"
      using assms(3) Cons.prems by (intro dur_add_in_range) auto
    have "list_all (\<lambda>r. 0 \<le> brSize r \<and> brSize r \<le> maxBlob) refs \<Longrightarrow> 0 \<le> sum_list (map brSize refs)"
      by (induction refs) auto
    with True a Cons.IH[of "acc + brSize r"] Cons.prems assms(2) show ?thesis by auto
  qed (use assms(1) in auto)
qed simp

text \<open>
  C17: the size limits of a submission, exactly: with both caps set and small enough that the \<^verbatim>\<open>int64\<close> total cannot wrap, a payload
  passes if and only if every blob has a known size within the per-blob cap and the sizes add up to at most the aggregate cap.
\<close>

theorem blob_limits_exact:
  assumes "0 < maxBlob" "0 < maxTotal" "maxBlob + maxTotal < 2 ^ 63"
  shows "validateBlobLimits p maxBlob maxTotal = None \<longleftrightarrow>
    list_all (\<lambda>r. 0 \<le> brSize r \<and> brSize r \<le> maxBlob) (plBlobKeys p) \<and> sum_list (map brSize (plBlobKeys p)) \<le> maxTotal"
  using blobLimitsLoop_exact[OF assms, of 0 "plBlobKeys p"] assms(2) by (simp add: validateBlobLimits_def)

definition sized_blob :: "int \<Rightarrow> BlobRef" where
  "sized_blob n = \<lparr>brKey = [], brFilename = ''a'', brContentType = [], brSize = n\<rparr>"

text \<open>The second half shows why the caps must leave room: without a per-blob cap the total wraps and an aggregate cap of ten is passed.\<close>

theorem blob_limits_exact_witness:
  "validateBlobLimits (emptyPayload\<lparr>plBlobKeys := [sized_blob 60, sized_blob 50]\<rparr>) 100 105 \<noteq> None
   \<and> validateBlobLimits (emptyPayload\<lparr>plBlobKeys := [sized_blob 10, sized_blob (2 ^ 63 - 1)]\<rparr>) 0 10 = None"
proof
  show "validateBlobLimits (emptyPayload\<lparr>plBlobKeys := [sized_blob 60, sized_blob 50]\<rparr>) 100 105 \<noteq> None"
    by (subst blob_limits_exact) (simp_all add: sized_blob_def)
  show "validateBlobLimits (emptyPayload\<lparr>plBlobKeys := [sized_blob 10, sized_blob (2 ^ 63 - 1)]\<rparr>) 0 10 = None"
    by (simp add: validateBlobLimits_def sized_blob_def dur_add_def)
qed

section \<open>Payloads of uploads\<close>

definition ref_of :: "(string \<Rightarrow> string option) \<Rightarrow> Resolver option \<Rightarrow> part \<Rightarrow> BlobRef" where
  "ref_of detect rs q = \<lparr>brKey = [], brFilename = FileName q,
     brContentType = resolveAsync detect rs (partContentType q) (srcData (partData q)) (FileName q),
     brSize = int (length (srcData (partData q)))\<rparr>"

lemma drain_Part: "Part r threshold maxBytes env tmp = (Inr s, r', tmp') \<Longrightarrow> drain s = srcData r"
  by (simp add: drain_def Part_Inr)

lemma async_field:
  assumes "FileName q = []"
  shows "field_ok q \<Longrightarrow> payloadLoop detect rs envs maxBlob perr k p bufs tmp (q # ps) =
     payloadLoop detect rs envs maxBlob perr (Suc k) (p\<lparr>plOptions := map_put (FormName q) (srcData (partData q)) (plOptions p)\<rparr>) bufs tmp ps"
   "\<not> field_ok q \<Longrightarrow> \<exists>e. payloadLoop detect rs envs maxBlob perr k p bufs tmp (q # ps) = (Inl e, tmp)"
proof -
  show "field_ok q \<Longrightarrow> payloadLoop detect rs envs maxBlob perr k p bufs tmp (q # ps) =
     payloadLoop detect rs envs maxBlob perr (Suc k) (p\<lparr>plOptions := map_put (FormName q) (srcData (partData q)) (plOptions p)\<rparr>) bufs tmp ps"
    using assms by (simp add: field_ok_def Copy_def asyncMaxFormFieldBytes_def maxFormFieldBytes_def)
  show "\<not> field_ok q \<Longrightarrow> \<exists>e. payloadLoop detect rs envs maxBlob perr k p bufs tmp (q # ps) = (Inl e, tmp)"
    using assms by (auto simp: field_ok_def Copy_def asyncMaxFormFieldBytes_def maxFormFieldBytes_def split: option.split)
qed

lemma async_file:
  assumes "FileName q \<noteq> []" "Part (partData q) asyncSpoolThreshold maxBlob (envs k) tmp = (res, r', tmp1)"
  shows "case res of
      Inl e \<Rightarrow> \<exists>e'. payloadLoop detect rs envs maxBlob perr k p bufs tmp (q # ps) = (Inl e', tmp1)
    | Inr sr \<Rightarrow> payloadLoop detect rs envs maxBlob perr k p bufs tmp (q # ps) =
        payloadLoop detect rs envs maxBlob perr (Suc k) (p\<lparr>plBlobKeys := plBlobKeys p @ [ref_of detect rs q]\<rparr>)
          (bufs @ [srcData (partData q)]) (snd (snd (Close sr None RmOk tmp1))) ps"
  using assms by (cases res) (auto simp: ref_of_def drain_Part)

declare payloadLoop.simps(2) [simp del]

lemma payloadLoop_Inr:
  assumes "payloadLoop detect rs envs maxBlob perr k p bufs tmp parts = (Inr p', tmp')"
  shows "p' = p\<lparr>plBlobKeys := plBlobKeys p @ map (ref_of detect rs) (filter (\<lambda>q. FileName q \<noteq> []) parts),
      plOptions := fold (\<lambda>q. map_put (FormName q) (srcData (partData q))) (filter (\<lambda>q. FileName q = []) parts) (plOptions p),
      localBlobs := Some (bufs @ map (srcData \<circ> partData) (filter (\<lambda>q. FileName q \<noteq> []) parts))\<rparr>"
  using assms
proof (induction parts arbitrary: k p bufs tmp)
  case Nil
  then show ?case by (auto simp: attachLocalBlobs_def split: option.splits)
next
  case (Cons q ps)
  show ?case
  proof (cases "FileName q = []")
    case True
    have "field_ok q"
      using async_field(2)[where detect = detect and rs = rs and envs = envs and maxBlob = maxBlob and perr = perr and k = k and p = p
      and bufs = bufs and tmp = tmp and ps = ps, OF True] Cons.prems by (cases "field_ok q") auto
    from Cons.IH[OF Cons.prems[unfolded async_field(1)[OF True this]]] True show ?thesis by simp
  next
    case False
    obtain res r' tmp1 where part: "Part (partData q) asyncSpoolThreshold maxBlob (envs k) tmp = (res, r', tmp1)"
      by (metis prod_cases3)
    note f = async_file[where envs = envs and k = k and rs = rs and perr = perr and p = p and bufs = bufs and ps = ps and detect = detect, OF False part]
    with Cons.prems obtain sr where "res = Inr sr" by (cases res) auto
    with Cons.IH[OF trans[OF sym Cons.prems]] f False show ?thesis by auto
  qed
qed

lemma payloadLoop_tmp:
  assumes "fresh_names envs tmp" "payloadLoop detect rs envs maxBlob perr k p bufs tmp parts = (res, tmp')"
  shows "tmp' = tmp"
  using assms(2)
proof (induction parts arbitrary: k p bufs)
  case Nil
  then show ?case by (auto split: option.splits)
next
  case (Cons q ps)
  show ?case
  proof (cases "FileName q = []")
    case True
    note f = async_field[where detect = detect and rs = rs and envs = envs and maxBlob = maxBlob and perr = perr and k = k and p = p
      and bufs = bufs and tmp = tmp and ps = ps, OF True]
    show ?thesis
    proof (cases "field_ok q")
      case ok: True
      from Cons.IH[OF Cons.prems[unfolded f(1)[OF ok]]] show ?thesis .
    next
      case False
      with f(2) Cons.prems show ?thesis by auto
    qed
  next
    case False
    obtain r1 r' tmp1 where part: "Part (partData q) asyncSpoolThreshold maxBlob (envs k) tmp = (r1, r', tmp1)"
      by (metis prod_cases3)
    note f = async_file[where envs = envs and k = k and rs = rs and perr = perr and p = p and bufs = bufs and ps = ps and detect = detect, OF False part]
    have new: "path \<notin> tmp" if "envCreateTemp (envs k) = Inr path" for path
      using assms(1) that by (auto simp: fresh_names_def)
    have "[] \<notin> tmp" using assms(1) by (simp add: fresh_names_def)
    note t = Part_tmp[OF new this part]
    show ?thesis
    proof (cases r1)
      case (Inl e)
      with t f Cons.prems show ?thesis by auto
    next
      case (Inr sr)
      then have "reader_ok sr" using part by (auto dest: Part_Inr(1))
      with t Inr new have "snd (snd (Close sr None RmOk tmp1)) = tmp" by (auto simp: Close_tmp)
      with f Inr Cons show ?thesis by simp
    qed
  qed
qed

section \<open>Tokens\<close>

lemma key_disjoint [simp]:
  "tokenKey a \<noteq> queueKey b" "tokenKey a \<noteq> resultKey b" "tokenKey a \<noteq> resultKey b @ c" "tokenKey a \<noteq> blobKey b" "tokenKey a \<noteq> idemKey cr b c"
  "resultKey a \<noteq> tokenKey b" "queueKey a \<noteq> tokenKey b" "blobKey a \<noteq> tokenKey b" "idemKey cr a b \<noteq> tokenKey c"
  "blobKey a \<noteq> queueKey b" "blobKey a \<noteq> resultKey b" "blobKey a \<noteq> resultKey b @ c" "blobKey a \<noteq> idemKey cr b c"
  "queueKey a \<noteq> blobKey b" "resultKey a \<noteq> blobKey b" "idemKey cr a b \<noteq> blobKey c"
  "idemKey cr a b \<noteq> queueKey c" "queueKey c \<noteq> idemKey cr a b"
  by (simp_all add: tokenKey_def queueKey_def resultKey_def blobKey_def idemKey_def)

lemma tokenKey_inj [simp]: "tokenKey a = tokenKey b \<longleftrightarrow> a = b"
  by (simp add: tokenKey_def)

lemma blobKey_inj [simp]: "blobKey a = blobKey b \<longleftrightarrow> a = b"
  by (simp add: blobKey_def)

lemma map_of_Set [simp]: "map_of (redis_Set rd k v ttl) = (map_of rd)(k \<mapsto> (v, ttl))"
  by (simp add: redis_Set_def)

lemma fold_Set_other:
  "key \<notin> fst ` set cmds \<Longrightarrow> map_of (fold (\<lambda>(k, v, ttl) r. redis_Set r k v ttl) cmds rd) key = map_of rd key"
  by (induction cmds arbitrary: rd) auto

lemma pipeExec_other:
  assumes "key \<notin> fst ` set cmds"
  shows "map_of (pipeExec cmds fault rd) key = map_of rd key"
proof (cases fault)
  case (Some f)
  obtain e took where f: "f = (e, took)" by fastforce
  have "key \<notin> fst ` set (map ((!) cmds) (filter (\<lambda>i. i < length cmds) took))"
  proof
    assume "key \<in> fst ` set (map ((!) cmds) (filter (\<lambda>i. i < length cmds) took))"
    then obtain i where "i < length cmds" "key = fst (cmds ! i)" by auto
    with assms show False using nth_mem by blast
  qed
  then show ?thesis unfolding pipeExec_def Some f by (simp add: fold_Set_other del: set_map)
qed (simp add: pipeExec_def fold_Set_other assms)

lemma fold_Set_at:
  "distinct (map fst cmds) \<Longrightarrow> (k, c) \<in> set cmds \<Longrightarrow>
   map_of (fold (\<lambda>(k, v, ttl) r. redis_Set r k v ttl) cmds rd) k = Some c"
proof (induction cmds arbitrary: rd)
  case (Cons d cmds)
  show ?case
  proof (cases "d = (k, c)")
    case True
    with Cons.prems(1) have "k \<notin> fst ` set cmds" by auto
    then show ?thesis using True by (cases c) (simp add: fold_Set_other)
  qed (use Cons in auto)
qed simp

definition blobCmds :: "Orchestrator \<Rightarrow> enqEnv \<Rightarrow> string list \<Rightarrow> (string \<times> redisVal \<times> Duration) list" where
  "blobCmds orch env bufs = map (\<lambda>(k, b). (k, RBytes b, tkRetention (orCfg orch)))
     (zip (map (\<lambda>i. blobKey (eeUUID env i)) [0..<length bufs]) bufs)"

lemma persistBlobs_eq:
  "persistBlobs orch p env rd =
     (case takeBuffers p of (bufs, p1) \<Rightarrow>
        if bufs = [] then (Inr p1, rd)
        else (case eeBlobPipe env of
                Some (e, _) \<Rightarrow> Inl (wrap_error ''persist blobs: '' e)
              | None \<Rightarrow> Inr (p1\<lparr>plBlobKeys := assignKeys (map (\<lambda>i. blobKey (eeUUID env i)) [0..<length bufs]) (plBlobKeys p1)\<rparr>),
              pipeExec (blobCmds orch env bufs) (eeBlobPipe env) rd))"
  by (auto simp: persistBlobs_def Let_def blobCmds_def split: option.split prod.split)

lemma blobCmds_keys: "fst ` set (blobCmds orch env bufs) \<subseteq> range blobKey"
  by (auto simp: blobCmds_def dest!: set_zip_leftD)

lemma persistBlobs_other:
  assumes "key \<notin> range blobKey"
  shows "map_of (snd (persistBlobs orch p env rd)) key = map_of rd key"
proof -
  have "map_of (pipeExec (blobCmds orch env bufs) f rd) key = map_of rd key" for bufs f
    by (rule pipeExec_other) (use blobCmds_keys assms in blast)
  then show ?thesis by (simp add: persistBlobs_eq split: prod.split)
qed

definition enqueuedTask :: "Orchestrator \<Rightarrow> string \<Rightarrow> string \<Rightarrow> Payload \<Rightarrow> queuedTask" where
  "enqueuedTask orch tid queue p = \<lparr>qtID = tid, qtQueue = queue, qtPayload = p, qtMaxRetry = tkRetry (orCfg orch),
     qtTimeout = orDefault (tkTaskTimeout (orCfg orch)) (5 * minute)\<rparr>"

definition tokenTTL :: "Orchestrator \<Rightarrow> Duration" where
  "tokenTTL orch = orDefault (tkResultTTL (orCfg orch)) (60 * minute)"

definition tokenCmds :: "crypto \<Rightarrow> Orchestrator \<Rightarrow> string \<Rightarrow> string \<Rightarrow> string \<Rightarrow> string \<Rightarrow> (string \<times> redisVal \<times> Duration) list" where
  "tokenCmds cr orch apiKey token tid queue =
     [(tokenKey token, RBinding \<lparr>tbTaskID = tid, tbKeyFP = keyFromAPIKey cr orch apiKey\<rparr>, tokenTTL orch),
      (queueKey tid, RBytes queue, tkRetention (orCfg orch))]"

lemmas Enqueue_unfold = Enqueue_def[folded enqueuedTask_def tokenTTL_def, folded tokenCmds_def, unfolded Let_def]

lemma Enqueue_token_frame:
  assumes "eeToken env \<noteq> Inr t"
  shows "map_of (fst (snd (Enqueue cr orch p apiKey env rd q))) (tokenKey t) = map_of rd (tokenKey t)"
proof -
  obtain pr rd1 where b: "persistBlobs orch p env rd = (pr, rd1)" by fastforce
  have f: "map_of rd1 (tokenKey t) = map_of rd (tokenKey t)"
    using persistBlobs_other[of "tokenKey t" orch p env rd] b by (simp add: image_iff)
  have "map_of (pipeExec (tokenCmds cr orch apiKey t' tid queue) fault rd1) (tokenKey t) = map_of rd1 (tokenKey t)"
    if "t' \<noteq> t" for t' tid queue fault
    using that by (intro pipeExec_other) (auto simp: tokenCmds_def)
  with assms f show ?thesis
    by (auto simp: Enqueue_unfold b split: option.split sum.split)
qed

lemma Enqueue_Inr:
  assumes "Enqueue cr orch p apiKey env rd q = (Inr token, rd', q')"
  obtains tid queue p1 rd1 where "eeEnqueue env = Inr (tid, queue)" "eeToken env = Inr token"
    "persistBlobs orch p env rd = (Inr p1, rd1)" "q' = q @ [enqueuedTask orch tid queue p1]"
    "rd' = pipeExec (tokenCmds cr orch apiKey token tid queue) None rd1"
    "validateBlobLimits p (tkMaxBlobBytes (orCfg orch)) (tkMaxTotalBytes (orCfg orch)) = None"
  using assms by (auto simp: Enqueue_unfold split: option.splits sum.splits prod.splits)

lemma tokenCmds_binding:
  "map_of (pipeExec (tokenCmds cr orch apiKey token tid queue) None rd) (tokenKey token)
     = Some (RBinding \<lparr>tbTaskID = tid, tbKeyFP = keyFromAPIKey cr orch apiKey\<rparr>, tokenTTL orch)"
  by (simp add: pipeExec_def tokenCmds_def)

lemma tokenCmds_blob:
  "map_of (pipeExec (tokenCmds cr orch apiKey token tid queue) fault rd) (blobKey u) = map_of rd (blobKey u)"
  by (intro pipeExec_other) (simp add: tokenCmds_def)

text \<open>The operations that change the store, and the expiry of an entry.\<close>

datatype taskOp =
    OpEnqueue Payload string enqEnv
  | OpRecord string string string "go_error option" "go_error option"
  | OpSave string string string "go_error option" "go_error option"
  | OpExpire string

fun task_step :: "crypto \<Rightarrow> Orchestrator \<Rightarrow> taskOp \<Rightarrow> redis \<times> queuedTask list \<Rightarrow> redis \<times> queuedTask list" where
  "task_step cr orch (OpEnqueue p apiKey env) (rd, q) = snd (Enqueue cr orch p apiKey env rd q)"
| "task_step cr orch (OpRecord idem apiKey token f g) (rd, q) = (snd (RecordIdempotent cr orch rd f g idem apiKey token), q)"
| "task_step cr orch (OpSave tid ct body f g) (rd, q) = (snd (SaveResult orch rd f g tid ct body), q)"
| "task_step cr orch (OpExpire key) (rd, q) = (map_del key rd, q)"

fun mints :: "string \<Rightarrow> taskOp \<Rightarrow> bool" where
  "mints t (OpEnqueue p apiKey env) = (eeToken env = Inr t)"
| "mints t _ = False"

lemma task_step_token:
  assumes "\<not> mints t op"
  shows "map_of (fst (task_step cr orch op s)) (tokenKey t) \<in> {map_of (fst s) (tokenKey t), None}"
proof (cases s)
  case (Pair rd q)
  show ?thesis unfolding Pair using assms
    by (cases op) (auto simp: Enqueue_token_frame RecordIdempotent_def SaveResult_def Let_def split: option.split sum.split)
qed

lemma task_steps_token:
  "list_all (\<lambda>op. \<not> mints t op) ops \<Longrightarrow>
   map_of (fst (fold (task_step cr orch) ops s)) (tokenKey t) \<in> {map_of (fst s) (tokenKey t), None}"
proof (induction ops arbitrary: s)
  case (Cons op ops)
  from Cons.IH[of "task_step cr orch op s"] task_step_token[of t op cr orch s] Cons.prems show ?case
    by (auto split: if_splits)
qed simp

lemma resolveToken_None: "map_of rd (tokenKey t) = None \<Longrightarrow> resolveToken cr orch rd None t k = Inl errTaskNotFound"
  by (simp add: resolveToken_def redis_Get_def errRedisNil_def)

lemma resolveToken_Some:
  "map_of rd (tokenKey t) = Some (RBinding b, ttl) \<Longrightarrow> resolveToken cr orch rd None t k =
     (if tbKeyFP b \<noteq> [] \<and> keyFromAPIKey cr orch k \<noteq> tbKeyFP b then Inl errTaskNotFound else Inr (tbTaskID b))"
  by (simp add: resolveToken_def redis_Get_def)

text \<open>
  C4: a task token works for the caller it was issued to and for nobody else.  Take a submission with a non-empty API key that was
  accepted, and any later sequence of submissions by anyone, idempotency records, saved results and expiries in which the token is
  not minted again.  Then a caller whose key has another fingerprint gets \<^verbatim>\<open>ErrNotFound\<close> from both status and result, exactly as for an
  unknown token, whereas the owner is resolved to the task of the submission until the binding expires.
\<close>

theorem token_bound_to_caller:
  assumes "Enqueue cr orch p k env rd q = (Inr token, rd1, q1)" "keyFromAPIKey cr orch k \<noteq> []"
    and "list_all (\<lambda>op. \<not> mints token op) ops" "fold (task_step cr orch) ops (rd1, q1) = (rd2, q2)"
    and "keyFromAPIKey cr orch k' \<noteq> keyFromAPIKey cr orch k"
  shows "orch_Status cr orch inspect queues rd2 None qf token k' = Inl errTaskNotFound
       \<and> orch_Result cr orch rd2 None bf cf token k' = Inl errTaskNotFound
       \<and> resolveToken cr orch rd2 None token k =
           (if map_of rd2 (tokenKey token) = None then Inl errTaskNotFound else Inr (qtID (last q1)))"
proof -
  obtain tid queue p1 rd0 where e: "q1 = q @ [enqueuedTask orch tid queue p1]"
    "rd1 = pipeExec (tokenCmds cr orch k token tid queue) None rd0"
    using Enqueue_Inr[OF assms(1)] by metis
  let ?b = "\<lparr>tbTaskID = tid, tbKeyFP = keyFromAPIKey cr orch k\<rparr>"
  have "map_of rd2 (tokenKey token) \<in> {Some (RBinding ?b, tokenTTL orch), None}"
    using task_steps_token[OF assms(3), of cr orch "(rd1, q1)", unfolded assms(4)] e(2) by (simp add: tokenCmds_binding)
  then have "resolveToken cr orch rd2 None token k' = Inl errTaskNotFound
      \<and> resolveToken cr orch rd2 None token k = (if map_of rd2 (tokenKey token) = None then Inl errTaskNotFound else Inr tid)"
    using assms(2,5) by (auto simp: resolveToken_None resolveToken_Some[where b = ?b and ttl = "tokenTTL orch"])
  then show ?thesis by (simp add: orch_Status_def orch_Result_def e(1) enqueuedTask_def)
qed

text \<open>A stand-in for the hash functions: the bytes in hexadecimal.\<close>

definition hexEncode :: "string \<Rightarrow> string" where
  "hexEncode s = concat (map (\<lambda>c. [hex_nibble (byte_of c div 16), hex_nibble (byte_of c mod 16)]) s)"

definition demo_crypto :: crypto where
  "demo_crypto = \<lparr>sha256hex = hexEncode, hmac256hex = (\<lambda>k m. hexEncode (k @ m))\<rparr>"

definition demo_orch :: Orchestrator where
  "demo_orch = \<lparr>orCfg = \<lparr>tkEnabled = True, tkRedisURLEnv = [], tkRedisURL = ''redis://r'', tkQueueConcurrency = 1,
      tkRetention = 100, tkRetry = 3, tkResultTTL = 0, tkTaskTimeout = 0, tkMaxBlobBytes = 100, tkMaxTotalBytes = 200,
      tkQueueWeights = []\<rparr>, orPepper = ''p''\<rparr>"

definition demo_enq :: "string \<Rightarrow> string \<Rightarrow> enqEnv" where
  "demo_enq tid token = \<lparr>eeUUID = (\<lambda>i. tid @ show_nat i), eeBlobPipe = None, eeEnqueue = Inr (tid, ''default''), eeToken = Inr token,
     eeTokenPipe = None\<rparr>"

definition demo_payload :: Payload where
  "demo_payload = emptyPayload\<lparr>plEngine := ''tika'', plBlobKeys := [sized_blob 4], localBlobs := Some [''%PDF'']\<rparr>"

theorem token_bound_to_caller_witness:
  "\<exists>rd1 q1 rd2 q2. Enqueue demo_crypto demo_orch demo_payload ''k1'' (demo_enq ''t1'' ''tok1'') [] [] = (Inr ''tok1'', rd1, q1)
     \<and> fold (task_step demo_crypto demo_orch)
         [OpEnqueue demo_payload ''k2'' (demo_enq ''t2'' ''tok2''), OpSave ''t1'' ''text/plain'' ''body'' None None] (rd1, q1) = (rd2, q2)
     \<and> orch_Result demo_crypto demo_orch rd2 None None None ''tok1'' ''k2'' = Inl errTaskNotFound
     \<and> resolveToken demo_crypto demo_orch rd1 None ''tok1'' ''k1'' = Inr ''t1''"
proof -
  let ?ops = "[OpEnqueue demo_payload ''k2'' (demo_enq ''t2'' ''tok2''), OpSave ''t1'' ''text/plain'' ''body'' None None]"
  let ?e = "Enqueue demo_crypto demo_orch demo_payload ''k1'' (demo_enq ''t1'' ''tok1'') [] []"
  let ?s = "fold (task_step demo_crypto demo_orch) ?ops (snd ?e)"
  have "validateBlobLimits demo_payload 100 200 = None"
    by (simp add: validateBlobLimits_def demo_payload_def emptyPayload_def sized_blob_def dur_add_def)
  then have a: "fst ?e = Inr ''tok1''"
    by (simp add: Enqueue_unfold persistBlobs_eq demo_orch_def demo_enq_def split: prod.split)
  then have e: "?e = (Inr ''tok1'', fst (snd ?e), snd (snd ?e))" by (metis prod.collapse)
  have s: "fold (task_step demo_crypto demo_orch) ?ops (fst (snd ?e), snd (snd ?e)) = (fst ?s, snd ?s)" by (metis prod.collapse)
  have "keyFromAPIKey demo_crypto demo_orch ''k1'' \<noteq> []"
    by (simp add: keyFromAPIKey_def demo_crypto_def demo_orch_def hexEncode_def)
  moreover have "list_all (\<lambda>op. \<not> mints ''tok1'' op) ?ops" by (simp add: demo_enq_def)
  moreover have "keyFromAPIKey demo_crypto demo_orch ''k2'' \<noteq> keyFromAPIKey demo_crypto demo_orch ''k1''"
    by (simp add: keyFromAPIKey_def demo_crypto_def demo_orch_def hexEncode_def hex_nibble_def byte_of_def)
  ultimately have "orch_Result demo_crypto demo_orch (fst ?s) None None None ''tok1'' ''k2'' = Inl errTaskNotFound"
    using token_bound_to_caller[OF e _ _ s] by blast
  moreover have "resolveToken demo_crypto demo_orch (fst (snd ?e)) None ''tok1'' ''k1'' = Inr ''t1''"
    using e
  proof (rule Enqueue_Inr)
    fix tid queue p1 rd1
    assume t: "eeEnqueue (demo_enq ''t1'' ''tok1'') = Inr (tid, queue)"
      and r: "fst (snd ?e) = pipeExec (tokenCmds demo_crypto demo_orch ''k1'' ''tok1'' tid queue) None rd1"
    then have "tid = ''t1''" by (simp add: demo_enq_def)
    then show ?thesis unfolding r by (simp add: resolveToken_Some[OF tokenCmds_binding])
  qed
  ultimately show ?thesis using e s by blast
qed

section \<open>The worker\<close>


definition demo_answer :: engineRun where
  "demo_answer n e q = (Inr \<lparr>StatusCode = 500, respHeaders = [(''Content-Type'', [''text/plain''])],
     respBody = \<lparr>srcData = ''oops'', srcErr = None\<rparr>\<rparr>, q)"


section \<open>Blobs from the submission to the engine\<close>

lemma assignKeys_step:
  "length keys + n \<le> length refs \<Longrightarrow>
   fold (\<lambda>(i, k) rs. rs[i := (rs ! i)\<lparr>brKey := k\<rparr>]) (zip [n..<n + length keys] keys) refs =
     take n refs @ map2 (\<lambda>k r. r\<lparr>brKey := k\<rparr>) keys (drop n refs) @ drop (n + length keys) refs"
proof (induction keys arbitrary: n refs)
  case (Cons k keys)
  then have n: "n < length refs" by simp
  have u: "[n..<n + length (k # keys)] = n # [Suc n..<Suc n + length keys]"
    by (subst upt_conv_Cons) simp_all
  let ?refs = "refs[n := (refs ! n)\<lparr>brKey := k\<rparr>]"
  have "take (Suc n) ?refs = take n refs @ [(refs ! n)\<lparr>brKey := k\<rparr>]" using n by (simp add: take_Suc_conv_app_nth)
  moreover have "drop (Suc n) ?refs = drop (Suc n) refs" by simp
  moreover have "drop n refs = refs ! n # drop (Suc n) refs" using n by (simp add: Cons_nth_drop_Suc)
  ultimately show ?case using Cons.IH[of "Suc n" ?refs] Cons.prems unfolding u by simp
qed simp

lemma assignKeys_eq:
  "length keys = length refs \<Longrightarrow> assignKeys keys refs = map2 (\<lambda>k r. r\<lparr>brKey := k\<rparr>) keys refs"
  using assignKeys_step[of keys 0 refs] by (simp add: assignKeys_def)

text \<open>Loading what was stored: the k-th file is the k-th buffer with the metadata of its reference.\<close>

definition loaded_file :: "BlobRef \<Rightarrow> string \<Rightarrow> FileBlob" where
  "loaded_file r b = \<lparr>Filename = brFilename r, ContentType = brContentType r, blobSize = brSize r,
     blobBody = \<lparr>memBuf = Some (b, 0), rdFile = None, rdPath = [], rdSize = int (length b), closed = False\<rparr>\<rparr>"

lemma loadFiles_stored:
  assumes "list_all2 (\<lambda>r b. \<exists>ttl. map_of rd (brKey r) = Some (RBytes b, ttl)) refs bufs"
  shows "loadFiles rd (\<lambda>_. None) k refs = Inr (map2 loaded_file refs bufs)"
  using assms by (induction arbitrary: k rule: list_all2_induct)
    (auto simp: LoadBlob_def redis_Get_def loaded_file_def bytesOf_def)

lemma persistBlobs_stored:
  assumes "localBlobs p = Some bufs" "length bufs = length (plBlobKeys p)" "inj (eeUUID env)"
    and "persistBlobs orch p env rd = (Inr p1, rd1)"
  shows "p1 = p\<lparr>localBlobs := None, plBlobKeys := map2 (\<lambda>i r. r\<lparr>brKey := blobKey (eeUUID env i)\<rparr>) [0..<length bufs] (plBlobKeys p)\<rparr>"
    "list_all2 (\<lambda>r b. \<exists>ttl. map_of rd1 (brKey r) = Some (RBytes b, ttl)) (plBlobKeys p1) bufs"
    "\<forall>r \<in> set (plBlobKeys p1). brKey r \<in> range blobKey"
proof -
  let ?keys = "map (\<lambda>i. blobKey (eeUUID env i)) [0..<length bufs]"
  have t: "takeBuffers p = (bufs, p\<lparr>localBlobs := None\<rparr>)" using assms(1) by (simp add: takeBuffers_def)
  have p1: "p1 = p\<lparr>localBlobs := None, plBlobKeys := map2 (\<lambda>i r. r\<lparr>brKey := blobKey (eeUUID env i)\<rparr>) [0..<length bufs] (plBlobKeys p)\<rparr>"
  proof (cases "bufs = []")
    case True
    then have "p1 = p\<lparr>localBlobs := None\<rparr>" "plBlobKeys p = []" using assms(2,4) by (simp_all add: persistBlobs_eq t)
    then show ?thesis using True by (cases p) simp
  next
    case False
    then show ?thesis using assms(2,4) t
      by (auto simp: persistBlobs_eq assignKeys_eq zip_map1 comp_def split_beta split: option.splits)
  qed
  then show "p1 = p\<lparr>localBlobs := None, plBlobKeys := map2 (\<lambda>i r. r\<lparr>brKey := blobKey (eeUUID env i)\<rparr>) [0..<length bufs] (plBlobKeys p)\<rparr>" .
  show "\<forall>r \<in> set (plBlobKeys p1). brKey r \<in> range blobKey" by (auto simp: p1)
  have d: "distinct (map fst (blobCmds orch env bufs))"
    using assms(3) by (auto simp: blobCmds_def comp_def split_beta distinct_map inj_on_def inj_def map_fst_zip_take)
  show "list_all2 (\<lambda>r b. \<exists>ttl. map_of rd1 (brKey r) = Some (RBytes b, ttl)) (plBlobKeys p1) bufs"
  proof (rule list_all2_all_nthI)
    show "length (plBlobKeys p1) = length bufs" using assms(2) by (simp add: p1)
    fix n assume "n < length (plBlobKeys p1)"
    then have n: "n < length bufs" by (simp add: p1)
    then have "bufs \<noteq> []" by auto
    with assms(4) t have "rd1 = pipeExec (blobCmds orch env bufs) None rd"
      by (auto simp: persistBlobs_eq split: option.splits)
    moreover have "(blobKey (eeUUID env n), RBytes (bufs ! n), tkRetention (orCfg orch)) \<in> set (blobCmds orch env bufs)"
      using n by (auto simp: blobCmds_def in_set_zip image_iff intro!: bexI[of _ "(blobKey (eeUUID env n), bufs ! n)"] exI[of _ n])
    ultimately have "map_of rd1 (blobKey (eeUUID env n)) = Some (RBytes (bufs ! n), tkRetention (orCfg orch))"
      using fold_Set_at[OF d] by (simp add: pipeExec_def)
    then show "\<exists>ttl. map_of rd1 (brKey (plBlobKeys p1 ! n)) = Some (RBytes (bufs ! n), ttl)"
      using n assms(2) by (simp add: p1)
  qed
qed

end
