(* ===== verification/Async.thy ===== *)
theory Async
  imports Tasks
begin

text \<open>
  \<^verbatim>\<open>handlers/async.go\<close>: the submit, poll and result endpoints over the orchestrator, concurrent submissions with an
  idempotency key as a step relation, and the path of an upload from its submission through the worker to its result.
\<close>

section \<open>Handlers\<close>

datatype asyncBody =
    ABDocling DoclingError
  | ABExternal ExternalError
  | ABAccepted string string
  | ABStatus StatusInfo
  | ABResult string

record asyncReply =
  arStatus :: int
  arHeaders :: Header
  arBody :: asyncBody

definition async_docling_error :: "int \<Rightarrow> string \<Rightarrow> asyncReply" where
  "async_docling_error status msg = \<lparr>arStatus = status, arHeaders = [], arBody = ABDocling (NewDoclingError msg)\<rparr>"

definition async_external_error :: "int \<Rightarrow> string \<Rightarrow> asyncReply" where
  "async_external_error status msg = \<lparr>arStatus = status, arHeaders = [], arBody = ABExternal (NewExternalError msg)\<rparr>"

definition asyncAccepted :: "string \<Rightarrow> asyncReply" where
  "asyncAccepted token = \<lparr>arStatus = 202, arHeaders = [], arBody = ABAccepted token ''pending''\<rparr>"

definition maxBlobBytes :: "Orchestrator option \<Rightarrow> int" where
  "maxBlobBytes orch = (case orch of None \<Rightarrow> 0 | Some o' \<Rightarrow> tkMaxBlobBytes (orCfg o'))"

definition isClientError :: "go_error \<Rightarrow> bool" where
  "isClientError e \<longleftrightarrow> Contains (err_msg e) ''exceeds max_blob_bytes'' \<or> Contains (err_msg e) ''exceeds max_total_bytes''"

definition apiKeyOf :: "string \<Rightarrow> Header \<Rightarrow> string" where
  "apiKeyOf apiKeyHeader h = (if apiKeyHeader \<noteq> [] then header_Get h apiKeyHeader else [])"

record submitEnv =
  seResolve :: "go_error option"
  seEnq :: enqEnv
  seSetNX :: "go_error option"
  seGet :: "go_error option"

text \<open>What both submit handlers do once the payload is ready: the idempotency fast path, the enqueue, the record.\<close>

definition submitTail ::
  "(int \<Rightarrow> string \<Rightarrow> asyncReply) \<Rightarrow> crypto \<Rightarrow> Orchestrator \<Rightarrow> Payload \<Rightarrow> string \<Rightarrow> string \<Rightarrow> submitEnv \<Rightarrow>
   redis \<times> queuedTask list \<Rightarrow> asyncReply \<times> redis \<times> queuedTask list" where
  "submitTail mkErr cr orch payload apiKey idem env st =
     (case st of (rd, q) \<Rightarrow>
        (case ResolveIdempotent cr orch rd (seResolve env) idem apiKey of
           Inr (Some existing) \<Rightarrow> (asyncAccepted existing, rd, q)
         | _ \<Rightarrow>
             (case Enqueue cr orch payload apiKey (seEnq env) rd q of
                (Inl e, rd1, q1) \<Rightarrow>
                  (if isClientError e then mkErr 400 (err_msg e) else mkErr 503 (''enqueue: '' @ err_msg e), rd1, q1)
              | (Inr token, rd1, q1) \<Rightarrow>
                  (case RecordIdempotent cr orch rd1 (seSetNX env) (seGet env) idem apiKey token of
                     (Inr effective, rd2) \<Rightarrow> (asyncAccepted (if effective \<noteq> [] then effective else token), rd2, q1)
                   | (Inl _, rd2) \<Rightarrow> (asyncAccepted token, rd2, q1)))))"

definition asyncPick :: "staticRegistry \<Rightarrow> bool \<Rightarrow> Payload \<Rightarrow> Engine" where
  "asyncPick reg source p =
     (case plBlobKeys p of
        ref # _ \<Rightarrow>
          (if source then registry_Default reg
           else case PickRouteVerbose reg FacadeDocling \<lparr>hintMIME = brContentType ref, hintFilename = brFilename ref\<rparr> of
                  Inr (picked, _) \<Rightarrow> picked
                | Inl _ \<Rightarrow> registry_Default reg)
      | [] \<Rightarrow> registry_Default reg)"

definition submit ::
  "crypto \<Rightarrow> Orchestrator option \<Rightarrow> staticRegistry \<Rightarrow> string \<Rightarrow> bool \<Rightarrow> string \<Rightarrow> Header \<Rightarrow> Payload result \<Rightarrow> submitEnv \<Rightarrow>
   redis \<times> queuedTask list \<Rightarrow> asyncReply \<times> redis \<times> queuedTask list" where
  "submit cr orchestrator reg apiKeyHeader source requestID h built env st =
     (case orchestrator of
        None \<Rightarrow> (async_docling_error 501 ''async tasks not enabled'', st)
      | Some orch \<Rightarrow>
          (case built of
             Inl e \<Rightarrow> (async_docling_error 400 (err_msg e), st)
           | Inr payload \<Rightarrow>
               (let eng = asyncPick reg source payload in
                if source \<and> plSources payload \<noteq> [] \<and> \<not> HTTPSources (Capabilities eng)
                then (async_docling_error 400 (''engine '' @ engineName eng @ '' does not support http_sources''), st)
                else submitTail async_docling_error cr orch
                       (payload\<lparr>plFacade := FacadeDocling, plEngine := engineName eng, plRequestID := requestID\<rparr>)
                       (apiKeyOf apiKeyHeader h) (header_Get h ''Idempotency-Key'') env st)))"

definition SubmitFile ::
  "(string \<Rightarrow> string option) \<Rightarrow> Resolver option \<Rightarrow> (nat \<Rightarrow> spoolEnv) \<Rightarrow> crypto \<Rightarrow> Orchestrator option \<Rightarrow> staticRegistry \<Rightarrow> string \<Rightarrow>
   string \<Rightarrow> Header \<Rightarrow> string result \<Rightarrow> part list \<Rightarrow> go_error option \<Rightarrow> submitEnv \<Rightarrow> redis \<times> queuedTask list \<Rightarrow> tempfiles \<Rightarrow>
   asyncReply \<times> (redis \<times> queuedTask list) \<times> tempfiles" where
  "SubmitFile detect rs envs cr orchestrator reg apiKeyHeader requestID h mediaType parts perr env st tmp =
     (case orchestrator of
        None \<Rightarrow> (async_docling_error 501 ''async tasks not enabled'', st, tmp)
      | Some orch \<Rightarrow>
          (case payloadFromMultipart detect rs envs (maxBlobBytes orchestrator) mediaType parts perr tmp of
             (built, tmp1) \<Rightarrow>
               (case submit cr orchestrator reg apiKeyHeader False requestID h built env st of
                  (rep, st1) \<Rightarrow> (rep, st1, tmp1))))"

definition SubmitSource ::
  "crypto \<Rightarrow> Orchestrator option \<Rightarrow> staticRegistry \<Rightarrow> string \<Rightarrow> string \<Rightarrow> Header \<Rightarrow>
   (HTTPSource list \<times> (string, string) gomap) result \<Rightarrow> submitEnv \<Rightarrow> redis \<times> queuedTask list \<Rightarrow>
   asyncReply \<times> redis \<times> queuedTask list" where
  "SubmitSource cr orchestrator reg apiKeyHeader requestID h body env st =
     submit cr orchestrator reg apiKeyHeader True requestID h (payloadFromJSON body) env st"

definition SubmitProcess ::
  "(string \<Rightarrow> string option) \<Rightarrow> Resolver option \<Rightarrow> spoolEnv \<Rightarrow> crypto \<Rightarrow> Orchestrator option \<Rightarrow> staticRegistry \<Rightarrow> string \<Rightarrow>
   string \<Rightarrow> Header \<Rightarrow> src \<Rightarrow> submitEnv \<Rightarrow> redis \<times> queuedTask list \<Rightarrow> tempfiles \<Rightarrow>
   asyncReply \<times> (redis \<times> queuedTask list) \<times> tempfiles" where
  "SubmitProcess detect rs senv cr orchestrator reg apiKeyHeader requestID h body env st tmp =
     (case orchestrator of
        None \<Rightarrow> (async_external_error 501 ''async tasks not enabled'', st, tmp)
      | Some orch \<Rightarrow>
          (case PayloadFromExternalRequest detect rs senv (maxBlobBytes orchestrator) h
                  (decodeFilename (header_Get h ''X-Filename'')) body tmp of
             (Inl e, tmp1) \<Rightarrow> (async_external_error 400 (err_msg e), st, tmp1)
           | (Inr payload, tmp1) \<Rightarrow>
               (case (case plBlobKeys payload of
                        ref # _ \<Rightarrow> PickRouteVerbose reg FacadeExternal \<lparr>hintMIME = brContentType ref, hintFilename = brFilename ref\<rparr>
                      | [] \<Rightarrow> Inr (registry_Default reg, PickSourceDefault)) of
                  Inl e \<Rightarrow> (async_external_error 501 (''no engine for external facade: '' @ err_msg e), st, tmp1)
                | Inr (eng, _) \<Rightarrow>
                    (case submitTail async_external_error cr orch
                            (payload\<lparr>plFacade := FacadeExternal, plEngine := engineName eng, plRequestID := requestID\<rparr>)
                            (apiKeyOf apiKeyHeader h) (header_Get h ''Idempotency-Key'') env st of
                       (rep, st1) \<Rightarrow> (rep, st1, tmp1)))))"

definition Poll ::
  "crypto \<Rightarrow> Orchestrator option \<Rightarrow> string \<Rightarrow> (string \<Rightarrow> string \<Rightarrow> taskInfo option) \<Rightarrow> string list result \<Rightarrow> redis \<Rightarrow>
   go_error option \<Rightarrow> go_error option \<Rightarrow> string \<Rightarrow> Header \<Rightarrow> asyncReply" where
  "Poll cr orchestrator apiKeyHeader inspect queues rd fault qfault token h =
     (case orchestrator of
        None \<Rightarrow> async_docling_error 501 ''async tasks not enabled''
      | Some orch \<Rightarrow>
          (case orch_Status cr orch inspect queues rd fault qfault token (apiKeyOf apiKeyHeader h) of
             Inl e \<Rightarrow> (if errors_Is e ErrNotFound then async_docling_error 404 ''task not found''
                       else async_docling_error 500 ''lookup failed'')
           | Inr info \<Rightarrow> \<lparr>arStatus = 200, arHeaders = [], arBody = ABStatus info\<rparr>))"

definition allowedResultContentTypes :: "string list" where
  "allowedResultContentTypes = [''application/json'', ''text/plain'', ''text/markdown'', ''text/html'']"

definition splitMediaType :: "string \<Rightarrow> string" where
  "splitMediaType ct = (case IndexByte ct (CHR '';'') of Some i \<Rightarrow> take i ct | None \<Rightarrow> ct)"

definition writeResultResponse :: "string \<Rightarrow> string \<Rightarrow> asyncReply" where
  "writeResultResponse body contentType =
     (let h0 = header_Set [] ''X-Content-Type-Options'' ''nosniff'';
          out0 = ToLower (TrimSpace (splitMediaType contentType));
          out = (if out0 = [] then ''application/json'' else out0);
          h1 = (if out \<notin> set allowedResultContentTypes
                then header_Set (header_Set h0 ''Content-Type'' ''application/octet-stream'') ''Content-Disposition''
                       (''attachment; filename='' @ [CHR 0x22] @ ''result.bin'' @ [CHR 0x22])
                else header_Set h0 ''Content-Type'' (if contentType \<noteq> [] then contentType else ''application/json''))
      in \<lparr>arStatus = 200, arHeaders = h1, arBody = ABResult body\<rparr>)"

definition async_Result ::
  "crypto \<Rightarrow> Orchestrator option \<Rightarrow> string \<Rightarrow> redis \<Rightarrow> go_error option \<Rightarrow> go_error option \<Rightarrow> go_error option \<Rightarrow> string \<Rightarrow>
   Header \<Rightarrow> asyncReply" where
  "async_Result cr orchestrator apiKeyHeader rd fault bfault cfault token h =
     (case orchestrator of
        None \<Rightarrow> async_docling_error 501 ''async tasks not enabled''
      | Some orch \<Rightarrow>
          (case orch_Result cr orch rd fault bfault cfault token (apiKeyOf apiKeyHeader h) of
             Inl e \<Rightarrow> (if errors_Is e ErrNotFound then async_docling_error 404 ''result not ready''
                       else async_docling_error 500 ''lookup failed'')
           | Inr (body, contentType) \<Rightarrow> writeResultResponse body contentType))"

section \<open>Results\<close>

lemma result_header_keys [simp]:
  "CanonicalHeaderKey ''X-Content-Type-Options'' = ''X-Content-Type-Options''"
  "CanonicalHeaderKey ''Content-Type'' = ''Content-Type''"
  "CanonicalHeaderKey ''Content-Disposition'' = ''Content-Disposition''"
  by code_simp+


lemma result_body: "arBody (writeResultResponse body ct) = ABResult body"
  by (simp add: writeResultResponse_def Let_def)

section \<open>Polling\<close>

text \<open>
  C32: a task that asynq has given up on (state archived, after the last retry failed) is polled as a success although no result exists and
  the result endpoint answers 404.
\<close>

theorem archived_task_polls_success:
  assumes "resolveToken cr orch rd None token (apiKeyOf hdr h) = Inr tid"
    and "map_of rd (queueKey tid) = Some (RBytes queue, ttl)" "queue \<noteq> []"
    and "inspect queue tid = Some info" "tiState info = ''archived''" "map_of rd (resultKey tid) = None"
  shows "arStatus (Poll cr (Some orch) hdr inspect queues rd None None token h) = 200
     \<and> (\<exists>si. arBody (Poll cr (Some orch) hdr inspect queues rd None None token h) = ABStatus si
            \<and> siTaskStatus si = ''success'' \<and> siLastError si = tiLastErr info)
     \<and> arStatus (async_Result cr (Some orch) hdr rd None None cf token h) = 404"
  using assms by (simp add: Poll_def orch_Status_def async_Result_def orch_Result_def redis_Get_def bytesOf_def statusOf_def
      mapState_def errRedisNil_def errTaskNotFound_def async_docling_error_def)

theorem archived_task_polls_success_witness:
  "arStatus (Poll demo_crypto (Some demo_orch) [] (\<lambda>q t. Some \<lparr>tiState = ''archived'', tiQueue = ''default'', tiRetried = 3,
        tiMaxRetry = 3, tiLastErr = ''engine down''\<rparr>) (Inr [])
      [(''owui-cee:token:a'', RBinding \<lparr>tbTaskID = ''t1'', tbKeyFP = []\<rparr>, 1), (''owui-cee:queue:t1'', RBytes ''default'', 1)]
      None None ''a'' []) = 200"
  using archived_task_polls_success[where cr = demo_crypto and orch = demo_orch and hdr = "[]" and h = "[]" and token = "''a''"
      and tid = "''t1''" and queue = "''default''" and ttl = 1 and queues = "Inr []" and
      inspect = "\<lambda>q t. Some \<lparr>tiState = ''archived'', tiQueue = ''default'', tiRetried = 3, tiMaxRetry = 3, tiLastErr = ''engine down''\<rparr>"
      and rd = "[(''owui-cee:token:a'', RBinding \<lparr>tbTaskID = ''t1'', tbKeyFP = []\<rparr>, 1), (''owui-cee:queue:t1'', RBytes ''default'', 1)]"]
  by (simp add: resolveToken_def redis_Get_def tokenKey_def queueKey_def resultKey_def)

section \<open>Sources\<close>

text \<open>
  C33: sources submitted asynchronously reach the engine exactly as the caller wrote them.  Unlike on the synchronous endpoint
  nothing vets or pins their URLs: a submission of any list of sources to an engine that fetches sources is queued
  with that list, and the worker hands that list to the engine.
\<close>

theorem async_sources_forwarded_verbatim:
  assumes "srcs \<noteq> []" "SubmitSource cr (Some orch) reg hdr rid h (Inr (srcs, opts)) env (rd, q) = (rep, rd1, q1)" "q1 \<noteq> q"
    and "registry_Get reg (engineName (registry_Default reg)) = Inr (registry_Default reg)"
  shows "HTTPSources (Capabilities (registry_Default reg)) \<and> (\<exists>task. q1 = q @ [task] \<and> plSources (qtPayload task) = srcs
     \<and> (\<exists>req. Sources req = srcs \<and> fst (snd (snd (handleConvert orch reg run faults sf cf (qtID task) (Inr (qtPayload task)) rd1)))
           = [(registry_Default reg, req)]))"
proof -
  let ?d = "registry_Default reg"
  let ?p = "emptyPayload\<lparr>plSources := srcs, plOptions := opts, plFacade := FacadeDocling, plEngine := engineName ?d, plRequestID := rid\<rparr>"
  have s: "HTTPSources (Capabilities ?d)"
    "submitTail async_docling_error cr orch ?p (apiKeyOf hdr h) (header_Get h ''Idempotency-Key'') env (rd, q) = (rep, rd1, q1)"
    using assms(1,2,3) by (auto simp: SubmitSource_def submit_def payloadFromJSON_def asyncPick_def emptyPayload_def Let_def split: if_splits)
  have pb: "persistBlobs orch ?p (seEnq env) rd = (Inr ?p, rd)"
    by (simp add: persistBlobs_def takeBuffers_def emptyPayload_def)
  obtain tid queue where "q1 = q @ [enqueuedTask orch tid queue ?p]"
    using s(2) assms(3) by (auto simp: submitTail_def Enqueue_unfold pb split: sum.splits option.splits prod.splits)
  moreover have "fst (snd (snd (handleConvert orch reg run faults sf cf tid (Inr ?p) rd1))) = [(?d, workerRequest ?p [])]"
    using assms(4) by (simp add: handleConvert_def emptyPayload_def Let_def split: sum.split option.split prod.split)
  ultimately show ?thesis using s(1) by (auto simp: enqueuedTask_def workerRequest_def)
qed

definition demo_senv :: "string \<Rightarrow> string \<Rightarrow> submitEnv" where
  "demo_senv tid token = \<lparr>seResolve = None, seEnq = demo_enq tid token, seSetNX = None, seGet = None\<rparr>"

text \<open>The cloud metadata address, which the synchronous endpoint refuses.\<close>

theorem async_sources_forwarded_verbatim_witness:
  "\<exists>rep rd1 q1. SubmitSource demo_crypto (Some demo_orch) demo_registry [] ''id'' []
       (Inr ([\<lparr>srcURL = ''http://169.254.169.254/'', srcHeaders = []\<rparr>], [])) (demo_senv ''t1'' ''tok1'') ([], []) = (rep, rd1, q1)
     \<and> map (map srcURL \<circ> plSources \<circ> qtPayload) q1 = [[''http://169.254.169.254/'']]"
proof -
  let ?src = "[\<lparr>srcURL = ''http://169.254.169.254/'', srcHeaders = []\<rparr>]"
  let ?s = "SubmitSource demo_crypto (Some demo_orch) demo_registry [] ''id'' [] (Inr (?src, [])) (demo_senv ''t1'' ''tok1'') ([], [])"
  have e: "?s = (fst ?s, fst (snd ?s), snd (snd ?s))" by simp
  have n: "snd (snd ?s) \<noteq> []" by code_simp
  have g: "registry_Get demo_registry (engineName (registry_Default demo_registry)) = Inr (registry_Default demo_registry)" by code_simp
  from async_sources_forwarded_verbatim[OF _ e n g] have "\<exists>task. snd (snd ?s) = [task] \<and> plSources (qtPayload task) = ?src"
    by simp blast
  then have "map (map srcURL \<circ> plSources \<circ> qtPayload) (snd (snd ?s)) = [[''http://169.254.169.254/'']]" by auto
  then show ?thesis by (intro exI conjI) (rule e)
qed

section \<open>Concurrent submissions\<close>

text \<open>
  Clients submit at the same time; each goes through the three Redis-visible stages of \<^verbatim>\<open>submit\<close> (look up the idempotency key,
  enqueue, record), in any interleaving.  The stages themselves are the orchestrator's operations.  No call fails and
  nothing expires in this relation.
\<close>

datatype subPhase = Start | Missed | Enqueued string | Done string

record client =
  clKey :: string
  clIdem :: string
  clPayload :: Payload
  clEnv :: enqEnv

record subState =
  ssRedis :: redis
  ssQueue :: "queuedTask list"
  ssPhase :: "nat \<Rightarrow> subPhase"

inductive sub_step :: "crypto \<Rightarrow> Orchestrator \<Rightarrow> (nat \<Rightarrow> client) \<Rightarrow> subState \<Rightarrow> subState \<Rightarrow> bool" for cr orch cl where
  hit: "ssPhase s i = Start \<Longrightarrow> ResolveIdempotent cr orch (ssRedis s) None (clIdem (cl i)) (clKey (cl i)) = Inr (Some t) \<Longrightarrow>
     sub_step cr orch cl s (s\<lparr>ssPhase := (ssPhase s)(i := Done t)\<rparr>)"
| miss: "ssPhase s i = Start \<Longrightarrow> ResolveIdempotent cr orch (ssRedis s) None (clIdem (cl i)) (clKey (cl i)) = Inr None \<Longrightarrow>
     sub_step cr orch cl s (s\<lparr>ssPhase := (ssPhase s)(i := Missed)\<rparr>)"
| enqueue: "ssPhase s i = Missed \<Longrightarrow>
     Enqueue cr orch (clPayload (cl i)) (clKey (cl i)) (clEnv (cl i)) (ssRedis s) (ssQueue s) = (Inr t, rd, q) \<Longrightarrow>
     sub_step cr orch cl s (s\<lparr>ssRedis := rd, ssQueue := q, ssPhase := (ssPhase s)(i := Enqueued t)\<rparr>)"
| record_token: "ssPhase s i = Enqueued t \<Longrightarrow>
     RecordIdempotent cr orch (ssRedis s) None None (clIdem (cl i)) (clKey (cl i)) t = (Inr eff, rd) \<Longrightarrow>
     sub_step cr orch cl s (s\<lparr>ssRedis := rd, ssPhase := (ssPhase s)(i := Done (if eff \<noteq> [] then eff else t))\<rparr>)"

definition sub_init :: subState where
  "sub_init = \<lparr>ssRedis = [], ssQueue = [], ssPhase = (\<lambda>_. Start)\<rparr>"

inductive sub_reach :: "crypto \<Rightarrow> Orchestrator \<Rightarrow> (nat \<Rightarrow> client) \<Rightarrow> subState \<Rightarrow> bool" for cr orch cl where
  init: "sub_reach cr orch cl sub_init"
| step: "sub_reach cr orch cl s \<Longrightarrow> sub_step cr orch cl s s' \<Longrightarrow> sub_reach cr orch cl s'"

definition clIdemKey :: "crypto \<Rightarrow> Orchestrator \<Rightarrow> client \<Rightarrow> string" where
  "clIdemKey cr orch c = idemKey cr (keyFromAPIKey cr orch (clKey c)) (clIdem c)"

definition sub_inv :: "crypto \<Rightarrow> Orchestrator \<Rightarrow> (nat \<Rightarrow> client) \<Rightarrow> subState \<Rightarrow> bool" where
  "sub_inv cr orch cl s \<longleftrightarrow>
     (\<forall>a b v ttl. map_of (ssRedis s) (idemKey cr a b) = Some (v, ttl) \<longrightarrow> (\<exists>t. v = RBytes t \<and> t \<noteq> [])) \<and>
     (\<forall>i t. ssPhase s i = Enqueued t \<longrightarrow> t \<noteq> []) \<and>
     (\<forall>i t. clIdem (cl i) \<noteq> [] \<longrightarrow> ssPhase s i = Done t \<longrightarrow>
        (\<exists>ttl. map_of (ssRedis s) (clIdemKey cr orch (cl i)) = Some (RBytes t, ttl)))"

lemma Enqueue_idem_frame:
  assumes "Enqueue cr orch p k env rd q = (Inr t, rd', q')"
  shows "map_of rd' (idemKey cr' a b) = map_of rd (idemKey cr' a b)"
proof -
  obtain tid queue p1 rd1 where e: "persistBlobs orch p env rd = (Inr p1, rd1)"
    "rd' = pipeExec (tokenCmds cr orch k t tid queue) None rd1"
    using Enqueue_Inr[OF assms] by metis
  have "map_of rd1 (idemKey cr' a b) = map_of rd (idemKey cr' a b)"
    using persistBlobs_other[of "idemKey cr' a b" orch p env rd] e(1) by (simp add: image_iff)
  moreover have "map_of rd' (idemKey cr' a b) = map_of rd1 (idemKey cr' a b)"
    unfolding e(2) by (rule pipeExec_other) (simp add: tokenCmds_def)
  ultimately show ?thesis by simp
qed

lemma Enqueue_token: "Enqueue cr orch p k env rd q = (Inr t, rd', q') \<Longrightarrow> eeToken env = Inr t"
  by (erule Enqueue_Inr)

text \<open>Recording: afterwards the key has the token that is returned, and no other idempotency key changed.\<close>

lemma RecordIdempotent_ok:
  assumes "RecordIdempotent cr orch rd None None idem k t = (Inr eff, rd')" "idem \<noteq> []"
    and "\<forall>v ttl. map_of rd (idemKey cr (keyFromAPIKey cr orch k) idem) = Some (v, ttl) \<longrightarrow> (\<exists>u. v = RBytes u \<and> u \<noteq> [])"
    and "t \<noteq> []"
  shows "eff \<noteq> []" "\<exists>ttl. map_of rd' (idemKey cr (keyFromAPIKey cr orch k) idem) = Some (RBytes eff, ttl)"
    "map_of rd key = Some v \<Longrightarrow> map_of rd' key = Some v"
    "map_of rd' key = Some v \<Longrightarrow> map_of rd key = None \<Longrightarrow> fst v = RBytes t"
  using assms by (auto simp: RecordIdempotent_def Let_def redis_Get_def bytesOf_def split: option.splits prod.splits if_splits)

lemma sub_inv_step:
  assumes "sub_step cr orch cl s s'" "sub_inv cr orch cl s" "\<And>i. eeToken (clEnv (cl i)) \<noteq> Inr []"
  shows "sub_inv cr orch cl s'"
  using assms(1)
proof (cases rule: sub_step.cases)
  case (hit i t)
  have "\<exists>ttl. map_of (ssRedis s) (clIdemKey cr orch (cl i)) = Some (RBytes t, ttl)" if "clIdem (cl i) \<noteq> []"
    using hit(3) that assms(2) unfolding sub_inv_def clIdemKey_def
    by (fastforce simp: ResolveIdempotent_def redis_Get_def bytesOf_def split: option.splits if_splits)
  with hit assms(2) show ?thesis by (auto simp: sub_inv_def)
next
  case (miss i)
  with assms(2) show ?thesis by (auto simp: sub_inv_def)
next
  case (enqueue i t rd q)
  have "t \<noteq> []" using Enqueue_token[OF enqueue(3)] assms(3) by metis
  with enqueue assms(2) show ?thesis
    by (auto simp: sub_inv_def clIdemKey_def Enqueue_idem_frame[OF enqueue(3)])
next
  case (record_token i t eff rd)
  have t: "t \<noteq> []" using record_token(2) assms(2) by (auto simp: sub_inv_def)
  show ?thesis
  proof (cases "clIdem (cl i) = []")
    case True
    then have "rd = ssRedis s" using record_token(3) by (simp add: RecordIdempotent_def)
    then show ?thesis using record_token assms(2) True by (auto simp: sub_inv_def)
  next
    case False
    have old: "\<forall>v ttl. map_of (ssRedis s) (idemKey cr (keyFromAPIKey cr orch (clKey (cl i))) (clIdem (cl i))) = Some (v, ttl)
        \<longrightarrow> (\<exists>u. v = RBytes u \<and> u \<noteq> [])"
      using assms(2) unfolding sub_inv_def by blast
    note r = RecordIdempotent_ok[OF record_token(3) False old t]
    have "\<exists>u. v = RBytes u \<and> u \<noteq> []" if "map_of rd (idemKey cr a b) = Some (v, ttl)" for a b v ttl
    proof (cases "map_of (ssRedis s) (idemKey cr a b)")
      case None
      then show ?thesis using r(4)[OF that None] t by simp
    next
      case (Some w)
      then show ?thesis using r(3)[OF Some] that assms(2) unfolding sub_inv_def by (metis option.inject)
    qed
    moreover have "\<exists>ttl. map_of rd (clIdemKey cr orch (cl j)) = Some (RBytes u, ttl)"
      if "clIdem (cl j) \<noteq> []" "ssPhase s j = Done u" for j u
      using that assms(2) r(3) unfolding sub_inv_def by blast
    ultimately show ?thesis using assms(2) r(1,2) record_token(1)
      by (auto simp: sub_inv_def clIdemKey_def)
  qed
qed


text \<open>Two clients with one key, both past the lookup before either has recorded.\<close>

definition race_client :: "nat \<Rightarrow> client" where
  "race_client i = \<lparr>clKey = ''k'', clIdem = ''once'', clPayload = emptyPayload,
     clEnv = (if i = 0 then demo_enq ''t1'' ''tok1'' else demo_enq ''t2'' ''tok2'')\<rparr>"

definition race_store :: "string \<Rightarrow> string \<Rightarrow> redis \<Rightarrow> redis" where
  "race_store tid token rd = pipeExec (tokenCmds demo_crypto demo_orch ''k'' token tid ''default'') None rd"

definition race_task :: "string \<Rightarrow> queuedTask" where
  "race_task tid = enqueuedTask demo_orch tid ''default'' emptyPayload"

lemma race_enqueue:
  "Enqueue demo_crypto demo_orch emptyPayload ''k'' (demo_enq tid token) rd q = (Inr token, race_store tid token rd, q @ [race_task tid])"
  by (simp add: Enqueue_unfold demo_enq_def race_store_def race_task_def validateBlobLimits_def emptyPayload_def
      persistBlobs_def takeBuffers_def)

abbreviation race_key :: string where
  "race_key \<equiv> idemKey demo_crypto (keyFromAPIKey demo_crypto demo_orch ''k'') ''once''"

lemma race_store_idem: "map_of (race_store tid token rd) race_key = map_of rd race_key"
  unfolding race_store_def by (rule pipeExec_other) (simp add: tokenCmds_def)

definition race_end :: subState where
  "race_end = \<lparr>ssRedis = redis_Set (race_store ''t2'' ''tok2'' (race_store ''t1'' ''tok1'' [])) race_key (RBytes ''tok1'') (tokenTTL demo_orch),
     ssQueue = [race_task ''t1'', race_task ''t2''],
     ssPhase = (\<lambda>_. Start)(0 := Missed, 1 := Missed, 0 := Enqueued ''tok1'', 1 := Enqueued ''tok2'', 0 := Done ''tok1'', 1 := Done ''tok1'')\<rparr>"

lemma race_reached: "sub_reach demo_crypto demo_orch race_client race_end"
proof -
  let ?st = "sub_step demo_crypto demo_orch race_client"
  let ?r1 = "race_store ''t1'' ''tok1'' []" let ?r2 = "race_store ''t2'' ''tok2'' ?r1"
  let ?r3 = "redis_Set ?r2 race_key (RBytes ''tok1'') (tokenTTL demo_orch)"
  define p where "p = (\<lambda>_::nat. Start)"
  define s1 where "s1 = sub_init\<lparr>ssPhase := p(0 := Missed)\<rparr>"
  define s2 where "s2 = s1\<lparr>ssPhase := (ssPhase s1)(1 := Missed)\<rparr>"
  define s3 where "s3 = s2\<lparr>ssRedis := ?r1, ssQueue := [race_task ''t1''], ssPhase := (ssPhase s2)(0 := Enqueued ''tok1'')\<rparr>"
  define s4 where "s4 = s3\<lparr>ssRedis := ?r2, ssQueue := [race_task ''t1'', race_task ''t2''], ssPhase := (ssPhase s3)(1 := Enqueued ''tok2'')\<rparr>"
  define s5 where "s5 = s4\<lparr>ssRedis := ?r3, ssPhase := (ssPhase s4)(0 := Done ''tok1'')\<rparr>"
  note defs = s1_def s2_def s3_def s4_def s5_def p_def sub_init_def
  have absent: "map_of ?r2 race_key = None" by (simp add: race_store_idem)
  have rec0: "RecordIdempotent demo_crypto demo_orch ?r2 None None ''once'' ''k'' ''tok1'' = (Inr ''tok1'', ?r3)"
    using absent by (simp add: RecordIdempotent_def tokenTTL_def)
  have rec1: "RecordIdempotent demo_crypto demo_orch ?r3 None None ''once'' ''k'' ''tok2'' = (Inr ''tok1'', ?r3)"
    by (simp add: RecordIdempotent_def redis_Get_def bytesOf_def)
  have look: "ResolveIdempotent demo_crypto demo_orch [] None ''once'' ''k'' = Inr None"
    by (simp add: ResolveIdempotent_def redis_Get_def errRedisNil_def)
  have "?st sub_init s1" using sub_step.miss[of sub_init 0 demo_crypto demo_orch race_client] look
    by (simp add: defs race_client_def)
  moreover have "?st s1 s2" unfolding s2_def by (rule sub_step.miss) (simp_all add: s1_def p_def sub_init_def race_client_def look)
  moreover have "?st s2 s3" unfolding s3_def by (rule sub_step.enqueue) (simp_all add: s1_def s2_def p_def sub_init_def race_client_def race_enqueue)
  moreover have "?st s3 s4" unfolding s4_def
    by (rule sub_step.enqueue) (simp_all add: s1_def s2_def s3_def p_def sub_init_def race_client_def race_enqueue)
  moreover have "?st s4 s5"
    using sub_step.record_token[of s4 0 "''tok1''" demo_crypto demo_orch race_client "''tok1''" ?r3] rec0
    by (simp add: s5_def s4_def s3_def s2_def s1_def race_client_def)
  moreover have "?st s5 race_end"
    using sub_step.record_token[of s5 1 "''tok2''" demo_crypto demo_orch race_client "''tok1''" ?r3] rec1
    by (simp add: defs race_end_def race_client_def)
  ultimately show ?thesis by (meson sub_reach.init sub_reach.step)
qed


text \<open>
  Agreeing on the token is not running once.  Two clients that submit with the same API key and idempotency key can both be answered with
  the first one's token while two tasks are in the queue, so the engine does the work twice.
\<close>

theorem idempotent_race_enqueues_twice:
  "\<exists>s t. sub_reach demo_crypto demo_orch race_client s \<and> ssPhase s 0 = Done t \<and> ssPhase s 1 = Done t
     \<and> clIdem (race_client 0) = clIdem (race_client 1) \<and> clKey (race_client 0) = clKey (race_client 1)
     \<and> map qtID (ssQueue s) = [''t1'', ''t2'']"
  using race_reached by (intro exI[of _ race_end] exI[of _ "''tok1''"])
    (simp add: race_end_def race_client_def race_task_def enqueuedTask_def)

section \<open>From the upload to the result\<close>

text \<open>Engines are registered under their own names, as the composition root builds them.\<close>

definition named_registry :: "staticRegistry \<Rightarrow> bool" where
  "named_registry reg \<longleftrightarrow> registry_ok reg \<and> (\<forall>n e. registry_Get reg n = Inr e \<longrightarrow> engineName e = n)"

lemma named_registry_Get:
  assumes "named_registry reg"
  shows "registry_Get reg (engineName (asyncPick reg source p)) = Inr (asyncPick reg source p)"
proof -
  have "\<exists>n. registry_Get reg n = Inr (asyncPick reg source p)"
    using assms static.default_registered[of reg] static.pick_registered[of reg]
    by (fastforce simp: named_registry_def asyncPick_def split: list.split sum.split prod.split)
  then show ?thesis using assms by (auto simp: named_registry_def)
qed

lemma loaded_file_of:
  "file_of detect (Some r) q (loaded_file ((ref_of detect (Some r) q)\<lparr>brKey := k\<rparr>) (srcData (partData q)))"
  by (simp add: file_of_def loaded_file_def ref_of_def resolveAsync_def asyncSniffHeadBytes_def reader_ok_def contents_def position_def)

lemma submit_enqueued:
  assumes "submit cr (Some orch) reg hdr False rid h (Inr p) env (rd, q) = (rep, rd1, q1)" "arStatus rep = 202"
    and "header_Get h ''Idempotency-Key'' = []"
  obtains token where "Enqueue cr orch (p\<lparr>plFacade := FacadeDocling, plEngine := engineName (asyncPick reg False p), plRequestID := rid\<rparr>)
      (apiKeyOf hdr h) (seEnq env) rd q = (Inr token, rd1, q1)" "arBody rep = ABAccepted token ''pending''"
  using assms
  by (auto simp: submit_def submitTail_def ResolveIdempotent_def RecordIdempotent_def asyncAccepted_def async_docling_error_def Let_def
      split: sum.splits prod.splits if_splits)

lemma pick_agrees:
  assumes "list_all2 (file_of detect (Some r)) ps (Files req)" "plBlobKeys p = map (ref_of detect (Some r)) ps"
  shows "fst (convertPick reg False req) = asyncPick reg False p"
  using assms
  by (cases ps) (auto simp: list_all2_Cons1 convertPick_def asyncPick_def file_of_def ref_of_def resolveAsync_def
      asyncSniffHeadBytes_def split: sum.split)

text \<open>What the worker loads after an accepted submission.\<close>

lemma enqueued_files:
  assumes "Enqueue cr orch p k env rd q = (Inr token, rd1, q1)" "inj (eeUUID env)"
    and "plBlobKeys p = map (ref_of detect (Some r)) ps" "localBlobs p = Some (map (srcData \<circ> partData) ps)"
  shows "\<exists>tid queue p1 files. q1 = q @ [enqueuedTask orch tid queue p1] \<and> loadFiles rd1 (\<lambda>_. None) 0 (plBlobKeys p1) = Inr files
     \<and> list_all2 (file_of detect (Some r)) ps files \<and> p1 = p\<lparr>localBlobs := None, plBlobKeys := plBlobKeys p1\<rparr>
     \<and> map_of rd1 (tokenKey token) = Some (RBinding \<lparr>tbTaskID = tid, tbKeyFP = keyFromAPIKey cr orch k\<rparr>, tokenTTL orch)"
proof -
  obtain tid queue p1 rd0 where e: "persistBlobs orch p env rd = (Inr p1, rd0)" "q1 = q @ [enqueuedTask orch tid queue p1]"
    "rd1 = pipeExec (tokenCmds cr orch k token tid queue) None rd0"
    using Enqueue_Inr[OF assms(1)] by metis
  let ?bufs = "map (srcData \<circ> partData) ps"
  have len: "length ?bufs = length (plBlobKeys p)" using assms(3) by simp
  note st = persistBlobs_stored[OF assms(4) len assms(2) e(1)]
  have "list_all2 (\<lambda>r b. \<exists>ttl. map_of rd1 (brKey r) = Some (RBytes b, ttl)) (plBlobKeys p1) ?bufs"
  proof (rule list_all2_all_nthI)
    show "length (plBlobKeys p1) = length ?bufs" using st(2) by (rule list_all2_lengthD)
    fix n assume n: "n < length (plBlobKeys p1)"
    with st(3) obtain u where "brKey (plBlobKeys p1 ! n) = blobKey u" by (auto dest: nth_mem)
    with list_all2_nthD[OF st(2) n] show "\<exists>ttl. map_of rd1 (brKey (plBlobKeys p1 ! n)) = Some (RBytes (?bufs ! n), ttl)"
      unfolding e(3) by (simp only: tokenCmds_blob)
  qed
  from loadFiles_stored[OF this] have l: "loadFiles rd1 (\<lambda>_. None) 0 (plBlobKeys p1) = Inr (map2 loaded_file (plBlobKeys p1) ?bufs)" .
  have "list_all2 (file_of detect (Some r)) ps (map2 loaded_file (plBlobKeys p1) ?bufs)"
  proof (rule list_all2_all_nthI)
    show "length ps = length (map2 loaded_file (plBlobKeys p1) ?bufs)" by (simp add: st(1) assms(3))
    fix n assume "n < length ps"
    then show "file_of detect (Some r) (ps ! n) (map2 loaded_file (plBlobKeys p1) ?bufs ! n)"
      by (simp add: st(1) assms(3) loaded_file_of)
  qed
  moreover have "p1 = p\<lparr>localBlobs := None, plBlobKeys := plBlobKeys p1\<rparr>" by (simp add: st(1))
  moreover have "map_of rd1 (tokenKey token) = Some (RBinding \<lparr>tbTaskID = tid, tbKeyFP = keyFromAPIKey cr orch k\<rparr>, tokenTTL orch)"
    unfolding e(3) by (rule tokenCmds_binding)
  ultimately show ?thesis using e(2) l by blast
qed

text \<open>What the result endpoint returns once the worker is done.\<close>

lemma result_after_worker:
  assumes "map_of rd (tokenKey token) = Some (RBinding \<lparr>tbTaskID = tid, tbKeyFP = keyFromAPIKey cr orch (apiKeyOf hdr h)\<rparr>, ttl)"
    and "SaveResult orch rd None None tid ct body = (err, rd')"
  shows "arBody (async_Result cr (Some orch) hdr rd' None None None token h) = ABResult body"
proof -
  have "map_of rd' (tokenKey token) = Some (RBinding \<lparr>tbTaskID = tid, tbKeyFP = keyFromAPIKey cr orch (apiKeyOf hdr h)\<rparr>, ttl)"
    "\<exists>t. map_of rd' (resultKey tid) = Some (RBytes body, t)"
    using assms by (auto simp: SaveResult_def Let_def)
  then show ?thesis
    by (auto simp: async_Result_def orch_Result_def resolveToken_Some redis_Get_def bytesOf_def result_body)
qed

text \<open>The worker on a task whose blobs are all there: the one call it makes, and what Redis holds afterwards.\<close>

lemma worker_calls:
  assumes "registry_Get reg (plEngine p) = Inr eng" "loadFiles rd (\<lambda>_. None) 0 (plBlobKeys p) = Inr files"
  shows "fst (snd (snd (handleConvert orch reg run (\<lambda>_. None) None None tid (Inr p) rd))) = [(eng, workerRequest p files)]"
  using assms by (simp add: handleConvert_def Let_def split: sum.split option.split prod.split)

lemma worker_stores:
  assumes "registry_Get reg (plEngine p) = Inr eng" "loadFiles rd (\<lambda>_. None) 0 (plBlobKeys p) = Inr files"
    and "fst (run 0 eng (workerRequest p files)) = Inr resp" "srcErr (respBody resp) = None"
  shows "fst (snd (handleConvert orch reg run (\<lambda>_. None) None None tid (Inr p) rd)) =
    snd (SaveResult orch rd None None tid (header_Get (respHeaders resp) ''Content-Type'') (srcData (respBody resp)))"
  using assms by (simp add: handleConvert_def Let_def SaveResult_def)


lemma demo_named: "named_registry demo_registry"
proof -
  have "registry_Get demo_registry n = Inr e \<Longrightarrow> engineName e = n" for n e
    using registry_Get_of[OF demo_new, of n]
    by (auto simp: demo_entries_def demo_tika_def demo_docling_def split: if_splits option.splits)
  moreover have "registry_ok demo_registry" using demo_ok demo_new by (auto simp: registry_ok_def)
  ultimately show ?thesis by (simp add: named_registry_def)
qed

definition demo_upload :: Payload where
  "demo_upload = projr (fst (payloadFromMultipart (\<lambda>_. None) (Some defaultResolver) demo_env 100 (Inr ''multipart/form-data'') demo_parts None {}))"

definition demo_sync_request :: ConvertRequest where
  "demo_sync_request = projr (fst (buildFileRequest (\<lambda>_. None) (Some defaultResolver) demo_env [] (Inr ''multipart/form-data'') demo_parts None {}))"

lemma demo_both_built:
  "\<exists>t. payloadFromMultipart (\<lambda>_. None) (Some defaultResolver) demo_env 100 (Inr ''multipart/form-data'') demo_parts None {} = (Inr demo_upload, t)"
  "\<exists>cs t. buildFileRequest (\<lambda>_. None) (Some defaultResolver) demo_env [] (Inr ''multipart/form-data'') demo_parts None {} = (Inr demo_sync_request, cs, t)"
proof -
  have "\<not> isl (fst (payloadFromMultipart (\<lambda>_. None) (Some defaultResolver) demo_env 100 (Inr ''multipart/form-data'') demo_parts None {}))" by code_simp
  then show "\<exists>t. payloadFromMultipart (\<lambda>_. None) (Some defaultResolver) demo_env 100 (Inr ''multipart/form-data'') demo_parts None {} = (Inr demo_upload, t)"
    unfolding demo_upload_def by (metis prod.collapse sum.collapse(2))
  have "\<not> isl (fst (buildFileRequest (\<lambda>_. None) (Some defaultResolver) demo_env [] (Inr ''multipart/form-data'') demo_parts None {}))" by code_simp
  then show "\<exists>cs t. buildFileRequest (\<lambda>_. None) (Some defaultResolver) demo_env [] (Inr ''multipart/form-data'') demo_parts None {} = (Inr demo_sync_request, cs, t)"
    unfolding demo_sync_request_def by (metis prod.collapse sum.collapse(2))
qed

definition demo_uuid_env :: submitEnv where
  "demo_uuid_env = \<lparr>seResolve = None, seEnq = (demo_enq ''t1'' ''tok1'')\<lparr>eeUUID := (\<lambda>i. replicate i CHR ''u'')\<rparr>, seSetNX = None, seGet = None\<rparr>"


end
