(* ===== verification/App.thy ===== *)
theory App
  imports Health Httpclient Reverseproxy Adapter_Contract Async
begin

text \<open>
  \<^verbatim>\<open>internal/app\<close> and \<^verbatim>\<open>transport/http/routes.go\<close>: how a loaded configuration becomes a running proxy.  The registry is built from the
  enabled engines, the router is the table of mounted routes with their guards, and a served request runs through the middleware
  chain of the route.  The matching of a request to a route is the router library's.
\<close>

section \<open>buildRegistry\<close>

text \<open>An adapter as the registry sees it; the reference is its position.\<close>

definition engineOf :: "nat \<Rightarrow> Adapter \<Rightarrow> Engine" where
  "engineOf i a = \<lparr>engineRef = i, engineName = adName a, engineURL = ecURL (adCfg a), Capabilities = engine_Capabilities a\<rparr>"

fun entriesLoop :: "fileSystem \<Rightarrow> nat \<Rightarrow> (Name, RegistryEntry) gomap \<Rightarrow> (Name, EngineConfig) gomap \<Rightarrow> (Name, RegistryEntry) gomap result" where
  "entriesLoop fs i acc [] = Inr acc"
| "entriesLoop fs i acc ((nm, ec) # rest) =
     (if \<not> ecEnable ec then entriesLoop fs (Suc i) acc rest
      else case client_New fs ec of
             Inl e \<Rightarrow> Inl (wrap_error (''engine '' @ nm @ '': httpclient: '') e)
           | Inr client \<Rightarrow>
               (case newAdapterByCompat nm ec of
                  Inl e \<Rightarrow> Inl (wrap_error (''engine '' @ nm @ '': '') e)
                | Inr ad \<Rightarrow>
                    entriesLoop fs (Suc i)
                      (map_put nm \<lparr>entryEngine = engineOf i ad, MimeTypes = ecMimeTypes ec, Extensions = ecExtensions ec\<rparr> acc) rest))"

definition buildRegistry :: "fileSystem \<Rightarrow> Config \<Rightarrow> staticRegistry result" where
  "buildRegistry fs cfg =
     (case entriesLoop fs 0 [] (cfEngines cfg) of
        Inl e \<Rightarrow> Inl e
      | Inr es \<Rightarrow>
          (if es = [] then Inl (plain_error ''no engines enabled'')
           else NewRegistry es (rtDefaultEngine (cfRouting cfg)) (rtStrategy (cfRouting cfg))))"

section \<open>The route table\<close>

datatype endpoint =
    EpHealthz | EpReadyz | EpMetrics | EpConvertFile | EpConvertSource | EpSubmitFile | EpSubmitSource | EpPoll | EpResult
  | EpProcess | EpSubmitProcess | EpPassthrough Name

record route =
  roMethod :: "string option"
  roPattern :: string
  roEndpoint :: endpoint
  roGuarded :: bool

definition mountRoute :: "string option \<Rightarrow> string \<Rightarrow> endpoint \<Rightarrow> bool \<Rightarrow> route" where
  "mountRoute m p e g = \<lparr>roMethod = m, roPattern = p, roEndpoint = e, roGuarded = g\<rparr>"

definition mountFacadeDocling :: "Config \<Rightarrow> route list" where
  "mountFacadeDocling cfg =
     (let f0 = TrimRight (rtDoclingPrefix (cfRouting cfg)) (CHR ''/''); facade = (if f0 = [] then ''/v1'' else f0)
      in [mountRoute (Some ''POST'') (facade @ ''/convert/file'') EpConvertFile True,
          mountRoute (Some ''POST'') (facade @ ''/convert/source'') EpConvertSource True,
          mountRoute (Some ''POST'') (facade @ ''/convert/file/async'') EpSubmitFile True,
          mountRoute (Some ''POST'') (facade @ ''/convert/source/async'') EpSubmitSource True,
          mountRoute (Some ''GET'') (facade @ ''/status/poll/{id}'') EpPoll True,
          mountRoute (Some ''GET'') (facade @ ''/result/{id}'') EpResult True])"

definition mountFacadeExternal :: "Config \<Rightarrow> bool \<Rightarrow> route list" where
  "mountFacadeExternal cfg orchestrator =
     (let p = (if rtExternalPath (cfRouting cfg) = [] then ''/process'' else rtExternalPath (cfRouting cfg))
      in mountRoute (Some ''PUT'') p EpProcess True
         # (if orchestrator then [mountRoute (Some ''POST'') (p @ ''/async'') EpSubmitProcess True] else []))"

definition mountEnginePassthrough :: "(string \<Rightarrow> URL result) \<Rightarrow> Config \<Rightarrow> Name \<Rightarrow> EngineConfig \<Rightarrow> route result" where
  "mountEnginePassthrough parse cfg nm ec =
     (let prefix = CHR ''/'' # nm in
      case New_proxy parse (ecURL ec) prefix (FormatHeaderValuesMulti ec) (seTrustedProxies (cfSecurity cfg)) of
        None \<Rightarrow> Inl (plain_error ''reverseproxy: invalid configuration'')
      | Some _ \<Rightarrow> Inr (mountRoute None (path_Clean prefix @ ''/*'') (EpPassthrough nm) True))"

fun mountPassthroughs :: "(string \<Rightarrow> URL result) \<Rightarrow> Config \<Rightarrow> (Name, EngineConfig) gomap \<Rightarrow> route list result" where
  "mountPassthroughs parse cfg [] = Inr []"
| "mountPassthroughs parse cfg ((nm, ec) # rest) =
     (if \<not> ecEnable ec then mountPassthroughs parse cfg rest
      else case mountEnginePassthrough parse cfg nm ec of
             Inl e \<Rightarrow> Inl e
           | Inr rt \<Rightarrow> (case mountPassthroughs parse cfg rest of Inl e \<Rightarrow> Inl e | Inr rts \<Rightarrow> Inr (rt # rts)))"

definition NewRouter :: "(string \<Rightarrow> URL result) \<Rightarrow> Config \<Rightarrow> bool \<Rightarrow> route list result" where
  "NewRouter parse cfg orchestrator =
     (let open = [mountRoute (Some ''GET'') ''/healthz'' EpHealthz False, mountRoute (Some ''GET'') ''/readyz'' EpReadyz False]
            @ (if mtEnabled (obMetrics (cfObservability cfg))
               then [mountRoute None (if mtPath (obMetrics (cfObservability cfg)) = [] then ''/metrics'' else mtPath (obMetrics (cfObservability cfg))) EpMetrics False]
               else []);
          facades = (if rtDoclingEnabled (cfRouting cfg) then mountFacadeDocling cfg else [])
            @ (if rtExternalEnabled (cfRouting cfg) then mountFacadeExternal cfg orchestrator else [])
      in case (if rtPassthrough (cfRouting cfg) then mountPassthroughs parse cfg (cfEngines cfg) else Inr []) of
           Inl e \<Rightarrow> Inl e
         | Inr pts \<Rightarrow> Inr (open @ facades @ pts))"

definition buildRedactHeaderList :: "Config \<Rightarrow> string list" where
  "buildRedactHeaderList cfg =
     (if seProxyAPIKeyHeader (cfSecurity cfg) \<noteq> [] then [seProxyAPIKeyHeader (cfSecurity cfg)] else [])
     @ concat (map (\<lambda>(nm, ec). if \<not> ecEnable ec then []
         else (if ecAuthHeader ec \<noteq> [] then [ecAuthHeader ec] else []) @ filter (\<lambda>h. h \<noteq> []) (map ahHeader (ecAuthHeaders ec))) (cfEngines cfg))"

definition resolveUpstreamLog :: "Config \<Rightarrow> Name \<Rightarrow> UpstreamLogConfig" where
  "resolveUpstreamLog cfg nm =
     (case map_of (cfEngines cfg) nm of
        None \<Rightarrow> obUpstream (cfObservability cfg)
      | Some ec \<Rightarrow> ResolveUpstream ec (obUpstream (cfObservability cfg)))"

section \<open>The middleware chain\<close>

text \<open>What a request meets on its way: the fresh id, the verdict of the limiter and the clock.\<close>

record serveEnv =
  svFresh :: string
  svAllow :: bool
  svClock :: "nat \<Rightarrow> int"

definition outerChain :: "serveEnv \<Rightarrow> Config \<Rightarrow> handler \<Rightarrow> handler" where
  "outerChain env cfg next =
     Recover (RequestID_mw (svFresh env)
       (GlobalRateLimit (rlRPS (cfRateLimitGlobal cfg)) (rlBurst (cfRateLimitGlobal cfg)) (svAllow env)
         (BodyLimit (srvMaxBodyBytes (cfServer cfg))
           (AccessLog (lgSilencePaths (obLog (cfObservability cfg))) (svClock env)
             (Metrics_mw
               (FullCapture (ulFullCapture (obUpstream (cfObservability cfg))) (ulFullCaptureBodyBytes (obUpstream (cfObservability cfg)))
                 (buildRedactHeaderList cfg) next))))))"

definition guardChain :: "(string \<Rightarrow> string) \<Rightarrow> serveEnv \<Rightarrow> Config \<Rightarrow> handler \<Rightarrow> handler" where
  "guardChain sha env cfg next =
     Timeout_mw (srvRequestTimeout (cfServer cfg)) (svClock env 0)
       (APIKey sha (seProxyAPIKeyHeader (cfSecurity cfg)) (seProxyAPIKeys (cfSecurity cfg)) (seRequireAPIKey (cfSecurity cfg)) next)"

definition serveRoute :: "(string \<Rightarrow> string) \<Rightarrow> serveEnv \<Rightarrow> Config \<Rightarrow> route \<Rightarrow> handler \<Rightarrow> handler" where
  "serveRoute sha env cfg rt next = outerChain env cfg (if roGuarded rt then guardChain sha env cfg next else next)"

section \<open>Build and shutdown\<close>

record Application =
  apRegistry :: staticRegistry
  apRoutes :: "route list"
  apOrchestrator :: "Orchestrator option"
  apTLS :: "tlsServer option"

definition app_Build ::
  "fileSystem \<Rightarrow> (string \<Rightarrow> URL result) \<Rightarrow> go_error option \<Rightarrow> go_error option \<Rightarrow> go_error option \<Rightarrow> go_error option \<Rightarrow> Config \<Rightarrow> Application result" where
  "app_Build fs parse tracing asynqURI redisURI workerErr cfg =
     (case tracing of
        Some e \<Rightarrow> Inl (wrap_error ''tracing: '' e)
      | None \<Rightarrow>
          (case buildRegistry fs cfg of
             Inl e \<Rightarrow> Inl e
           | Inr reg \<Rightarrow>
               (let orch = (if \<not> tkEnabled (cfTasks cfg) then Inr None
                            else case NewOrchestrator (cfTasks cfg) asynqURI redisURI of
                                   Inl e \<Rightarrow> Inl (wrap_error ''orchestrator: '' e)
                                 | Inr o1 \<Rightarrow> (case workerErr of
                                                Some e \<Rightarrow> Inl (wrap_error ''worker: '' e)
                                              | None \<Rightarrow> Inr (Some (WithFingerprintPepper o1 (sePepper (cfSecurity cfg))))))
                in case orch of
                     Inl e \<Rightarrow> Inl e
                   | Inr oo \<Rightarrow>
                       (case NewRouter parse cfg (oo \<noteq> None) of
                          Inl e \<Rightarrow> Inl (wrap_error ''router: '' e)
                        | Inr routes \<Rightarrow>
                            (case server_buildTLS fs (srvTLS (cfServer cfg)) of
                               Inl e \<Rightarrow> Inl (wrap_error ''server: '' e)
                             | Inr tls \<Rightarrow> Inr \<lparr>apRegistry = reg, apRoutes = routes, apOrchestrator = oo, apTLS = tls\<rparr>)))))"

section \<open>A loaded configuration starts\<close>

lemma compat_cases:
  "ct \<in> set compatTypes \<longleftrightarrow> ct = CompatDocling \<or> ct = CompatExternal \<or> ct = CompatDoclingExternal \<or> ct = CompatTika"
  by (auto simp: compatTypes_def)

lemma newAdapterByCompat_total:
  assumes "ecCompatType ec \<in> set compatTypes" "ecURL ec \<noteq> []"
  shows "\<exists>a. newAdapterByCompat nm ec = Inr a"
  using assms unfolding compat_cases
  by (auto simp: newAdapterByCompat_def docling_New_def external_New_def tika_New_def composite_New_def adapter_New_def)

lemma newAdapterByCompat_facades:
  assumes "newAdapterByCompat nm ec = Inr a"
  shows "Facades (engine_Capabilities a) = acceptedFacades (ecCompatType ec)"
proof -
  have d: "CompatDocling \<noteq> CompatExternal" "CompatDocling \<noteq> CompatTika" "CompatDocling \<noteq> CompatDoclingExternal"
    "CompatExternal \<noteq> CompatTika" "CompatExternal \<noteq> CompatDoclingExternal" "CompatTika \<noteq> CompatDoclingExternal"
    by (simp_all add: compat_defs)
  note k = docling_New_def external_New_def tika_New_def composite_New_def adapter_New_def engine_Capabilities_def
    docling_Capabilities_def external_Capabilities_def tika_Capabilities_def composite_Capabilities_def FacadeDocling_def FacadeExternal_def
  consider "ecCompatType ec = CompatDocling" | "ecCompatType ec = CompatExternal" | "ecCompatType ec = CompatTika"
    | "ecCompatType ec = CompatDoclingExternal" using assms by (auto simp: newAdapterByCompat_def split: if_splits)
  then show ?thesis
    by cases (use assms d d[symmetric] in \<open>simp_all add: newAdapterByCompat_def acceptedFacades_def, auto simp: k split: if_splits\<close>)
qed

text \<open>The entry the loop makes for an engine.\<close>

definition entry_for :: "Name \<Rightarrow> EngineConfig \<Rightarrow> RegistryEntry \<Rightarrow> bool" where
  "entry_for nm ec en \<longleftrightarrow> (\<exists>a j. newAdapterByCompat nm ec = Inr a
     \<and> en = \<lparr>entryEngine = engineOf j a, MimeTypes = ecMimeTypes ec, Extensions = ecExtensions ec\<rparr>)"

lemma entriesLoop_spec:
  assumes "list_all (\<lambda>(n, ec). ecEnable ec \<longrightarrow> (\<exists>c. client_New fs ec = Inr c) \<and> (\<exists>a. newAdapterByCompat n ec = Inr a)) ecs"
    and "distinct (map fst ecs)" "fst ` set ecs \<inter> fst ` set acc = {}" "map_ok acc"
  shows "\<exists>es. entriesLoop fs i acc ecs = Inr es \<and> map_ok es
    \<and> (\<forall>n en. map_of es n = Some en \<longrightarrow> map_of acc n = Some en \<or> (\<exists>ec. (n, ec) \<in> set ecs \<and> ecEnable ec \<and> entry_for n ec en))
    \<and> dom (map_of es) = dom (map_of acc) \<union> {n. \<exists>ec. (n, ec) \<in> set ecs \<and> ecEnable ec}"
  using assms
proof (induction fs i acc ecs rule: entriesLoop.induct)
  case (2 fs i acc nm ec rest)
  have p: "list_all (\<lambda>(n, ec). ecEnable ec \<longrightarrow> (\<exists>c. client_New fs ec = Inr c) \<and> (\<exists>a. newAdapterByCompat n ec = Inr a)) rest"
    "distinct (map fst rest)" "fst ` set rest \<inter> fst ` set acc = {}" using 2(3-5) by simp_all
  show ?case
  proof (cases "ecEnable ec")
    case False
    then have same: "{n. \<exists>e. (n, e) \<in> set ((nm, ec) # rest) \<and> ecEnable e} = {n. \<exists>e. (n, e) \<in> set rest \<and> ecEnable e}" by auto
    from 2(1)[OF False p 2(6)] obtain es where es: "entriesLoop fs (Suc i) acc rest = Inr es" "map_ok es"
      "\<forall>n en. map_of es n = Some en \<longrightarrow> map_of acc n = Some en \<or> (\<exists>ec. (n, ec) \<in> set rest \<and> ecEnable ec \<and> entry_for n ec en)"
      "dom (map_of es) = dom (map_of acc) \<union> {n. \<exists>ec. (n, ec) \<in> set rest \<and> ecEnable ec}"
      by (elim exE conjE) (rule that)
    have "entriesLoop fs i acc ((nm, ec) # rest) = Inr es" using False es(1) by simp
    moreover have "\<forall>n en. map_of es n = Some en \<longrightarrow> map_of acc n = Some en \<or> (\<exists>e. (n, e) \<in> set ((nm, ec) # rest) \<and> ecEnable e \<and> entry_for n e en)"
      using es(3) by (meson list.set_intros(2))
    ultimately show ?thesis using es(2,4) unfolding same by (intro exI[of _ es]) simp
  next
    case True
    then obtain c a where c: "client_New fs ec = Inr c" and a: "newAdapterByCompat nm ec = Inr a" using 2(3) by auto
    let ?en = "\<lparr>entryEngine = engineOf i a, MimeTypes = ecMimeTypes ec, Extensions = ecExtensions ec\<rparr>"
    let ?acc = "map_put nm ?en acc"
    have d: "fst ` set rest \<inter> fst ` set ?acc = {}" using 2(4,5) by auto
    have t: "\<not> \<not> ecEnable ec" using True by simp
    from 2(2)[OF t c a p(1,2) d map_ok_put[OF 2(6)]] obtain es where es: "entriesLoop fs (Suc i) ?acc rest = Inr es" "map_ok es"
      "\<forall>n en. map_of es n = Some en \<longrightarrow> map_of ?acc n = Some en \<or> (\<exists>ec. (n, ec) \<in> set rest \<and> ecEnable ec \<and> entry_for n ec en)"
      "dom (map_of es) = dom (map_of ?acc) \<union> {n. \<exists>ec. (n, ec) \<in> set rest \<and> ecEnable ec}"
      by (elim exE conjE) (rule that)
    have e: "entry_for nm ec ?en" using a by (auto simp: entry_for_def)
    have "entriesLoop fs i acc ((nm, ec) # rest) = Inr es" using True c a es(1) by simp
    moreover have "map_of acc n = Some en \<or> (\<exists>e. (n, e) \<in> set ((nm, ec) # rest) \<and> ecEnable e \<and> entry_for n e en)" if "map_of es n = Some en" for n en
    proof (cases "n = nm \<and> en = ?en")
      case True
      with e \<open>ecEnable ec\<close> show ?thesis by auto
    next
      case False
      from es(3) that have "map_of ?acc n = Some en \<or> (\<exists>e. (n, e) \<in> set rest \<and> ecEnable e \<and> entry_for n e en)" by blast
      with False show ?thesis by (auto split: if_splits)
    qed
    moreover have "dom (map_of es) = dom (map_of acc) \<union> {n. \<exists>e. (n, e) \<in> set ((nm, ec) # rest) \<and> ecEnable e}"
      unfolding es(4) using True by auto
    ultimately show ?thesis using es(2) by (intro exI[of _ es]) simp
  qed
qed auto


text \<open>
  C35: a configuration that loads starts.  When the HTTP clients can be built (their certificate files are readable), \<^verbatim>\<open>buildRegistry\<close> always
  succeeds: every enabled engine and no other is registered under its name, the configured default engine is the registry's default,
  and each engine answers exactly the facades the configuration check assumed of its compatibility type.
\<close>

theorem loaded_config_builds_registry:
  assumes "Load hp url getenv merged = Inr c" "map_ok (cfEngines c)"
    and "list_all (\<lambda>(n, ec). ecEnable ec \<longrightarrow> (\<exists>cl. client_New fs ec = Inr cl)) (cfEngines c)"
  shows "\<exists>reg. buildRegistry fs c = Inr reg \<and> named_registry reg
     \<and> registry_Get reg (rtDefaultEngine (cfRouting c)) = Inr (registry_Default reg)
     \<and> (\<forall>n. (\<exists>e. registry_Get reg n = Inr e) \<longleftrightarrow> (\<exists>ec. map_of (cfEngines c) n = Some ec \<and> ecEnable ec))
     \<and> (\<forall>n ec e. map_of (cfEngines c) n = Some ec \<longrightarrow> registry_Get reg n = Inr e \<longrightarrow>
           Facades (Capabilities e) = acceptedFacades (ecCompatType ec))"
proof -
  let ?d = "rtDefaultEngine (cfRouting c)"
  have dist: "distinct (map fst (cfEngines c))" using assms(2) by (simp add: map_ok_def)
  have "list_all (\<lambda>(n, ec). ecEnable ec \<longrightarrow> (\<exists>c. client_New fs ec = Inr c) \<and> (\<exists>a. newAdapterByCompat n ec = Inr a)) (cfEngines c)"
    using assms(3) loaded_engines[OF assms(1)] newAdapterByCompat_total by (fastforce simp: list_all_iff)
  from entriesLoop_spec[OF this dist, of "[]" 0] obtain es where es: "entriesLoop fs 0 [] (cfEngines c) = Inr es" "map_ok es"
    "\<forall>n en. map_of es n = Some en \<longrightarrow> (\<exists>ec. map_of (cfEngines c) n = Some ec \<and> ecEnable ec \<and> entry_for n ec en)"
    "dom (map_of es) = {n. \<exists>ec. map_of (cfEngines c) n = Some ec \<and> ecEnable ec}"
    using dist by (auto simp: map_ok_def)
  obtain dec where dec: "map_of (cfEngines c) ?d = Some dec" "ecEnable dec" using loaded_default_engine[OF assms(1)] by blast
  then obtain den where den: "map_of es ?d = Some den" using es(4) by (metis (mono_tags, lifting) domD mem_Collect_eq)
  then have "es \<noteq> []" by auto
  with den obtain reg where reg: "NewRegistry es ?d (rtStrategy (cfRouting c)) = Inr reg" by (auto simp: NewRegistry_def Let_def)
  have b: "buildRegistry fs c = Inr reg" using es(1) reg \<open>es \<noteq> []\<close> by (simp add: buildRegistry_def)
  have get: "registry_Get reg n = Inr e \<longleftrightarrow> (\<exists>en. map_of es n = Some en \<and> e = entryEngine en)" for n e
    by (auto simp: registry_Get_of[OF reg] split: option.split)
  have en: "engineName (entryEngine en) = n \<and> (\<forall>ec. map_of (cfEngines c) n = Some ec \<longrightarrow> Facades (Capabilities (entryEngine en)) = acceptedFacades (ecCompatType ec))"
    if "map_of es n = Some en" for n en
    using es(3) that newAdapterByCompat_facades newAdapterByCompat_Inr by (fastforce simp: entry_for_def engineOf_def)
  have "named_registry reg"
    unfolding named_registry_def registry_ok_def using es(2) reg en by (auto simp: get)
  moreover have "registry_Get reg ?d = Inr (registry_Default reg)"
    using den reg unfolding get by (elim NewRegistry_Inr) (auto simp: registry_Default_def)
  moreover have "(\<exists>e. registry_Get reg n = Inr e) \<longleftrightarrow> (\<exists>ec. map_of (cfEngines c) n = Some ec \<and> ecEnable ec)" for n
    unfolding get using es(4) by blast
  moreover have "Facades (Capabilities e) = acceptedFacades (ecCompatType ec)" if "map_of (cfEngines c) n = Some ec" "registry_Get reg n = Inr e" for n ec e
    using that en by (auto simp: get)
  ultimately show ?thesis using b by blast
qed

definition demo_fs :: fileSystem where
  "demo_fs = \<lparr>fsRead = (\<lambda>_. Inl (plain_error ''no file'')), fsPEM = (\<lambda>_. False), fsKeyPair = (\<lambda>_ _. Inl (plain_error ''no file''))\<rparr>"

theorem loaded_config_builds_registry_witness:
  "\<exists>reg. buildRegistry demo_fs demo_config = Inr reg \<and> named_registry reg \<and> registry_Get reg ''main'' = Inr (registry_Default reg)"
proof -
  have m: "map_ok (cfEngines demo_config)" by code_simp
  have t: "map (\<lambda>(n, ec). hcTLS (ecHTTP ec)) (cfEngines demo_config) = replicate 2 \<lparr>tcInsecureSkipVerify = False, tcCAFile = [], tcCertFile = [], tcKeyFile = [], tcServerName = []\<rparr>"
    by code_simp
  have "\<exists>cl. client_New demo_fs ec = Inr cl" if "(n, ec) \<in> set (cfEngines demo_config)" for n ec
  proof -
    have "hcTLS (ecHTTP ec) \<in> set (map (\<lambda>(n, ec). hcTLS (ecHTTP ec)) (cfEngines demo_config))" using that by force
    then show ?thesis unfolding t by (simp add: client_New_def client_buildTLS_def Let_def)
  qed
  then have "list_all (\<lambda>(n, ec). ecEnable ec \<longrightarrow> (\<exists>cl. client_New demo_fs ec = Inr cl)) (cfEngines demo_config)"
    by (auto simp: list_all_iff)
  moreover have "rtDefaultEngine (cfRouting demo_config) = ''main''" by code_simp
  ultimately show ?thesis using loaded_config_builds_registry[OF demo_loads m, of demo_fs] by auto
qed

section \<open>No handler without a key\<close>

text \<open>The outer chain hands on the headers of the request unchanged, so two inner handlers that agree on requests with these headers
  cannot be told apart.\<close>

lemma FullCapture_cong:
  assumes "\<And>h r'. wqHeader r' = wqHeader r \<Longrightarrow> n1 h r' = n2 h r'"
  shows "FullCapture enabled bytes extra n1 h r = FullCapture enabled bytes extra n2 h r"
  by (cases enabled; cases "peekBody (wqBody r) fullCaptureBodyHardCap"; cases "peekBody (wqBody r) bytes")
    (simp_all add: FullCapture_def Let_def assms)

lemma observers_cong:
  assumes "n1 h r = n2 h r"
  shows "AccessLog paths clock (Metrics_mw n1) h r = AccessLog paths clock (Metrics_mw n2) h r"
  by (simp add: AccessLog_def Metrics_mw_def assms)

lemma Recover_cong: "n1 h r = n2 h r \<Longrightarrow> Recover n1 h r = Recover n2 h r"
  by (simp only: Recover_def)

lemma GlobalRateLimit_cong: "n1 h r = n2 h r \<Longrightarrow> GlobalRateLimit rps burst allow n1 h r = GlobalRateLimit rps burst allow n2 h r"
  by (cases "rps \<le> 0 \<or> burst \<le> 0") (simp_all only: GlobalRateLimit_def if_True if_False)

lemma RequestID_cong:
  assumes "\<And>h' r'. wqHeader r' = wqHeader r \<Longrightarrow> n1 h' r' = n2 h' r'"
  shows "RequestID_mw fresh n1 h r = RequestID_mw fresh n2 h r"
  unfolding RequestID_mw_def Let_def by (rule assms) simp

lemma BodyLimit_cong:
  assumes "\<And>h' r'. wqHeader r' = wqHeader r \<Longrightarrow> n1 h' r' = n2 h' r'"
  shows "BodyLimit m n1 h r = BodyLimit m n2 h r"
  unfolding BodyLimit_def by (rule assms) simp

lemma Recover_id: "\<not> wrPanic (n h r) \<Longrightarrow> Recover n h r = n h r"
  by (simp only: Recover_def Let_def if_False)

lemma outerChain_cong:
  assumes "\<And>h r'. wqHeader r' = wqHeader r \<Longrightarrow> n1 h r' = n2 h r'"
  shows "outerChain env cfg n1 h r = outerChain env cfg n2 h r"
proof -
  have "AccessLog paths clock (Metrics_mw (FullCapture enabled bytes extra n1)) h' r' = AccessLog paths clock (Metrics_mw (FullCapture enabled bytes extra n2)) h' r'"
    if "wqHeader r' = wqHeader r" for paths clock enabled bytes extra h' r'
    by (intro observers_cong FullCapture_cong assms) (simp only: that)
  then show ?thesis
    unfolding outerChain_def by (intro Recover_cong RequestID_cong GlobalRateLimit_cong BodyLimit_cong) simp_all
qed

text \<open>What the client sees of the outer chain around a handler that answers, when the limiter lets it through and otherwise.\<close>

lemma outerChain_status:
  assumes "\<And>h r. wrPanic (next h r) = False"
  shows "\<exists>h' r'. wqHeader r' = wqHeader r
     \<and> sentStatus (wrOps (outerChain env cfg next h r)) \<in> {sentStatus (wrOps (next h' r')), 429}
     \<and> sentBytes (wrOps (outerChain env cfg next h r)) \<in> {sentBytes (wrOps (next h' r')), ''rate limited'' @ [CHR 0x0A]}"
proof -
  let ?id = "if header_Get (wqHeader r) ''X-Request-ID'' = [] then svFresh env else header_Get (wqHeader r) ''X-Request-ID''"
  define h' where "h' = header_Set h ''X-Request-ID'' ?id"
  define r1 where "r1 = r\<lparr>ctxRequestID := Some ?id, wqBody := (if srvMaxBodyBytes (cfServer cfg) > 0 then MaxBytesReader (wqBody r) (srvMaxBodyBytes (cfServer cfg)) else wqBody r),
      ctxBodyRead := Some 0\<rparr>"
  define r2 where "r2 = r1\<lparr>ctxCapture := (ulFullCapture (obUpstream (cfObservability cfg)) \<or> ctxCapture r1)\<rparr>"
  define obs where "obs = AccessLog (lgSilencePaths (obLog (cfObservability cfg))) (svClock env) (Metrics_mw
      (FullCapture (ulFullCapture (obUpstream (cfObservability cfg))) (ulFullCaptureBodyBytes (obUpstream (cfObservability cfg))) (buildRedactHeaderList cfg) next))"
  have o: "sentStatus (wrOps (obs h' r1)) = sentStatus (wrOps (next h' r2))" "sentBytes (wrOps (obs h' r1)) = sentBytes (wrOps (next h' r2))"
    "wrPanic (obs h' r1) = False"
    using observers_response[where inner = "next" and h = h' and r = r1 and enabled = "ulFullCapture (obUpstream (cfObservability cfg))"] assms
    by (simp_all add: Let_def obs_def r2_def)
  define inner where "inner = RequestID_mw (svFresh env) (GlobalRateLimit (rlRPS (cfRateLimitGlobal cfg)) (rlBurst (cfRateLimitGlobal cfg)) (svAllow env)
      (BodyLimit (srvMaxBodyBytes (cfServer cfg)) obs))"
  have i: "inner h r = obs h' r1 \<or> inner h r = http_Error h' ''rate limited'' 429"
    unfolding inner_def RequestID_mw_def GlobalRateLimit_def BodyLimit_def h'_def r1_def Let_def by simp
  moreover have "wrPanic (http_Error h' ''rate limited'' 429) = False" by (simp add: http_Error_def)
  ultimately have "\<not> wrPanic (inner h r)" using o(3) by metis
  then have "outerChain env cfg next h r = inner h r"
    unfolding outerChain_def obs_def[symmetric] inner_def[symmetric] by (rule Recover_id)
  with i have "outerChain env cfg next h r = obs h' r1 \<or> outerChain env cfg next h r = http_Error h' ''rate limited'' 429" by simp
  then show ?thesis
    using o by (intro exI[of _ h'] exI[of _ r2]) (auto simp: http_Error_def r2_def r1_def)
qed

lemma facade_routes_guarded:
  "rt \<in> set (mountFacadeDocling cfg) \<Longrightarrow> roGuarded rt" "rt \<in> set (mountFacadeExternal cfg orch) \<Longrightarrow> roGuarded rt"
proof -
  have "list_all roGuarded (mountFacadeDocling cfg)" "list_all roGuarded (mountFacadeExternal cfg orch)"
    by (simp_all add: mountFacadeDocling_def mountFacadeExternal_def mountRoute_def Let_def)
  then show "rt \<in> set (mountFacadeDocling cfg) \<Longrightarrow> roGuarded rt" "rt \<in> set (mountFacadeExternal cfg orch) \<Longrightarrow> roGuarded rt"
    by (simp_all add: list_all_iff)
qed

lemma passthroughs_guarded: "mountPassthroughs parse cfg ecs = Inr pts \<Longrightarrow> list_all roGuarded pts"
proof (induction parse cfg ecs arbitrary: pts rule: mountPassthroughs.induct)
  case (2 parse cfg nm ec rest)
  have "roGuarded rt" if "mountEnginePassthrough parse cfg nm ec = Inr rt" for rt
    using that by (simp add: mountEnginePassthrough_def mountRoute_def Let_def split: option.splits) auto
  with 2 show ?case by (auto split: if_splits sum.splits)
qed simp

lemma routes_guarded:
  assumes "NewRouter parse cfg orch = Inr routes" "rt \<in> set routes" "roEndpoint rt \<notin> {EpHealthz, EpReadyz, EpMetrics}"
  shows "roGuarded rt"
proof -
  obtain pts where p: "(if rtPassthrough (cfRouting cfg) then mountPassthroughs parse cfg (cfEngines cfg) else Inr []) = Inr pts"
    using assms(1) by (cases "if rtPassthrough (cfRouting cfg) then mountPassthroughs parse cfg (cfEngines cfg) else Inr []") (simp_all add: NewRouter_def Let_def)
  then have "list_all roGuarded pts" using passthroughs_guarded by (auto split: if_splits)
  moreover have "rt \<in> set (mountFacadeDocling cfg) \<or> rt \<in> set (mountFacadeExternal cfg orch) \<or> rt \<in> set pts"
    using assms p by (simp add: NewRouter_def Let_def mountRoute_def split: if_splits) auto
  ultimately show ?thesis using facade_routes_guarded by (auto simp: list_all_iff)
qed

text \<open>
  C34: with the API key required, a request without a configured key reaches no handler.  On every route the router mounts, apart from the
  health and metrics endpoints, the outcome for such a request, logs included, is the same whatever the handler behind the route would do,
  and its status is 401, or 429 when the global limiter had no token.  The hypothesis on the hash is that it does not collide on the keys in play.
\<close>

theorem unauthenticated_requests_reach_no_handler:
  assumes "NewRouter parse cfg orch = Inr routes" "rt \<in> set routes" "roEndpoint rt \<notin> {EpHealthz, EpReadyz, EpMetrics}"
    and "seRequireAPIKey (cfSecurity cfg)"
    and "header_Get (wqHeader r) (seProxyAPIKeyHeader (cfSecurity cfg)) \<notin> set (seProxyAPIKeys (cfSecurity cfg)) - {[]}"
    and "inj_on sha (insert (header_Get (wqHeader r) (seProxyAPIKeyHeader (cfSecurity cfg))) (set (seProxyAPIKeys (cfSecurity cfg))))"
  shows "serveRoute sha env cfg rt handler1 h r = serveRoute sha env cfg rt handler2 h r
     \<and> sentStatus (wrOps (serveRoute sha env cfg rt handler1 h r)) \<in> {401, 429}"
proof -
  let ?deny = "\<lambda>h r. http_Error h ''unauthorized'' 401"
  have g: "roGuarded rt" using routes_guarded[OF assms(1-3)] .
  have a: "guardChain sha env cfg inner h' r' = ?deny h' r'" if "wqHeader r' = wqHeader r" for inner h' r'
  proof -
    have "APIKey sha (seProxyAPIKeyHeader (cfSecurity cfg)) (seProxyAPIKeys (cfSecurity cfg)) True inner h'' r'' = ?deny h'' r''"
      if "wqHeader r'' = wqHeader r" for h'' r''
      using assms(5,6) by (subst api_key_gate_exact) (auto simp: that)
    then show ?thesis using that assms(4) by (simp add: guardChain_def Timeout_mw_def)
  qed
  have s: "serveRoute sha env cfg rt handler h r = outerChain env cfg ?deny h r" for handler
    unfolding serveRoute_def using g by (simp add: outerChain_cong[OF a])
  have "sentStatus (wrOps (outerChain env cfg ?deny h r)) \<in> {401, 429}"
    using outerChain_status[of ?deny r env cfg h] by (auto simp: http_Error_def)
  then show ?thesis unfolding s by simp
qed

definition demo_guarded :: Config where
  "demo_guarded = Default\<lparr>cfSecurity := (cfSecurity Default)\<lparr>seRequireAPIKey := True, seProxyAPIKeyHeader := ''X-API-Key'', seProxyAPIKeys := [''k1'']\<rparr>\<rparr>"

definition demo_upload_request :: "Header \<Rightarrow> webReq" where
  "demo_upload_request hs = \<lparr>wqMethod = ''POST'', wqPath = ''/v1/convert/file'', wqHeader = hs, wqBody = \<lparr>srcData = ''x'', srcErr = None\<rparr>,
     wqRoute = ''/v1/convert/file'', ctxRequestID = None, ctxDeadline = None, ctxSilenced = False, ctxCapture = False, ctxBodyRead = None\<rparr>"

theorem unauthenticated_requests_reach_no_handler_witness:
  "\<exists>routes rt. NewRouter demo_parse demo_guarded False = Inr routes \<and> rt \<in> set routes \<and> roEndpoint rt = EpConvertFile
     \<and> serveRoute id \<lparr>svFresh = ''01'', svAllow = True, svClock = int\<rparr> demo_guarded rt (\<lambda>h r. http_Error h ''ran'' 200) []
           (demo_upload_request [(''X-Api-Key'', [''k2''])])
       = serveRoute id \<lparr>svFresh = ''01'', svAllow = True, svClock = int\<rparr> demo_guarded rt (\<lambda>h r. http_Error h ''leaked'' 500) []
           (demo_upload_request [(''X-Api-Key'', [''k2''])])"
proof -
  let ?rt = "mountRoute (Some ''POST'') ''/v1/convert/file'' EpConvertFile True" and ?r = "demo_upload_request [(''X-Api-Key'', [''k2''])]"
  obtain routes where n: "NewRouter demo_parse demo_guarded False = Inr routes" and m: "?rt \<in> set routes"
  proof -
    have "mountFacadeDocling demo_guarded \<noteq> [] \<and> hd (mountFacadeDocling demo_guarded) = ?rt" by code_simp
    then have "?rt \<in> set (mountFacadeDocling demo_guarded)" by (metis list.set_sel(1))
    moreover have "rtDoclingEnabled (cfRouting demo_guarded)" "cfEngines demo_guarded = []" by (simp_all add: demo_guarded_def Default_def)
    ultimately show thesis using that by (simp add: NewRouter_def Let_def)
  qed
  have g: "header_Get (wqHeader ?r) ''X-API-Key'' = ''k2''" by code_simp
  have e: "roEndpoint ?rt \<notin> {EpHealthz, EpReadyz, EpMetrics}" "roEndpoint ?rt = EpConvertFile" by (simp_all add: mountRoute_def)
  have c: "seRequireAPIKey (cfSecurity demo_guarded)" "seProxyAPIKeyHeader (cfSecurity demo_guarded) = ''X-API-Key''"
    "seProxyAPIKeys (cfSecurity demo_guarded) = [''k1'']" by (simp_all add: demo_guarded_def)
  have "serveRoute id \<lparr>svFresh = ''01'', svAllow = True, svClock = int\<rparr> demo_guarded ?rt (\<lambda>h r. http_Error h ''ran'' 200) [] ?r
       = serveRoute id \<lparr>svFresh = ''01'', svAllow = True, svClock = int\<rparr> demo_guarded ?rt (\<lambda>h r. http_Error h ''leaked'' 500) [] ?r"
    using unauthenticated_requests_reach_no_handler[OF n m e(1) c(1), of ?r id] unfolding c g by simp
  then show ?thesis using n m e(2) by blast
qed

section \<open>Credentials in the capture log\<close>

text \<open>A header that carries a credential: one of the built-in names, the proxy's key header, or the auth header of an enabled engine.\<close>

definition credential_header :: "Config \<Rightarrow> string \<Rightarrow> bool" where
  "credential_header cfg k \<longleftrightarrow> ToLower k \<in> set builtinRedactedHeaders
     \<or> (seProxyAPIKeyHeader (cfSecurity cfg) \<noteq> [] \<and> ToLower k = ToLower (seProxyAPIKeyHeader (cfSecurity cfg)))
     \<or> (\<exists>(n, ec) \<in> set (cfEngines cfg). ecEnable ec \<and> (\<exists>sp \<in> set (EffectiveAuthSpecs ec). ahHeader sp \<noteq> [] \<and> ToLower k = ToLower (ahHeader sp)))"

definition lengthsOnly :: "Config \<Rightarrow> Header \<Rightarrow> (string \<times> string list) list" where
  "lengthsOnly cfg hs = map (\<lambda>(k, vs). (k, if credential_header cfg k then map (\<lambda>v. ''<redacted len='' @ show_nat (length v) @ ''>'') vs else vs)) hs"

lemma redact_set_credentials: "ToLower k \<in> set (buildRedactSet (buildRedactHeaderList cfg)) \<longleftrightarrow> credential_header cfg k"
  unfolding credential_header_def buildRedactSet_def buildRedactHeaderList_def EffectiveAuthSpecs_def
  by (auto simp: image_iff) (metis, force+)

lemma redactHeaders_lengthsOnly: "redactHeaders hs (buildRedactSet (buildRedactHeaderList cfg)) = lengthsOnly cfg hs"
  by (auto simp: redactHeaders_def lengthsOnly_def redact_set_credentials redactValue_show fun_eq_iff)

text \<open>
  C36: the audit log holds no credentials.  When full capture is on, a request that does not panic adds exactly one capture line, and in it the
  values of every header that carries a credential, by a built-in name, as the proxy's own key or as the auth header of any enabled engine,
  are replaced by their length, in the request as in the response; all other headers are logged as they are.  The body prefixes are
  bounded: at most 87384 characters of base64, whatever size is configured and however much is streamed.
\<close>

theorem full_capture_hides_credentials:
  "let res = inner h (r\<lparr>ctxCapture := True\<rparr>); out = FullCapture True bytes (buildRedactHeaderList cfg) inner h r
   in if wrPanic res then wrLogs out = wrLogs res
      else \<exists>line. wrLogs out = wrLogs res @ [LogCapture line]
         \<and> clRequestHeaders line = lengthsOnly cfg (wqHeader r) \<and> clResponseHeaders line = lengthsOnly cfg (wrHeader res)
         \<and> length (clRequestBody line) \<le> 87384 \<and> length (clResponseBody line) \<le> 87384"
proof -
  define cap where "cap = (if bytes > fullCaptureBodyHardCap then fullCaptureBodyHardCap else bytes)"
  define res where "res = inner h (r\<lparr>ctxCapture := True\<rparr>)"
  define cw where "cw = fold cw_step (wrOps res) (cw_init cap)"
  have peek: "peekBody b n = (encodeBody (take (nat n) (srcData b)), b)" for b n
    by (simp add: peekBody_def Let_def)
  have b: "nat cap \<le> 65536" by (auto simp: cap_def fullCaptureBodyHardCap_def nat_le_iff)
  have rq: "length (encodeBody (take (nat cap) s)) \<le> 87384" for s
    using encodeBody_bounded[of "take (nat cap) s" 65536] b by simp
  have rs: "length (encodeBody (cwBody cw)) \<le> 87384"
    using encodeBody_bounded[of "cwBody cw" 65536] captureResponseWriter_bounded[of "wrOps res" cap] b by (simp add: cw_def)
  have "wrLogs (FullCapture True bytes (buildRedactHeaderList cfg) inner h r) = wrLogs res @ (if wrPanic res then [] else
      [LogCapture \<lparr>clRequestID = IDFrom r, clStatus = cwStatus cw, clResponseBytes = cwTotalBytes cw,
         clRequestHeaders = lengthsOnly cfg (wqHeader r), clResponseHeaders = lengthsOnly cfg (wrHeader res),
         clRequestBody = (if cap > 0 then encodeBody (take (nat cap) (srcData (wqBody r))) else []), clResponseBody = encodeBody (cwBody cw)\<rparr>])"
    by (auto simp: FullCapture_def Let_def cap_def[symmetric] peek redactHeaders_lengthsOnly res_def cw_def IDFrom_def)
  then show ?thesis using rq rs unfolding Let_def res_def[symmetric] by auto
qed

end
