(* ===== verification/Observability.thy ===== *)
theory Observability
  imports Httpclient Authutil Ssrf
begin

text \<open>
  \<^verbatim>\<open>internal/observability/logger.go\<close> and the bridges of \<^verbatim>\<open>internal/app\<close> between the components and what operators see: the logger's
  settings, the Prometheus samples each recorder writes, and the lines logged when the proxy starts.  The logging and metrics
  libraries are the lists of what is handed to them; the time zone database is an argument.
\<close>

section \<open>logger.go\<close>

datatype zlevel = ZTrace | ZDebug | ZInfo | ZWarn | ZError | ZFatal | ZPanic

text \<open>Levels are numbers in the logging library, and a line below the level of a logger is dropped.\<close>

fun zrank :: "zlevel \<Rightarrow> int" where
  "zrank ZTrace = - 1"
| "zrank ZDebug = 0"
| "zrank ZInfo = 1"
| "zrank ZWarn = 2"
| "zrank ZError = 3"
| "zrank ZFatal = 4"
| "zrank ZPanic = 5"

lemma zrank_inject: "zrank a = zrank b \<longleftrightarrow> a = b"
  by (cases a; cases b; simp)

instantiation zlevel :: linorder
begin

definition less_eq_zlevel :: "zlevel \<Rightarrow> zlevel \<Rightarrow> bool" where
  "less_eq_zlevel a b = (zrank a \<le> zrank b)"

definition less_zlevel :: "zlevel \<Rightarrow> zlevel \<Rightarrow> bool" where
  "less_zlevel a b = (zrank a < zrank b)"

instance
  by standard (auto simp: less_eq_zlevel_def less_zlevel_def zrank_inject)

end

definition parseLevel :: "string \<Rightarrow> zlevel" where
  "parseLevel s =
     (let l = ToLower s in
      if l = ''trace'' then ZTrace
      else if l = ''debug'' then ZDebug
      else if l = ''info'' \<or> l = [] then ZInfo
      else if l = ''warn'' \<or> l = ''warning'' then ZWarn
      else if l = ''error'' then ZError
      else if l = ''fatal'' then ZFatal
      else if l = ''panic'' then ZPanic
      else ZInfo)"

datatype timeFormat = TFRFC3339Nano | TFRFC3339 | TFUnix | TFUnixMs | TFUnixMicro | TFLayout string

definition resolveTimeFormat :: "string \<Rightarrow> timeFormat" where
  "resolveTimeFormat s =
     (let l = ToLower (TrimSpace s) in
      if l = [] \<or> l = ''rfc3339nano'' then TFRFC3339Nano
      else if l = ''rfc3339'' then TFRFC3339
      else if l = ''unix'' then TFUnix
      else if l = ''unix_ms'' \<or> l = ''unix-ms'' \<or> l = ''unixms'' then TFUnixMs
      else if l = ''unix_micro'' \<or> l = ''unix-micro'' then TFUnixMicro
      else TFLayout s)"

text \<open>The zone and whether a warning was written; no zone leaves the logger's own clock, which is the process's local time.\<close>

definition resolveLocation :: "(string \<Rightarrow> string option) \<Rightarrow> string \<Rightarrow> string option \<times> bool" where
  "resolveLocation loadLocation tz0 =
     (let tz = TrimSpace tz0 in
      if tz = [] \<or> ToLower tz = ''utc'' then (None, False)
      else case loadLocation tz of None \<Rightarrow> (None, True) | Some loc \<Rightarrow> (Some loc, False))"

text \<open>The package-wide settings of the logging library that \<^verbatim>\<open>NewLogger\<close> overrides.\<close>

record zerologGlobals =
  zgTimeFormat :: timeFormat
  zgZone :: "string option"
  zgLevelField :: string
  zgMessageField :: string
  zgTimestampField :: string
  zgErrorField :: string

definition applyFieldNames :: "LogFieldNames \<Rightarrow> zerologGlobals \<Rightarrow> zerologGlobals" where
  "applyFieldNames fn g =
     (let g1 = (if fnLevel fn \<noteq> [] then g\<lparr>zgLevelField := fnLevel fn\<rparr> else g);
          g2 = (if fnMessage fn \<noteq> [] then g1\<lparr>zgMessageField := fnMessage fn\<rparr> else g1);
          g3 = (if fnTimestamp fn \<noteq> [] then g2\<lparr>zgTimestampField := fnTimestamp fn\<rparr> else g2)
      in if fnError fn \<noteq> [] then g3\<lparr>zgErrorField := fnError fn\<rparr> else g3)"

record zlogger =
  zlLevel :: zlevel
  zlConsole :: bool
  zlBurst :: "(nat \<times> Duration) option"
  zlCaller :: bool
  zlFields :: "(string \<times> string) list"

definition NewLogger :: "(string \<Rightarrow> string option) \<Rightarrow> LogConfig \<Rightarrow> zerologGlobals \<Rightarrow> zlogger \<times> zerologGlobals" where
  "NewLogger loadLocation cfg g =
     (let g1 = g\<lparr>zgTimeFormat := resolveTimeFormat (lgTimeFormat cfg)\<rparr>;
          g2 = (case fst (resolveLocation loadLocation (lgTimezone cfg)) of None \<Rightarrow> g1 | Some loc \<Rightarrow> g1\<lparr>zgZone := Some loc\<rparr>)
      in (\<lparr>zlLevel = parseLevel (lgLevel cfg), zlConsole = (ToLower (lgFormat cfg) = ''console''),
           zlBurst = (if lgSampling cfg then Some (5, second) else None), zlCaller = lgAddCaller cfg,
           zlFields = lgStaticFields cfg\<rparr>,
          applyFieldNames (lgFieldNames cfg) g2))"

section \<open>Recorders\<close>

datatype sample = Inc string "string list" | SetGauge string "string list" int | Observe string "string list" Duration

fun outcomeLabel :: "Outcome \<Rightarrow> string" where
  "outcomeLabel OutcomeAttached = ''attached''"
| "outcomeLabel OutcomeMissingKey = ''missing_key''"
| "outcomeLabel OutcomeNoAuth = ''no_auth''"

fun reasonLabel :: "SSRFRejectReason \<Rightarrow> string" where
  "reasonLabel SSRFReasonInvalidURL = ''invalid_url''"
| "reasonLabel SSRFReasonNonHTTPScheme = ''non_http_scheme''"
| "reasonLabel SSRFReasonEmptyHost = ''empty_host''"
| "reasonLabel SSRFReasonPortNotAllowed = ''port_not_allowed''"
| "reasonLabel SSRFReasonResolutionFailed = ''resolution_failed''"
| "reasonLabel SSRFReasonResolutionEmpty = ''resolution_empty''"
| "reasonLabel SSRFReasonLoopback = ''loopback''"
| "reasonLabel SSRFReasonLinkLocal = ''link_local''"
| "reasonLabel SSRFReasonMetadataIP = ''metadata_ip''"
| "reasonLabel SSRFReasonMulticast = ''multicast''"
| "reasonLabel SSRFReasonPrivate = ''private''"
| "reasonLabel SSRFReasonBlockedCIDR = ''blocked_cidr''"
| "reasonLabel SSRFReasonUnspecified = ''unspecified''"

text \<open>The first argument says whether metrics are wired.\<close>

definition RecordAuthAttempt :: "bool \<Rightarrow> authAttempt \<Rightarrow> sample list" where
  "RecordAuthAttempt m a = (if \<not> m then [] else [Inc ''engine_auth_attached_total'' [atEngine a, atScheme a, outcomeLabel (atOutcome a)]])"

definition RecordRejection :: "bool \<Rightarrow> SSRFRejectReason \<Rightarrow> sample list" where
  "RecordRejection m reason = (if \<not> m then [] else [Inc ''ssrf_rejected_total'' [reasonLabel reason]])"

definition RecordDNSCache :: "bool \<Rightarrow> string \<Rightarrow> sample list" where
  "RecordDNSCache m result = (if \<not> m then [] else [Inc ''ssrf_dns_cache_total'' [result]])"

definition RecordTaskLifecycle :: "bool \<Rightarrow> string \<Rightarrow> string \<Rightarrow> sample list" where
  "RecordTaskLifecycle m stage result = (if \<not> m then [] else [Inc ''task_lifecycle_total'' [stage, result]])"

definition SetQueueDepth :: "bool \<Rightarrow> string \<Rightarrow> int \<Rightarrow> sample list" where
  "SetQueueDepth m queue depth = (if \<not> m then [] else [SetGauge ''worker_queue_depth'' [queue] depth])"

definition RecordHealthProbe :: "bool \<Rightarrow> string \<Rightarrow> string \<Rightarrow> Duration \<Rightarrow> sample list" where
  "RecordHealthProbe m eng status dur =
     (if \<not> m then [] else [Inc ''health_probe_total'' [eng, status], Observe ''health_probe_duration_seconds'' [eng] dur])"

definition RecordPanic :: "bool \<Rightarrow> string \<Rightarrow> sample list" where
  "RecordPanic m path = (if \<not> m then [] else [Inc ''panics_total'' [if path = [] then ''unknown'' else path]])"

definition RecordUpstreamStatus :: "bool \<Rightarrow> string \<Rightarrow> int \<Rightarrow> sample list" where
  "RecordUpstreamStatus m eng status = (if \<not> m then [] else [Inc ''engine_upstream_status_total'' [eng, StatusClass status]])"

definition breakerStateHook :: "bool \<Rightarrow> string \<Rightarrow> string \<Rightarrow> string \<Rightarrow> sample list \<times> (string \<times> string) list" where
  "breakerStateHook m nm from_state to_state =
     ((if \<not> m then [] else [SetGauge ''breaker_state'' [nm] (StateValue to_state)]),
      [(''event'', ''breaker_state_changed''), (''engine'', nm), (''from'', from_state), (''to'', to_state)])"

section \<open>Lines at start-up\<close>

record engineLine =
  elEngine :: string
  elCompatType :: string
  elURL :: string
  elAPIKeyEnv :: string
  elKeyResolved :: bool
  elKeyLen :: nat
  elAuthHeader :: string
  elAuthScheme :: string
  elFacades :: "string list"
  elMimeTypes :: nat
  elExtensions :: nat

datatype bootLine = EngineInitialised engineLine | AuthWarning auth_warning

fun engineLines :: "(Name, EngineConfig) gomap \<Rightarrow> bootLine list" where
  "engineLines [] = []"
| "engineLines ((nm, ec) # rest) =
     (if \<not> ecEnable ec then engineLines rest
      else EngineInitialised
             \<lparr>elEngine = nm, elCompatType = ecCompatType ec, elURL = ecURL ec, elAPIKeyEnv = ecAPIKeyEnv ec,
              elKeyResolved = (ecAPIKey ec \<noteq> []), elKeyLen = length (ecAPIKey ec), elAuthHeader = ecAuthHeader ec,
              elAuthScheme = ecAuthScheme ec, elFacades = acceptedFacades (ecCompatType ec),
              elMimeTypes = length (ecMimeTypes ec), elExtensions = length (ecExtensions ec)\<rparr> # engineLines rest)"

definition logEngineBootstrap :: "Config \<Rightarrow> bootLine list" where
  "logEngineBootstrap cfg = engineLines (cfEngines cfg) @ map AuthWarning (AuthWarnings cfg)"

definition logRoutingBootstrap :: "Config \<Rightarrow> staticRegistry \<Rightarrow> nat \<Rightarrow> (string \<times> string) list" where
  "logRoutingBootstrap cfg reg overrideCount =
     [(''event'', ''routing_strategy_initialised''), (''configured_strategy'', rtStrategy (cfRouting cfg)),
      (''effective_strategy'', strategy reg), (''default_engine'', rtDefaultEngine (cfRouting cfg)),
      (''mime_extension_overrides_count'', show_nat overrideCount)]"

definition LogRejection :: "string \<Rightarrow> string \<Rightarrow> SSRFRejectReason \<Rightarrow> go_error option \<Rightarrow> (string \<times> string) list" where
  "LogRejection host raw reason err =
     [(''event'', ''ssrf_rejected''), (''reason'', reasonLabel reason), (''host'', host), (''url'', raw)]
     @ (case err of None \<Rightarrow> [] | Some e \<Rightarrow> [(''error'', err_msg e)])"

section \<open>The pick decision\<close>

record pickDecision =
  pdRequestID :: string
  pdEngine :: string
  pdEngineURL :: string
  pdFacade :: Facade
  pdCompatType :: string
  pdPickSource :: PickSource
  pdRoutingStrategy :: RoutingStrategy
  pdMIMEDeclared :: string
  pdMIMEResolved :: string
  pdMIMESource :: string
  pdFilename :: string
  pdFileExt :: string
  pdFileCount :: nat

fun pickSourceLabel :: "PickSource \<Rightarrow> string" where
  "pickSourceLabel PickSourceMIME = ''mime''"
| "pickSourceLabel PickSourceExtension = ''extension''"
| "pickSourceLabel PickSourceDefault = ''default''"

definition logEnginePickDecision :: "zlogger \<Rightarrow> string \<Rightarrow> string \<Rightarrow> pickDecision \<Rightarrow> (string \<times> string) list option" where
  "logEnginePickDecision logger traceID spanID d =
     (if zlLevel logger > ZDebug then None
      else Some [(''event'', ''engine_pick_decision''), (''request_id'', pdRequestID d), (''trace_id'', traceID), (''span_id'', spanID),
                 (''engine'', pdEngine d), (''engine_url'', pdEngineURL d), (''facade'', pdFacade d), (''compat_type'', pdCompatType d),
                 (''pick_source'', pickSourceLabel (pdPickSource d)), (''routing_strategy'', pdRoutingStrategy d),
                 (''mime_type'', pdMIMEResolved d), (''mime_declared'', pdMIMEDeclared d), (''mime_resolved'', pdMIMEResolved d),
                 (''mime_source'', pdMIMESource d), (''filename'', pdFilename d), (''file_ext'', pdFileExt d),
                 (''file_count'', show_nat (pdFileCount d))])"

section \<open>Lemmas\<close>

text \<open>Every level string is understood, and only the five names of quieter levels silence information lines.\<close>

lemma level_silences_info:
  "parseLevel s > ZInfo \<longleftrightarrow> ToLower s \<in> {''warn'', ''warning'', ''error'', ''fatal'', ''panic''}"
  by (simp add: parseLevel_def Let_def less_zlevel_def)

text \<open>The record of a pick is written exactly at the two most verbose levels.\<close>

lemma pick_logged_iff:
  "logEnginePickDecision (fst (NewLogger loadLocation cfg g)) traceID spanID d \<noteq> None \<longleftrightarrow> ToLower (lgLevel cfg) \<in> {''trace'', ''debug''}"
  by (simp add: logEnginePickDecision_def NewLogger_def parseLevel_def Let_def less_zlevel_def)

text \<open>An unknown zone, UTC and no zone all leave the clock of the logging library in place.\<close>

lemma utc_leaves_clock:
  "ToLower (TrimSpace (lgTimezone cfg)) \<in> {[], ''utc''} \<Longrightarrow> zgZone (snd (NewLogger loadLocation cfg g)) = zgZone g"
  by (auto simp: NewLogger_def resolveLocation_def applyFieldNames_def Let_def)

text \<open>The reasons of the SSRF policy have different labels, so no two of them share a time series.\<close>

lemma reason_labels_distinct: "reasonLabel a = reasonLabel b \<longleftrightarrow> a = b"
  by (cases a; cases b; simp)

text \<open>Status labels are one of six, whatever an engine answers.\<close>

lemma status_label_bounded: "StatusClass n \<in> {''1xx'', ''2xx'', ''3xx'', ''4xx'', ''5xx'', ''error''}"
  by (simp add: StatusClass_def)

text \<open>What is logged at start-up depends on the credentials only through their lengths.\<close>

definition sameShape :: "EngineConfig \<Rightarrow> EngineConfig \<Rightarrow> bool" where
  "sameShape a b \<longleftrightarrow> (\<exists>key headers. b = a\<lparr>ecAPIKey := key, ecAuthHeaders := headers\<rparr> \<and> length key = length (ecAPIKey a)
     \<and> list_all2 (\<lambda>h h'. \<exists>k. h' = h\<lparr>ahAPIKey := k\<rparr> \<and> length k = length (ahAPIKey h)) (ecAuthHeaders a) headers)"

lemma same_length_empty: "length k = length k' \<Longrightarrow> k = [] \<longleftrightarrow> k' = []"
  by auto

lemma same_headers_warnings:
  assumes "list_all2 (\<lambda>h h'. \<exists>k. h' = h\<lparr>ahAPIKey := k\<rparr> \<and> length k = length (ahAPIKey h)) hs hs'"
  shows "concat (map (\<lambda>(i, ah). if ahAPIKeyEnv ah \<noteq> [] \<and> ahAPIKey ah = [] then [EmptyMultiKeyEnv n i (ahAPIKeyEnv ah)] else []) (zip is hs))
       = concat (map (\<lambda>(i, ah). if ahAPIKeyEnv ah \<noteq> [] \<and> ahAPIKey ah = [] then [EmptyMultiKeyEnv n i (ahAPIKeyEnv ah)] else []) (zip is hs'))"
  using assms
proof (induction arbitrary: "is" rule: list_all2_induct)
  case (Cons h hs h' hs')
  then show ?case by (cases "is") (auto dest: same_length_empty)
qed simp

lemma bootstrap_engine:
  assumes "sameShape a b"
  shows "engineLines [(n, a)] = engineLines [(n, b)]" "engineWarnings (n, a) = engineWarnings (n, b)"
proof -
  from assms obtain key headers where b: "b = a\<lparr>ecAPIKey := key, ecAuthHeaders := headers\<rparr>" "length key = length (ecAPIKey a)"
    and h: "list_all2 (\<lambda>h h'. \<exists>k. h' = h\<lparr>ahAPIKey := k\<rparr> \<and> length k = length (ahAPIKey h)) (ecAuthHeaders a) headers"
    unfolding sameShape_def by blast
  have e: "key = [] \<longleftrightarrow> ecAPIKey a = []" by (rule same_length_empty[OF b(2)])
  show "engineLines [(n, a)] = engineLines [(n, b)]" using b e by simp
  show "engineWarnings (n, a) = engineWarnings (n, b)"
    using e list_all2_lengthD[OF h] same_headers_warnings[OF h] by (simp add: engineWarnings_def b(1))
qed

lemma bootstrap_hides_credentials:
  assumes "list_all2 (\<lambda>x y. fst x = fst y \<and> sameShape (snd x) (snd y)) (cfEngines c) (cfEngines c')"
  shows "logEngineBootstrap c = logEngineBootstrap c'"
proof -
  have step: "engineLines (x # xs) = engineLines [x] @ engineLines xs" for x xs by (cases x) simp
  have "engineLines es = engineLines es' \<and> concat (map engineWarnings es) = concat (map engineWarnings es')"
    if "list_all2 (\<lambda>x y. fst x = fst y \<and> sameShape (snd x) (snd y)) es es'" for es es'
    using that
  proof (induction rule: list_all2_induct)
    case (Cons x xs y ys)
    then have "engineLines [x] = engineLines [y]" "engineWarnings x = engineWarnings y"
      using bootstrap_engine[of "snd x" "snd y" "fst x"] by (metis prod.collapse)+
    with Cons step[of x xs] step[of y ys] show ?case by simp
  qed simp
  from this[OF assms] show ?thesis by (simp add: logEngineBootstrap_def AuthWarnings_def)
qed

end
