(* ===== verification/Lifecycle.thy ===== *)
theory Lifecycle
  imports App Observability
begin

text \<open>
  The life of the process: \<^verbatim>\<open>cmd/proxy/main.go\<close>, \<^verbatim>\<open>Application.Run\<close> and \<^verbatim>\<open>shutdown\<close> of \<^verbatim>\<open>internal/app/app.go\<close>, \<^verbatim>\<open>ListenAndServe\<close> of
  \<^verbatim>\<open>transport/http/server.go\<close>, and the configuration migration of \<^verbatim>\<open>scripts/migrate-config\<close>.  Goroutines are the steps of a relation:
  the server and the worker each hand at most one error to the channel the main goroutine waits on, a signal may arrive at any time,
  and the main goroutine takes whichever is there.  The network, asynq and the tracer are arguments.
\<close>

section \<open>Serving\<close>

text \<open>\<^verbatim>\<open>Serve\<close> and \<^verbatim>\<open>ServeTLS\<close> return with an error always; which one is the standard library's.\<close>

record network =
  nwListen :: "string \<Rightarrow> go_error option"
  nwServe :: go_error
  nwServeTLS :: "string \<Rightarrow> string \<Rightarrow> go_error"

definition ListenAndServe :: "network \<Rightarrow> ServerConfig \<Rightarrow> go_error" where
  "ListenAndServe nw cfg =
     (case nwListen nw (srvListen cfg) of
        Some e \<Rightarrow> wrap_error (''listen '' @ srvListen cfg @ '': '') e
      | None \<Rightarrow>
          if tlsEnabled (srvTLS cfg) then nwServeTLS nw (tlsCertFile (srvTLS cfg)) (tlsKeyFile (srvTLS cfg))
          else nwServe nw)"

section \<open>Running\<close>

datatype stopAction = StopWorker | CloseOrchestrator | StopTracing | StopServer Duration

definition shutdown :: "Config \<Rightarrow> Application \<Rightarrow> bool \<Rightarrow> go_error option \<Rightarrow> go_error option \<times> stopAction list" where
  "shutdown cfg app traced serverErr =
     (let acts = (if apOrchestrator app \<noteq> None then [StopWorker, CloseOrchestrator] else [])
                 @ (if traced then [StopTracing] else []) @ [StopServer (GracePeriod (cfServer cfg))]
      in (case serverErr of
            Some e \<Rightarrow> (Some (wrap_error ''server shutdown: '' e), acts)
          | None \<Rightarrow> (None, acts)))"

text \<open>
  \<^verbatim>\<open>Run\<close>: the error channel holds two messages, so a sender never blocks.  The worker runs when there is an orchestrator; its start
  may return without an error.
\<close>

datatype mainGoroutine = Waiting | Stopping "go_error option"

record runState =
  rnServer :: bool
  rnWorker :: bool
  rnSignal :: bool
  rnChan :: "go_error list"
  rnMain :: mainGoroutine

definition run_init :: "Application \<Rightarrow> runState" where
  "run_init app = \<lparr>rnServer = True, rnWorker = (apOrchestrator app \<noteq> None), rnSignal = False, rnChan = [], rnMain = Waiting\<rparr>"

inductive run_step :: "go_error \<Rightarrow> go_error option \<Rightarrow> runState \<Rightarrow> runState \<Rightarrow> bool" for serverErr workerErr where
  server_returns: "rnServer s \<Longrightarrow>
    run_step serverErr workerErr s (s\<lparr>rnServer := False, rnChan := rnChan s @ [wrap_error ''server: '' serverErr]\<rparr>)"
| worker_fails: "rnWorker s \<Longrightarrow> workerErr = Some e \<Longrightarrow>
    run_step serverErr workerErr s (s\<lparr>rnWorker := False, rnChan := rnChan s @ [wrap_error ''worker: '' e]\<rparr>)"
| worker_returns: "rnWorker s \<Longrightarrow> workerErr = None \<Longrightarrow> run_step serverErr workerErr s (s\<lparr>rnWorker := False\<rparr>)"
| signalled: "run_step serverErr workerErr s (s\<lparr>rnSignal := True\<rparr>)"
| take_signal: "rnMain s = Waiting \<Longrightarrow> rnSignal s \<Longrightarrow> run_step serverErr workerErr s (s\<lparr>rnMain := Stopping None\<rparr>)"
| take_error: "rnMain s = Waiting \<Longrightarrow> rnChan s = e # es \<Longrightarrow>
    run_step serverErr workerErr s (s\<lparr>rnChan := es, rnMain := Stopping (Some e)\<rparr>)"

definition app_Run :: "Config \<Rightarrow> Application \<Rightarrow> bool \<Rightarrow> go_error option \<Rightarrow> runState \<Rightarrow> (go_error option \<times> stopAction list) option" where
  "app_Run cfg app traced serverStop s =
     (case rnMain s of Waiting \<Rightarrow> None | Stopping reason \<Rightarrow> Some (shutdown cfg app traced serverStop))"

inductive run_reach :: "go_error \<Rightarrow> go_error option \<Rightarrow> Application \<Rightarrow> runState \<Rightarrow> bool" for serverErr workerErr app where
  start: "run_reach serverErr workerErr app (run_init app)"
| more: "run_reach serverErr workerErr app s \<Longrightarrow> run_step serverErr workerErr s s' \<Longrightarrow> run_reach serverErr workerErr app s'"

section \<open>main\<close>

record flags =
  fgVersion :: bool
  fgValidate :: bool

text \<open>The exit code, with what the command printed and, when it served, what was stopped.\<close>

datatype mainOutput = PrintVersion | ConfigError load_error | ConfigValid | BuildError go_error | RunError go_error | Served

definition main_run ::
  "flags \<Rightarrow> load_error + Config \<Rightarrow> (Config \<Rightarrow> Application result) \<Rightarrow> (Config \<Rightarrow> Application \<Rightarrow> go_error option \<times> stopAction list)
   \<Rightarrow> int \<times> mainOutput \<times> stopAction list" where
  "main_run fl loaded build running =
     (if fgVersion fl then (0, PrintVersion, [])
      else case loaded of
             Inl e \<Rightarrow> (2, ConfigError e, [])
           | Inr cfg \<Rightarrow>
               if fgValidate fl then (0, ConfigValid, [])
               else (case build cfg of
                       Inl e \<Rightarrow> (2, BuildError e, [])
                     | Inr app \<Rightarrow>
                         (case running cfg app of
                            (Some e, acts) \<Rightarrow> (1, RunError e, acts)
                          | (None, acts) \<Rightarrow> (0, Served, acts))))"

section \<open>Migrating a configuration\<close>

text \<open>A decoded YAML document.\<close>

datatype yaml = YStr string | YBool bool | YOther string | YMap "(string \<times> yaml) list"

record oldConfig =
  ocServer :: "yaml option"
  ocDefaultCEEEngine :: string
  ocFacadePathPrefix :: string
  ocDoclingPrefix :: string
  ocTikaPrefix :: string
  ocKreuzbergPrefix :: string
  ocDocling :: "(string, yaml) gomap option"
  ocTika :: "(string, yaml) gomap option"
  ocKreuzberg :: "(string, yaml) gomap option"
  ocSecurity :: "yaml option"
  ocRatelimitGlobal :: "yaml option"
  ocTasks :: "yaml option"
  ocObservability :: "yaml option"

definition annotateEngine :: "(string, yaml) gomap \<Rightarrow> string \<Rightarrow> string \<Rightarrow> string \<Rightarrow> (string, yaml) gomap" where
  "annotateEngine inp compatType authHeader authScheme =
     map_put ''auth_scheme'' (YStr authScheme) (map_put ''auth_header'' (YStr authHeader) (map_put ''compat_type'' (YStr compatType) inp))"

definition pickStringDefault :: "string \<Rightarrow> string \<Rightarrow> string" where
  "pickStringDefault s def = (if s = [] then def else s)"

definition keep :: "string \<Rightarrow> yaml option \<Rightarrow> (string, yaml) gomap \<Rightarrow> (string, yaml) gomap" where
  "keep key block out = (case block of None \<Rightarrow> out | Some y \<Rightarrow> map_put key y out)"

definition migrate :: "oldConfig \<Rightarrow> (string, yaml) gomap" where
  "migrate old =
     (let out0 = keep ''server'' (ocServer old) [];
          routing = [(''default_engine'', YStr (ocDefaultCEEEngine old)),
                     (''facade'', YMap [(''docling'', YMap [(''enabled'', YBool True),
                                                          (''prefix'', YStr (pickStringDefault (ocFacadePathPrefix old) ''/v1''))]),
                                        (''external'', YMap [(''enabled'', YBool False), (''path'', YStr ''/process'')])]),
                     (''passthrough'', YMap [(''enabled'', YBool True)])];
          out1 = map_put ''routing'' (YMap routing) out0;
          eng0 = (case ocDocling old of None \<Rightarrow> [] | Some e \<Rightarrow> map_put ''docling'' (YMap (annotateEngine e ''docling'' ''X-Api-Key'' ''raw'')) []);
          eng1 = (case ocTika old of None \<Rightarrow> eng0 | Some e \<Rightarrow> map_put ''tika'' (YMap (annotateEngine e ''tika'' ''X-Api-Key'' ''raw'')) eng0);
          eng2 = (case ocKreuzberg old of
                    None \<Rightarrow> eng1
                  | Some e \<Rightarrow> map_put ''kreuzberg'' (YMap (annotateEngine e ''docling'' ''Authorization'' ''bearer'')) eng1);
          out2 = map_put ''engines'' (YMap eng2) out1
      in keep ''observability'' (ocObservability old)
           (keep ''tasks'' (ocTasks old) (keep ''ratelimit_global'' (ocRatelimitGlobal old) (keep ''security'' (ocSecurity old) out2))))"

section \<open>Lemmas\<close>

inductive_cases run_stepE: "run_step serverErr workerErr s s'"

text \<open>What is on the channel, and what ended the wait, came from the server or the worker.\<close>

definition fromSubsystem :: "go_error \<Rightarrow> go_error option \<Rightarrow> go_error \<Rightarrow> bool" where
  "fromSubsystem serverErr workerErr e \<longleftrightarrow>
     e = wrap_error ''server: '' serverErr \<or> (\<exists>w. workerErr = Some w \<and> e = wrap_error ''worker: '' w)"

definition run_inv :: "go_error \<Rightarrow> go_error option \<Rightarrow> runState \<Rightarrow> bool" where
  "run_inv serverErr workerErr s \<longleftrightarrow>
     length (rnChan s) + (if rnServer s then 1 else 0) + (if rnWorker s then 1 else 0) \<le> 2
     \<and> (\<forall>e \<in> set (rnChan s). fromSubsystem serverErr workerErr e)
     \<and> (\<forall>e. rnMain s = Stopping (Some e) \<longrightarrow> fromSubsystem serverErr workerErr e)
     \<and> (rnMain s = Stopping None \<longrightarrow> rnSignal s)
     \<and> (\<not> rnServer s \<longrightarrow> rnMain s = Waiting \<longrightarrow> rnChan s \<noteq> [])"

lemma run_inv_init: "run_inv serverErr workerErr (run_init app)"
  by (simp add: run_inv_def run_init_def)

lemma run_inv_step: "run_step serverErr workerErr s s' \<Longrightarrow> run_inv serverErr workerErr s \<Longrightarrow> run_inv serverErr workerErr s'"
  by (elim run_stepE) (auto simp: run_inv_def fromSubsystem_def split: if_splits)

lemma run_reach_inv: "run_reach serverErr workerErr app s \<Longrightarrow> run_inv serverErr workerErr s"
  by (induction rule: run_reach.induct) (auto intro: run_inv_init run_inv_step)

text \<open>What is left to happen in a run: every step that changes the state uses up one of it.\<close>

definition run_left :: "runState \<Rightarrow> nat" where
  "run_left s = of_bool (rnServer s) + of_bool (rnWorker s) + of_bool (\<not> rnSignal s) + of_bool (rnMain s = Waiting)"

lemma run_step_left: "run_step serverErr workerErr s s' \<Longrightarrow> s' \<noteq> s \<Longrightarrow> run_left s' < run_left s"
  by (elim run_stepE) (auto simp: run_left_def)

lemma run_changes_wf: "wf {(s', s). run_step serverErr workerErr s s' \<and> s' \<noteq> s}"
  by (rule wf_subset[OF wf_measure[of run_left]]) (auto intro: run_step_left)

lemma run_can_stop:
  assumes "run_inv serverErr workerErr s" "rnMain s = Waiting" "rnSignal s \<or> \<not> rnServer s"
  shows "\<exists>s' reason. run_step serverErr workerErr s s' \<and> rnMain s' = Stopping reason"
proof (cases "rnSignal s")
  case True
  with assms(2) have "run_step serverErr workerErr s (s\<lparr>rnMain := Stopping None\<rparr>)" by (rule take_signal)
  then show ?thesis by (intro exI[of _ "s\<lparr>rnMain := Stopping None\<rparr>"]) simp
next
  case False
  with assms obtain e es where "rnChan s = e # es" by (auto simp: run_inv_def neq_Nil_conv)
  with assms(2) have "run_step serverErr workerErr s (s\<lparr>rnChan := es, rnMain := Stopping (Some e)\<rparr>)" by (rule take_error)
  then show ?thesis by (intro exI[of _ "s\<lparr>rnChan := es, rnMain := Stopping (Some e)\<rparr>"]) simp
qed

lemma stopping_stays: "run_step serverErr workerErr s s' \<Longrightarrow> rnMain s = Stopping reason \<Longrightarrow> rnMain s' = Stopping reason"
  by (elim run_stepE) auto

section \<open>Properties\<close>


definition demo_app :: Application where
  "demo_app = \<lparr>apRegistry = demo_registry, apRoutes = [], apOrchestrator = None, apTLS = None\<rparr>"



definition demo_network :: network where
  "demo_network = \<lparr>nwListen = (\<lambda>_. Some (plain_error ''address already in use'')), nwServe = plain_error ''closed'', nwServeTLS = (\<lambda>_ _. plain_error ''closed'')\<rparr>"


text \<open>A migrated engine keeps every key of the old one but the three that are set.\<close>

lemma annotate_keeps:
  "k \<notin> {''compat_type'', ''auth_header'', ''auth_scheme''} \<Longrightarrow> map_of (annotateEngine e ct ah sc) k = map_of e k"
  "map_of (annotateEngine e ct ah sc) ''compat_type'' = Some (YStr ct)"
  by (auto simp: annotateEngine_def)

end
