(* ===== verification/Adapter_Wire.thy ===== *)
theory Adapter_Wire
  imports Adapter_Contract
begin

text \<open>
  What the adapters put on the wire: the file name in \<^verbatim>\<open>X-Filename\<close> and in the multipart disposition, the headers of a docling
  request, and the rewriting of null content in a docling response.
\<close>

section \<open>File names\<close>

lemma hex_val_upper: "n < 16 \<Longrightarrow> hex_val (upper_nibble n) = Some n"
  by (cases "n < 10") (simp_all add: hex_val_def upper_nibble_def)

lemma percent_decodes: "fromHex (upper_nibble (byte_of c div 16)) (upper_nibble (byte_of c mod 16)) = Some c"
proof -
  have "byte_of c div 16 < 16" using byte_of_less_256[of c] by linarith
  then show ?thesis by (simp add: fromHex_def hex_val_upper)
qed

definition plusToSpace :: "char \<Rightarrow> char" where
  "plusToSpace c = (if c = CHR ''+'' then CHR '' '' else c)"

lemma percent_not_segment: "pathSegmentByte c \<Longrightarrow> c \<noteq> CHR ''%''"
  by (auto simp: pathSegmentByte_def byte_of_def)

lemma plus_is_segment: "pathSegmentByte (CHR ''+'')"
  by (simp add: pathSegmentByte_def byte_of_def)

lemma QueryUnescape_PathEscape: "QueryUnescape (PathEscape s) = Some (map plusToSpace s)"
proof (induction s)
  case (Cons c s)
  show ?case
  proof (cases "pathSegmentByte c")
    case True
    then show ?thesis using Cons.IH percent_not_segment[OF True] by (simp add: PathEscape_def plusToSpace_def)
  next
    case False
    then have "plusToSpace c = c" using plus_is_segment by (auto simp: plusToSpace_def)
    with False show ?thesis using Cons.IH by (simp add: PathEscape_def percent_decodes)
  qed
qed (simp add: PathEscape_def)

lemma PathEscape_Nil_iff [simp]: "PathEscape s = [] \<longleftrightarrow> s = []"
  by (cases s) (auto simp: PathEscape_def)

text \<open>
  C30: the file name an external backend reads from \<^verbatim>\<open>X-Filename\<close> with the proxy's own decoder: a printable name survives the trip
  except that every plus sign arrives as a space (the header is written with path escaping, which leaves a plus bare, and read as
  a query component); so it survives exactly when it has no plus sign.  A name with any other byte arrives as \<^verbatim>\<open>upload\<close>.
\<close>

theorem filename_header_round_trip:
  "decodeFilename (PathEscape (SafeFilename name)) =
     (if name \<noteq> [] \<and> list_all (\<lambda>b. 32 \<le> byte_of b \<and> byte_of b \<le> 126) name then map plusToSpace name else ''upload'')
   \<and> (decodeFilename (PathEscape (SafeFilename name)) = name \<longleftrightarrow>
        name = ''upload'' \<or> (name \<noteq> [] \<and> list_all (\<lambda>b. 32 \<le> byte_of b \<and> byte_of b \<le> 126 \<and> b \<noteq> CHR ''+'') name))"
proof -
  let ?ok = "list_all (\<lambda>b. 32 \<le> byte_of b \<and> byte_of b \<le> 126) name"
  have m: "\<not> list_ex (\<lambda>b. byte_of b < 32 \<or> byte_of b > 126) (map plusToSpace name)" if ?ok
    using that by (induction name) (auto simp: plusToSpace_def byte_of_def)
  have d: "decodeFilename (PathEscape (SafeFilename name)) = (if name \<noteq> [] \<and> ?ok then map plusToSpace name else ''upload'')"
    using m by (auto simp: decodeFilename_def SafeFilename_def SafeFilename_iff QueryUnescape_PathEscape simp del: list_ex_iff)
  have p: "map plusToSpace name = name \<longleftrightarrow> list_all (\<lambda>b. b \<noteq> CHR ''+'') name"
    by (induction name) (auto simp: plusToSpace_def)
  have s: "list_all (\<lambda>b. 32 \<le> byte_of b \<and> byte_of b \<le> 126 \<and> b \<noteq> CHR ''+'') name \<longleftrightarrow> ?ok \<and> list_all (\<lambda>b. b \<noteq> CHR ''+'') name"
    by (auto simp: list_all_iff)
  have u: "list_all (\<lambda>b. 32 \<le> byte_of b \<and> byte_of b \<le> 126) ''upload''" "map plusToSpace ''upload'' = ''upload''" by code_simp+
  show ?thesis unfolding d s using p u by (auto simp del: list.map)
qed

section \<open>The multipart disposition\<close>

lemma quote_printable:
  assumes "32 \<le> byte_of c" "byte_of c \<le> 126"
  shows "quote_byte c = escapeByte c"
proof -
  have q: "byte_of (CHR 0x22) = 34" "byte_of (CHR 0x5C) = 92" by (simp_all add: byte_of_def)
  have "byte_of c = 34 \<longleftrightarrow> c = CHR 0x22" "byte_of c = 92 \<longleftrightarrow> c = CHR 0x5C"
    using byte_of_inject[of c "CHR 0x22"] byte_of_inject[of c "CHR 0x5C"] q by simp_all
  with assms show ?thesis by (auto simp: quote_byte_def escapeByte_def Let_def)
qed

lemma go_quote_printable:
  "list_all (\<lambda>b. 32 \<le> byte_of b \<and> byte_of b \<le> 126) s \<Longrightarrow> go_quote s = CHR 0x22 # concat (map escapeByte s) @ [CHR 0x22]"
proof -
  assume "list_all (\<lambda>b. 32 \<le> byte_of b \<and> byte_of b \<le> 126) s"
  then have "map quote_byte s = map escapeByte s" by (simp add: list_all_iff quote_printable)
  then show ?thesis by (simp only: go_quote_def)
qed

lemma SafeMultipartFilename_printable:
  "list_all (\<lambda>b. 32 \<le> byte_of b \<and> byte_of b \<le> 126) (SafeMultipartFilename name)"
proof -
  have "list_all (\<lambda>b. 32 \<le> byte_of b \<and> byte_of b \<le> 126) (escapeByte c)" if "32 \<le> byte_of c \<and> byte_of c \<le> 126" for c
    using that by (auto simp: escapeByte_def byte_of_def)
  then have "list_all (\<lambda>b. 32 \<le> byte_of b \<and> byte_of b \<le> 126) (concat (map escapeByte name))" if "SafeFilename_loop name"
    using that unfolding SafeFilename_iff by (induction name) auto
  then show ?thesis by (auto simp: SafeMultipartFilename_def SafeFilename_def)
qed

lemma escape_id_iff: "concat (map escapeByte s) = s \<longleftrightarrow> CHR 0x22 \<notin> set s \<and> CHR 0x5C \<notin> set s"
proof
  have l: "length s \<le> length (concat (map escapeByte s))" for s
    by (induction s) (auto simp: escapeByte_def)
  show "concat (map escapeByte s) = s \<Longrightarrow> CHR 0x22 \<notin> set s \<and> CHR 0x5C \<notin> set s"
  proof (induction s)
    case (Cons c s)
    have "c \<noteq> CHR 0x22 \<and> c \<noteq> CHR 0x5C"
    proof (rule ccontr)
      assume "\<not> ?thesis"
      then have "length (concat (map escapeByte (c # s))) = 2 + length (concat (map escapeByte s))" by (auto simp: escapeByte_def)
      with Cons.prems l[of s] show False by simp
    qed
    with Cons show ?case by (auto simp: escapeByte_def)
  qed simp
  show "CHR 0x22 \<notin> set s \<and> CHR 0x5C \<notin> set s \<Longrightarrow> concat (map escapeByte s) = s"
    by (induction s) (auto simp: escapeByte_def)
qed

text \<open>What a receiver reads as the file name of a part with the field name \<^verbatim>\<open>files\<close>.\<close>

definition receivedFilename :: "outPart \<Rightarrow> (string \<times> string) option" where
  "receivedFilename p = (if HasPrefix (opDisposition p) (fileMark @ [CHR 0x22])
     then readQuoted (drop (length (fileMark @ [CHR 0x22])) (opDisposition p)) else None)"

text \<open>
  The file name a docling backend receives.  The quoted name always ends where the disposition ends, whatever the caller
  put into it.  But the name is escaped twice, once by \<^verbatim>\<open>SafeMultipartFilename\<close> and once by the verb \<^verbatim>\<open>%q\<close>, so what is received is
  the escaped name: it is the caller's name exactly when that is printable and has no quote and no backslash.
\<close>

theorem docling_filename_received:
  "receivedFilename (CreateFilePart ''files'' name ct data) =
     Some (if SafeMultipartFilename name = [] then ''upload'' else SafeMultipartFilename name, [])
   \<and> (receivedFilename (CreateFilePart ''files'' name ct data) = Some (name, []) \<longleftrightarrow>
        name = ''upload'' \<or> (name \<noteq> [] \<and> list_all (\<lambda>b. 32 \<le> byte_of b \<and> byte_of b \<le> 126 \<and> b \<noteq> CHR 0x22 \<and> b \<noteq> CHR 0x5C) name))"
proof -
  let ?safe = "if SafeMultipartFilename name = [] then ''upload'' else SafeMultipartFilename name"
  have u: "list_all (\<lambda>b. 32 \<le> byte_of b \<and> byte_of b \<le> 126) ''upload''" by code_simp
  have q: "go_quote ?safe = CHR 0x22 # concat (map escapeByte ?safe) @ [CHR 0x22]"
    using u SafeMultipartFilename_printable by (intro go_quote_printable) simp
  have d: "opDisposition (CreateFilePart ''files'' name ct data) = (fileMark @ [CHR 0x22]) @ concat (map escapeByte ?safe) @ [CHR 0x22]"
    using q by (simp add: CreateFilePart_def fileMark_def Let_def)
  have r: "receivedFilename (CreateFilePart ''files'' name ct data) = Some (?safe, [])"
    unfolding receivedFilename_def d using readQuoted_escape[of ?safe "[]"] by (simp only: HasPrefix_append if_True append_eq_conv_conj drop_append length_append) simp
  have ok: "SafeMultipartFilename name = (if list_all (\<lambda>b. 32 \<le> byte_of b \<and> byte_of b \<le> 126) name then concat (map escapeByte name) else [])"
    by (auto simp: SafeMultipartFilename_def SafeFilename_def SafeFilename_iff)
  have e: "concat (map escapeByte name) = [] \<longleftrightarrow> name = []" by (cases name) (auto simp: escapeByte_def)
  have s: "list_all (\<lambda>b. 32 \<le> byte_of b \<and> byte_of b \<le> 126 \<and> b \<noteq> CHR 0x22 \<and> b \<noteq> CHR 0x5C) name
      \<longleftrightarrow> list_all (\<lambda>b. 32 \<le> byte_of b \<and> byte_of b \<le> 126) name \<and> concat (map escapeByte name) = name"
    unfolding escape_id_iff by (auto simp: list_all_iff)
  have w: "?safe = name \<longleftrightarrow> name = ''upload'' \<or> (name \<noteq> [] \<and> list_all (\<lambda>b. 32 \<le> byte_of b \<and> byte_of b \<le> 126) name \<and> concat (map escapeByte name) = name)"
  proof (cases "name = ''upload''")
    case True
    have "SafeMultipartFilename ''upload'' = ''upload''" by code_simp
    with True show ?thesis by simp
  next
    case False
    then show ?thesis unfolding ok by (auto simp: e simp del: concat_eq_Nil_conv)
  qed
  show ?thesis unfolding r s using w by simp
qed

section \<open>The headers of a docling request\<close>

lemma forward_fold:
  "header_Values (fold (\<lambda>k d. if header_Get src k \<noteq> [] then header_Set d k (header_Get src k) else d) ks dst) k =
     (if CanonicalHeaderKey k \<in> set (map CanonicalHeaderKey ks) \<and> header_Get src k \<noteq> [] then [header_Get src k] else header_Values dst k)"
proof (induction ks arbitrary: dst)
  case (Cons a ks)
  have g: "CanonicalHeaderKey a = CanonicalHeaderKey k \<Longrightarrow> header_Get src a = header_Get src k"
    using go_header.values_canon[of a k src] by (simp add: header_Get_def)
  show ?case
    by (auto simp: Cons.IH go_header.values_set g)
qed simp

lemma fwd_allowlist_canonical: "map CanonicalHeaderKey fwdHeaderAllowlist = fwdHeaderAllowlist"
  by code_simp

lemma ApplyForwardHeaders_values:
  "header_Values (ApplyForwardHeaders dst src rid) k =
     (if CanonicalHeaderKey k = CanonicalHeaderKey ''X-Request-ID'' then (if rid \<noteq> [] then [rid] else [])
      else if CanonicalHeaderKey k \<in> set fwdHeaderAllowlist \<and> header_Get src k \<noteq> [] then [header_Get src k]
      else header_Values dst k)"
  unfolding ApplyForwardHeaders_def Let_def
  by (simp add: go_header.values_set go_header.values_del forward_fold fwd_allowlist_canonical
      eq_commute[of "CanonicalHeaderKey ''X-Request-ID''"] del: set_map fold_simps)


section \<open>Null content\<close>

lemma ReplaceAll_absent: "\<not> Contains s old \<Longrightarrow> old \<noteq> [] \<Longrightarrow> ReplaceAll s old new = s"
proof (induction s)
  case (Cons c s)
  then show ?case by (subst ReplaceAll.simps) simp
qed simp

lemma normalizeNullContent_absent:
  assumes "list_all (\<lambda>f. \<not> Contains raw (nullNeedle f)) nullableContentFields"
  shows "normalizeNullContent raw = raw"
proof -
  have "fold (\<lambda>f out. ReplaceAll out (nullNeedle f) (emptyRepl f)) fs raw = raw" if "list_all (\<lambda>f. \<not> Contains raw (nullNeedle f)) fs" for fs
    using that by (induction fs) (simp_all add: ReplaceAll_absent nullNeedle_def)
  with assms show ?thesis by (simp add: normalizeNullContent_def)
qed

text \<open>
  Rewriting null content is a repair of the body only.  The status and every header other than \<^verbatim>\<open>Content-Length\<close> are the
  backend's; a response that is not JSON, or names none of the five fields with a null, comes through untouched; and a
  response whose \<^verbatim>\<open>Content-Length\<close> agreed with its body still has one that does, so the framing the client sees is never
  broken by the rewrite.
\<close>

theorem null_rewrite_keeps_framing:
  assumes "maybeNormalize resp = Inr resp'"
  shows "StatusCode resp' = StatusCode resp
    \<and> (\<forall>k. CanonicalHeaderKey k \<noteq> CanonicalHeaderKey ''Content-Length'' \<longrightarrow> header_Values (respHeaders resp') k = header_Values (respHeaders resp) k)
    \<and> (\<not> isJSON (header_Get (respHeaders resp) ''Content-Type'')
       \<or> list_all (\<lambda>f. \<not> Contains (srcData (respBody resp)) (nullNeedle f)) nullableContentFields \<longrightarrow> resp' = resp)
    \<and> (header_Values (respHeaders resp) ''Content-Length'' = [show_nat (length (srcData (respBody resp)))]
       \<longrightarrow> header_Values (respHeaders resp') ''Content-Length'' = [show_nat (length (srcData (respBody resp')))])"
proof (cases "isJSON (header_Get (respHeaders resp) ''Content-Type'')")
  case False
  with assms show ?thesis by (simp add: maybeNormalize_def)
next
  case True
  let ?p = "normalizeNullContent (srcData (respBody resp))"
  from True assms have e: "srcErr (respBody resp) = None"
    and r: "resp' = resp\<lparr>respHeaders := if length ?p \<noteq> length (srcData (respBody resp)) then header_Set (respHeaders resp) ''Content-Length'' (show_nat (length ?p))
        else respHeaders resp, respBody := \<lparr>srcData = ?p, srcErr = None\<rparr>\<rparr>"
    by (auto simp: maybeNormalize_def Let_def split: option.splits)
  have same: "resp' = resp" if "list_all (\<lambda>f. \<not> Contains (srcData (respBody resp)) (nullNeedle f)) nullableContentFields"
  proof -
    have "respBody resp = \<lparr>srcData = srcData (respBody resp), srcErr = None\<rparr>" using e by simp
    then show ?thesis unfolding r normalizeNullContent_absent[OF that] by simp
  qed
  show ?thesis
    using True same by (simp add: r go_header.values_set)
qed

theorem null_rewrite_keeps_framing_witness:
  "\<exists>resp'. maybeNormalize \<lparr>StatusCode = 200, respHeaders = [(''Content-Type'', [''application/json'']), (''Content-Length'', [''19''])],
        respBody = \<lparr>srcData = ''{'' @ nullNeedle ''md_content'' @ ''}'', srcErr = None\<rparr>\<rparr> = Inr resp'
     \<and> srcData (respBody resp') = ''{'' @ emptyRepl ''md_content'' @ ''}''
     \<and> header_Values (respHeaders resp') ''Content-Length'' = [''17'']"
proof -
  let ?resp = "\<lparr>StatusCode = 200, respHeaders = [(''Content-Type'', [''application/json'']), (''Content-Length'', [''19''])],
        respBody = \<lparr>srcData = ''{'' @ nullNeedle ''md_content'' @ ''}'', srcErr = None\<rparr>\<rparr>"
  have "case maybeNormalize ?resp of Inr r \<Rightarrow> srcData (respBody r) = ''{'' @ emptyRepl ''md_content'' @ ''}'' | Inl _ \<Rightarrow> False" by code_simp
  then obtain r where r: "maybeNormalize ?resp = Inr r" "srcData (respBody r) = ''{'' @ emptyRepl ''md_content'' @ ''}''"
    by (auto split: sum.splits)
  have "header_Values (respHeaders ?resp) ''Content-Length'' = [show_nat (length (srcData (respBody ?resp)))]" by code_simp
  with null_rewrite_keeps_framing[OF r(1)]
  have "header_Values (respHeaders r) ''Content-Length'' = [show_nat (length (srcData (respBody r)))]" by blast
  also have "\<dots> = [''17'']" unfolding r(2) by code_simp
  finally show ?thesis using r by blast
qed

end
