(* ===== verification/Regexp.thy ===== *)
theory Regexp
  imports Prelude
begin

text \<open>
  The parts of the standard library behind the redaction of logged bodies: the UTF-8 decoder of \<^verbatim>\<open>unicode/utf8\<close> and the matcher of
  \<^verbatim>\<open>regexp\<close>.  A regular expression is matched as Go documents it: of the matches that begin leftmost, the one a backtracking
  search finds first.  The search is written with a continuation, and the repetition of an expression that consumes
  nothing stops.  Expressions are matched byte by byte; on valid UTF-8 this finds the matches Go finds rune by rune, since the
  classes below take either only ASCII or every byte from 0x80 on, and the two foreign letters that fold to ASCII ones are spelt out.
\<close>

section \<open>UTF-8\<close>

definition RuneError :: nat where "RuneError = 0xFFFD"

definition cont :: "char \<Rightarrow> bool" where
  "cont c = (0x80 \<le> byte_of c \<and> byte_of c \<le> 0xBF)"

text \<open>The range of the second byte, after the first: overlong forms, surrogates and runes past the last one are refused.\<close>

definition second_ok :: "nat \<Rightarrow> char \<Rightarrow> bool" where
  "second_ok b0 c =
     (let b = byte_of c in
      if b0 = 0xE0 then 0xA0 \<le> b \<and> b \<le> 0xBF
      else if b0 = 0xED then 0x80 \<le> b \<and> b \<le> 0x9F
      else if b0 = 0xF0 then 0x90 \<le> b \<and> b \<le> 0xBF
      else if b0 = 0xF4 then 0x80 \<le> b \<and> b \<le> 0x8F
      else 0x80 \<le> b \<and> b \<le> 0xBF)"

definition low6 :: "char \<Rightarrow> nat" where
  "low6 c = byte_of c mod 64"

definition DecodeRune :: "string \<Rightarrow> nat \<times> nat" where
  "DecodeRune s =
     (case s of
        [] \<Rightarrow> (RuneError, 0)
      | c0 # t \<Rightarrow>
          (let b0 = byte_of c0 in
           if b0 < 0x80 then (b0, 1)
           else if 0xC2 \<le> b0 \<and> b0 \<le> 0xDF then
             (case t of
                c1 # _ \<Rightarrow> if second_ok b0 c1 then ((b0 - 0xC0) * 64 + low6 c1, 2) else (RuneError, 1)
              | [] \<Rightarrow> (RuneError, 1))
           else if 0xE0 \<le> b0 \<and> b0 \<le> 0xEF then
             (case t of
                c1 # c2 # _ \<Rightarrow>
                  if second_ok b0 c1 \<and> cont c2 then ((b0 - 0xE0) * 4096 + low6 c1 * 64 + low6 c2, 3) else (RuneError, 1)
              | _ \<Rightarrow> (RuneError, 1))
           else if 0xF0 \<le> b0 \<and> b0 \<le> 0xF4 then
             (case t of
                c1 # c2 # c3 # _ \<Rightarrow>
                  if second_ok b0 c1 \<and> cont c2 \<and> cont c3
                  then ((b0 - 0xF0) * 262144 + low6 c1 * 4096 + low6 c2 * 64 + low6 c3, 4) else (RuneError, 1)
              | _ \<Rightarrow> (RuneError, 1))
           else (RuneError, 1)))"

lemma decode_size: "s \<noteq> [] \<Longrightarrow> DecodeRune s = (r, n) \<Longrightarrow> 1 \<le> n \<and> n \<le> length s"
  by (auto simp: DecodeRune_def Let_def split: list.splits if_splits)

definition EncodeRune :: "nat \<Rightarrow> string" where
  "EncodeRune r =
     (if r < 0x80 then [char_of r]
      else if r < 0x800 then [char_of (0xC0 + r div 64), char_of (0x80 + r mod 64)]
      else if r < 0x10000 then [char_of (0xE0 + r div 4096), char_of (0x80 + r div 64 mod 64), char_of (0x80 + r mod 64)]
      else [char_of (0xF0 + r div 262144), char_of (0x80 + r div 4096 mod 64), char_of (0x80 + r div 64 mod 64),
            char_of (0x80 + r mod 64)])"

text \<open>\<^verbatim>\<open>utf8.Valid\<close>: every step decodes, and a decoded U+FFFD is one of three bytes.\<close>

function utf8_Valid :: "string \<Rightarrow> bool" where
  "utf8_Valid s =
     (if s = [] then True
      else let (r, n) = DecodeRune s in if r = RuneError \<and> n = 1 then False else utf8_Valid (drop n s))"
  by pat_completeness auto
termination
proof (relation "measure length")
  fix s x r n
  assume a: "\<not> s = []" "x = DecodeRune s" "(r, n) = x"
  then have "1 \<le> n" using decode_size[of s r n] by simp
  then show "(drop n s, s) \<in> measure length" using a(1) by (cases s) auto
qed simp

declare utf8_Valid.simps [simp del]

text \<open>Encoding what was decoded gives the bytes back, whatever follows them.\<close>

lemma low6_less: "low6 c < 64"
  by (simp add: low6_def)

lemma cont_low6:
  assumes "cont c"
  shows "byte_of c = 128 + low6 c"
proof -
  from assms obtain k where k: "byte_of c = 128 + k" "k < 64"
    by (auto simp: cont_def nat_le_iff_add)
  then show ?thesis by (simp add: low6_def mod_if)
qed

lemma second_ok_cont: "second_ok b c \<Longrightarrow> cont c"
  by (auto simp: second_ok_def cont_def Let_def split: if_splits)

lemma char_of_eq: "n = byte_of c \<Longrightarrow> char_of n = c"
  by simp

lemma digit64: "r = q * 64 + x \<Longrightarrow> x < 64 \<Longrightarrow> r div 64 = q \<and> r mod 64 = x" for r :: nat
  by simp

lemma encode_two:
  assumes "0xC2 \<le> byte_of a" "byte_of a \<le> 0xDF" "cont b"
  shows "EncodeRune ((byte_of a - 0xC0) * 64 + low6 b) = [a, b]"
proof -
  define n where "n = byte_of a - 0xC0"
  have "byte_of a = 0xC0 + n" "2 \<le> n" "n \<le> 31" using assms by (auto simp: n_def)
  moreover have "(n * 64 + low6 b) div 64 = n" "(n * 64 + low6 b) mod 64 = low6 b" using low6_less[of b] by simp_all
  ultimately show ?thesis using cont_low6[of b] assms(3) low6_less[of b]
    by (simp add: EncodeRune_def char_of_eq flip: n_def)
qed

lemma encode_three:
  assumes "0xE0 \<le> byte_of a" "byte_of a \<le> 0xEF" "second_ok (byte_of a) b" "cont c"
  shows "EncodeRune ((byte_of a - 0xE0) * 4096 + low6 b * 64 + low6 c) = [a, b, c]"
proof -
  define n where "n = byte_of a - 0xE0"
  define r where "r = n * 4096 + low6 b * 64 + low6 c"
  have n: "byte_of a = 0xE0 + n" "n \<le> 15" using assms by (auto simp: n_def)
  note l = cont_low6[OF second_ok_cont[OF assms(3)]] low6_less[of b] cont_low6[OF assms(4)] low6_less[of c]
  have "n = 0 \<Longrightarrow> 32 \<le> low6 b" using assms(3) n(1) l(1) by (auto simp: second_ok_def)
  with n l have r: "0x800 \<le> r" "r < 0x10000" by (cases "n = 0"; simp add: r_def)+
  have "r = (n * 64 + low6 b) * 64 + low6 c" by (simp add: r_def)
  then have "r div 64 = n * 64 + low6 b" "r mod 64 = low6 c" using digit64 l(4) by blast+
  moreover have "r div 4096 = r div 64 div 64" by (simp flip: div_mult2_eq)
  ultimately have "r div 4096 = n" "r div 64 mod 64 = low6 b" "r mod 64 = low6 c" using l(2) by simp_all
  with n l r have "EncodeRune r = [a, b, c]" by (simp add: EncodeRune_def char_of_eq)
  then show ?thesis by (simp only: r_def n_def)
qed

lemma encode_four:
  assumes "0xF0 \<le> byte_of a" "byte_of a \<le> 0xF4" "second_ok (byte_of a) b" "cont c" "cont d"
  shows "EncodeRune ((byte_of a - 0xF0) * 262144 + low6 b * 4096 + low6 c * 64 + low6 d) = [a, b, c, d]"
proof -
  define n where "n = byte_of a - 0xF0"
  define r where "r = n * 262144 + low6 b * 4096 + low6 c * 64 + low6 d"
  have n: "byte_of a = 0xF0 + n" using assms by (auto simp: n_def)
  note l = cont_low6[OF second_ok_cont[OF assms(3)]] low6_less[of b] cont_low6[OF assms(4)] low6_less[of c]
    cont_low6[OF assms(5)] low6_less[of d]
  have "n = 0 \<Longrightarrow> 16 \<le> low6 b" using assms(3) n(1) l(1) by (auto simp: second_ok_def)
  with l have r: "0x10000 \<le> r" by (cases "n = 0"; simp add: r_def)
  have "r = ((n * 64 + low6 b) * 64 + low6 c) * 64 + low6 d" by (simp add: r_def)
  then have 1: "r div 64 = (n * 64 + low6 b) * 64 + low6 c" "r mod 64 = low6 d" using digit64 l(6) by blast+
  then have 2: "r div 64 div 64 = n * 64 + low6 b" "r div 64 mod 64 = low6 c" using digit64 l(4) by blast+
  moreover have "r div 4096 = r div 64 div 64" "r div 262144 = r div 64 div 64 div 64" by (simp_all flip: div_mult2_eq)
  ultimately have "r div 262144 = n" "r div 4096 mod 64 = low6 b" using l(2) by simp_all
  note digits = this 1(2) 2(2)
  from digits n l r have "EncodeRune r = [a, b, c, d]" by (simp add: EncodeRune_def char_of_eq)
  then show ?thesis by (simp only: r_def n_def)
qed

lemma decode_encode:
  assumes "s \<noteq> []" "DecodeRune s = (r, n)" "r \<noteq> RuneError"
  shows "EncodeRune r \<noteq> [] \<and> DecodeRune (EncodeRune r @ t) = (r, length (EncodeRune r))"
proof -
  from assms(1) obtain a u where s: "s = a # u" by (cases s) auto
  consider "byte_of a < 0x80" "r = byte_of a"
    | b where "0xC2 \<le> byte_of a" "byte_of a \<le> 0xDF" "second_ok (byte_of a) b" "r = (byte_of a - 0xC0) * 64 + low6 b"
    | b c where "0xE0 \<le> byte_of a" "byte_of a \<le> 0xEF" "second_ok (byte_of a) b" "cont c"
        "r = (byte_of a - 0xE0) * 4096 + low6 b * 64 + low6 c"
    | b c d where "0xF0 \<le> byte_of a" "byte_of a \<le> 0xF4" "second_ok (byte_of a) b" "cont c" "cont d"
        "r = (byte_of a - 0xF0) * 262144 + low6 b * 4096 + low6 c * 64 + low6 d"
    using assms(2,3) by (auto simp: s DecodeRune_def Let_def split: list.splits if_splits)
  then show ?thesis
  proof cases
    case 1
    then show ?thesis by (simp add: EncodeRune_def DecodeRune_def)
  next
    case (2 b)
    with encode_two[of a b] second_ok_cont[of "byte_of a" b] show ?thesis by (simp add: DecodeRune_def)
  next
    case (3 b c)
    with encode_three[of a b c] show ?thesis by (simp add: DecodeRune_def)
  next
    case (4 b c d)
    with encode_four[of a b c d] show ?thesis by (simp add: DecodeRune_def)
  qed
qed

section \<open>Expressions\<close>

datatype regex =
    Eps
  | Cls "char \<Rightarrow> bool"
  | WordBoundary
  | Conc regex regex
  | Alt regex regex
  | Star regex
  | Group nat regex

definition Opt :: "regex \<Rightarrow> regex" where "Opt r = Alt r Eps"
definition Plus :: "regex \<Rightarrow> regex" where "Plus r = Conc r (Star r)"

fun concs :: "regex list \<Rightarrow> regex" where
  "concs [] = Eps"
| "concs [r] = r"
| "concs (r # s # rs) = Conc r (concs (s # rs))"

fun alts :: "regex list \<Rightarrow> regex" where
  "alts [] = Cls (\<lambda>_. False)"
| "alts [r] = r"
| "alts (r # s # rs) = Alt r (alts (s # rs))"

text \<open>A literal under \<^verbatim>\<open>(?i)\<close>: either case of a letter, and the Kelvin sign for k and the long s for s.\<close>

definition lit :: "char \<Rightarrow> regex" where
  "lit c =
     (let ascii = Cls (\<lambda>x. lower_byte x = c); byte = (\<lambda>n. Cls (\<lambda>x. byte_of x = n)) in
      if c = CHR ''k'' then Alt ascii (concs [byte 0xE2, byte 0x84, byte 0xAA])
      else if c = CHR ''s'' then Alt ascii (concs [byte 0xC5, byte 0xBF])
      else ascii)"

definition lits :: "string \<Rightarrow> regex" where
  "lits w = concs (map lit w)"

text \<open>The class \<^verbatim>\<open>\s\<close>, and the bytes \<^verbatim>\<open>\b\<close> counts as part of a word.\<close>

definition re_space :: "char \<Rightarrow> bool" where
  "re_space c = (byte_of c \<in> {9, 10, 12, 13, 32})"

definition re_word :: "char option \<Rightarrow> bool" where
  "re_word oc =
     (case oc of
        None \<Rightarrow> False
      | Some c \<Rightarrow> let b = byte_of c in 48 \<le> b \<and> b \<le> 57 \<or> 65 \<le> b \<and> b \<le> 90 \<or> b = 95 \<or> 97 \<le> b \<and> b \<le> 122)"

section \<open>Matching\<close>

text \<open>A position in the text: the byte before it, the bytes from it on, and the groups captured so far.\<close>

type_synonym mstate = "char option \<times> string \<times> (nat \<times> string) list"

definition mrest :: "mstate \<Rightarrow> string" where
  "mrest st = fst (snd st)"

fun starLoop :: "nat \<Rightarrow> ((mstate \<Rightarrow> mstate option) \<Rightarrow> mstate \<Rightarrow> mstate option) \<Rightarrow> (mstate \<Rightarrow> mstate option) \<Rightarrow> mstate \<Rightarrow> mstate option" where
  "starLoop 0 f k st = k st"
| "starLoop (Suc n) f k st =
     (case f (\<lambda>st1. if length (mrest st1) < length (mrest st) then starLoop n f k st1 else None) st of
        Some x \<Rightarrow> Some x
      | None \<Rightarrow> k st)"

primrec rmatch :: "regex \<Rightarrow> (mstate \<Rightarrow> mstate option) \<Rightarrow> mstate \<Rightarrow> mstate option" where
  "rmatch Eps k st = k st"
| "rmatch (Cls P) k st =
     (case st of (pv, s, cs) \<Rightarrow> (case s of [] \<Rightarrow> None | c # t \<Rightarrow> if P c then k (Some c, t, cs) else None))"
| "rmatch WordBoundary k st =
     (case st of (pv, s, cs) \<Rightarrow> if re_word pv \<noteq> re_word (case s of [] \<Rightarrow> None | c # _ \<Rightarrow> Some c) then k st else None)"
| "rmatch (Conc r1 r2) k st = rmatch r1 (rmatch r2 k) st"
| "rmatch (Alt r1 r2) k st = (case rmatch r1 k st of Some x \<Rightarrow> Some x | None \<Rightarrow> rmatch r2 k st)"
| "rmatch (Star r) k st = starLoop (length (mrest st)) (rmatch r) k st"
| "rmatch (Group i r) k st =
     rmatch r (\<lambda>(pv, s, cs). k (pv, s, (i, take (length (mrest st) - length s) (mrest st)) # cs)) st"

definition matchHere :: "regex \<Rightarrow> char option \<Rightarrow> string \<Rightarrow> mstate option" where
  "matchHere re pv s = rmatch re Some (pv, s, [])"

text \<open>\<^verbatim>\<open>FindStringSubmatch\<close>: the groups of the leftmost match.\<close>

fun findFrom :: "regex \<Rightarrow> char option \<Rightarrow> string \<Rightarrow> (nat \<times> string) list option" where
  "findFrom re pv [] = map_option (\<lambda>st. snd (snd st)) (matchHere re pv [])"
| "findFrom re pv (c # s) =
     (case matchHere re pv (c # s) of
        Some st \<Rightarrow> Some (snd (snd st))
      | None \<Rightarrow> findFrom re (Some c) s)"

definition FindStringSubmatch :: "regex \<Rightarrow> string \<Rightarrow> (nat \<times> string) list option" where
  "FindStringSubmatch re s = findFrom re None s"

text \<open>\<^verbatim>\<open>ReplaceAllStringFunc\<close> of an expression that does not match the empty string.\<close>

function replaceFrom :: "regex \<Rightarrow> (string \<Rightarrow> string) \<Rightarrow> char option \<Rightarrow> string \<Rightarrow> string" where
  "replaceFrom re f pv [] = []"
| "replaceFrom re f pv (c # s) =
     (case matchHere re pv (c # s) of
        Some (pv1, t, cs) \<Rightarrow>
          if length t < length (c # s) then f (take (length (c # s) - length t) (c # s)) @ replaceFrom re f pv1 t
          else c # replaceFrom re f (Some c) s
      | None \<Rightarrow> c # replaceFrom re f (Some c) s)"
  by pat_completeness auto
termination
  by (relation "measure (\<lambda>(re, f, pv, s). length s)") auto

definition ReplaceAllStringFunc :: "regex \<Rightarrow> string \<Rightarrow> (string \<Rightarrow> string) \<Rightarrow> string" where
  "ReplaceAllStringFunc re s f = replaceFrom re f None s"

section \<open>What a match tells\<close>

text \<open>The strings an expression stands for, boundaries left aside.\<close>

primrec lang :: "regex \<Rightarrow> string set" where
  "lang Eps = {[]}"
| "lang (Cls P) = {[c] |c. P c}"
| "lang WordBoundary = {[]}"
| "lang (Conc r1 r2) = {u @ w |u w. u \<in> lang r1 \<and> w \<in> lang r2}"
| "lang (Alt r1 r2) = lang r1 \<union> lang r2"
| "lang (Star r) = {concat us |us. set us \<subseteq> lang r}"
| "lang (Group i r) = lang r"

lemma starLoop_sound:
  assumes f: "\<And>k pv s cs x. f k (pv, s, cs) = Some x \<Longrightarrow> \<exists>u w pv' cs'. s = u @ w \<and> u \<in> L \<and> k (pv', w, cs') = Some x"
  shows "starLoop n f k (pv, s, cs) = Some x \<Longrightarrow>
    \<exists>us w pv' cs'. s = concat us @ w \<and> set us \<subseteq> L \<and> k (pv', w, cs') = Some x"
proof (induction n arbitrary: pv s cs)
  case 0
  then show ?case by (intro exI[of _ "[]"] exI[of _ s]) auto
next
  case (Suc n)
  show ?case
  proof (cases "k (pv, s, cs) = Some x")
    case True
    then show ?thesis by (intro exI[of _ "[]"] exI[of _ s]) auto
  next
    case False
    with Suc.prems have "f (\<lambda>st1. if length (mrest st1) < length (mrest (pv, s, cs)) then starLoop n f k st1 else None) (pv, s, cs) = Some x"
      by (simp split: option.splits)
    from f[OF this] obtain u w pv' cs' where u: "s = u @ w" "u \<in> L" and "starLoop n f k (pv', w, cs') = Some x"
      by (auto split: if_splits)
    from Suc.IH[OF this(3)] obtain us v pv2 cs2 where "w = concat us @ v" "set us \<subseteq> L" "k (pv2, v, cs2) = Some x" by blast
    with u show ?thesis by (intro exI[of _ "u # us"]) auto
  qed
qed

lemma rmatch_sound:
  "rmatch r k (pv, s, cs) = Some x \<Longrightarrow> \<exists>u w pv' cs'. s = u @ w \<and> u \<in> lang r \<and> k (pv', w, cs') = Some x"
proof (induction r arbitrary: k pv s cs x)
  case (Conc r1 r2)
  from Conc.IH(1)[OF Conc.prems[unfolded rmatch.simps]] obtain u w pv' cs' where
    "s = u @ w" "u \<in> lang r1" "rmatch r2 k (pv', w, cs') = Some x" by blast
  moreover from Conc.IH(2)[OF this(3)] obtain u2 w2 pv2 cs2 where
    "w = u2 @ w2" "u2 \<in> lang r2" "k (pv2, w2, cs2) = Some x" by blast
  ultimately show ?case by (intro exI[of _ "u @ u2"] exI[of _ w2]) auto
next
  case (Alt r1 r2)
  from Alt.prems have "rmatch r1 k (pv, s, cs) = Some x \<or> rmatch r2 k (pv, s, cs) = Some x" by (simp split: option.splits)
  with Alt.IH show ?case by (metis UnI1 UnI2 lang.simps(5))
next
  case (Star r)
  have "\<exists>us w pv' cs'. s = concat us @ w \<and> set us \<subseteq> lang r \<and> k (pv', w, cs') = Some x"
    using Star.prems[unfolded rmatch.simps] by (rule starLoop_sound[of "rmatch r" "lang r", rotated]) (rule Star.IH)
  then obtain us w pv' cs' where "s = concat us @ w" "set us \<subseteq> lang r" "k (pv', w, cs') = Some x" by blast
  then show ?case by (intro exI[of _ "concat us"] exI[of _ w]) auto
next
  case (Group i r)
  from Group.IH[OF Group.prems[unfolded rmatch.simps]] show ?case by (auto split: prod.splits)
next
  case (Cls P)
  then obtain c t where "s = c # t" "P c" "k (Some c, t, cs) = Some x" by (auto split: list.splits if_splits)
  then show ?case by (intro exI[of _ "[c]"] exI[of _ t]) auto
qed (auto split: if_splits)

text \<open>The greedy repetition of a class, when what follows succeeds behind it.\<close>

definition lastByte :: "char option \<Rightarrow> string \<Rightarrow> char option" where
  "lastByte pv u = (if u = [] then pv else Some (last u))"

lemma star_class_greedy:
  assumes "list_all P u" "w = [] \<or> \<not> P (hd w)" "k (lastByte pv u, w, cs) = Some x"
  shows "rmatch (Star (Cls P)) k (pv, u @ w, cs) = Some x"
proof -
  define f where "f = rmatch (Cls P)"
  have f: "f k (pv, s, cs) = (case s of [] \<Rightarrow> None | c # t \<Rightarrow> if P c then k (Some c, t, cs) else None)" for k pv s cs
    by (simp add: f_def)
  have "starLoop n f k (pv, u @ w, cs) = Some x" if "length u \<le> n" for n
    using that assms
  proof (induction u arbitrary: n pv)
    case Nil
    then show ?case by (cases n) (auto simp: lastByte_def f split: list.splits)
  next
    case (Cons c u)
    then obtain m where n: "n = Suc m" "length u \<le> m" by (cases n) auto
    have "starLoop m f k (Some c, u @ w, cs) = Some x"
      using Cons.IH[OF n(2), of "Some c"] Cons.prems by (cases "u = []") (auto simp: lastByte_def)
    with Cons.prems show ?case by (simp add: n mrest_def f)
  qed
  then show ?thesis by (simp add: mrest_def f_def)
qed

lemma star_class_lang: "u \<in> lang (Star (Cls P)) \<longleftrightarrow> list_all P u"
proof
  assume "u \<in> lang (Star (Cls P))"
  then obtain us where "u = concat us" "set us \<subseteq> {[c] |c. P c}" by auto
  then show "list_all P u" by (auto simp: list_all_iff)
next
  assume "list_all P u"
  then show "u \<in> lang (Star (Cls P))"
    by (simp, intro exI[of _ "map (\<lambda>c. [c]) u"]) (auto simp: list_all_iff)
qed

text \<open>Literal words: a string of one word either is matched whole or, where the words differ, not at all.\<close>

definition wordByte :: "char \<Rightarrow> bool" where
  "wordByte c = (97 \<le> byte_of c \<and> byte_of c \<le> 122)"

lemma lower_ascii: "lower_byte x = c \<Longrightarrow> wordByte c \<Longrightarrow> byte_of x < 128"
  by (auto simp: lower_byte_def wordByte_def split: if_splits)

lemma lower_high: "128 \<le> byte_of x \<Longrightarrow> wordByte c \<Longrightarrow> lower_byte x \<noteq> c"
  using lower_ascii by fastforce

lemma lang_lit:
  "a \<in> lang (lit c) \<Longrightarrow> (\<exists>x. a = [x] \<and> lower_byte x = c)
     \<or> (\<exists>x y z. a = [x, y, z] \<and> byte_of x = 0xE2 \<and> byte_of y = 0x84 \<and> byte_of z = 0xAA \<and> c = CHR ''k'')
     \<or> (\<exists>x y. a = [x, y] \<and> byte_of x = 0xC5 \<and> byte_of y = 0xBF \<and> c = CHR ''s'')"
  by (auto simp: lit_def Let_def split: if_splits)

lemma rmatch_lit:
  assumes "a \<in> lang (lit c)" "wordByte c" "wordByte d"
  shows "rmatch (lit d) k (pv, a @ s, cs) = (if c = d then k (lastByte pv a, s, cs) else None)"
  using lang_lit[OF assms(1)]
proof (elim disjE exE conjE)
  fix x assume "a = [x]" "lower_byte x = c"
  then show ?thesis using lower_ascii[of x c] assms(2) by (simp add: lit_def Let_def lastByte_def split: option.split)
next
  fix x y z assume "a = [x, y, z]" "byte_of x = 0xE2" "byte_of y = 0x84" "byte_of z = 0xAA" "c = CHR ''k''"
  then show ?thesis using lower_high[of x d] assms(3) by (auto simp: lit_def Let_def lastByte_def)
next
  fix x y assume "a = [x, y]" "byte_of x = 0xC5" "byte_of y = 0xBF" "c = CHR ''s''"
  then show ?thesis using lower_high[of x d] assms(3) by (auto simp: lit_def Let_def lastByte_def)
qed

lemma lits_Cons:
  "lang (lits (c # w)) = {a @ b |a b. a \<in> lang (lit c) \<and> b \<in> lang (lits w)}"
  "rmatch (lits (c # w)) k st = rmatch (lit c) (rmatch (lits w) k) st"
proof -
  have eps: "rmatch Eps k = k" by (rule ext) simp
  show "lang (lits (c # w)) = {a @ b |a b. a \<in> lang (lit c) \<and> b \<in> lang (lits w)}"
    by (cases w) (simp_all add: lits_def)
  show "rmatch (lits (c # w)) k st = rmatch (lit c) (rmatch (lits w) k) st"
    by (cases w) (simp_all add: lits_def eps)
qed

lemma lastByte_append: "lastByte (lastByte pv u) w = lastByte pv (u @ w)"
  by (simp add: lastByte_def)

lemma rmatch_lits:
  assumes "u \<in> lang (lits w)" "list_all wordByte w"
  shows "rmatch (lits w) k (pv, u @ s, cs) = k (lastByte pv u, s, cs)"
  using assms
proof (induction w arbitrary: u pv)
  case Nil
  then show ?case by (simp add: lits_def lastByte_def)
next
  case (Cons c w)
  then obtain a b where u: "u = a @ b" "a \<in> lang (lit c)" "b \<in> lang (lits w)" by (auto simp: lits_Cons)
  with Cons rmatch_lit[OF u(2)] show ?case by (simp add: lits_Cons lastByte_append)
qed

lemma rmatch_lits_differ:
  assumes "u \<in> lang (lits (a @ [c]))" "c \<noteq> d" "list_all wordByte (a @ [c, d])"
  shows "rmatch (lits (a @ d # w)) k (pv, u @ s, cs) = None"
  using assms
proof (induction a arbitrary: u pv)
  case Nil
  then show ?case by (simp add: lits_Cons rmatch_lit) (simp add: lits_def lits_Cons rmatch_lit)
next
  case (Cons y a)
  then obtain v b where u: "u = v @ b" "v \<in> lang (lit y)" "b \<in> lang (lits (a @ [c]))" by (auto simp: lits_Cons)
  with Cons rmatch_lit[OF u(2)] show ?case by (simp add: lits_Cons)
qed

lemma lits_append: "u \<in> lang (lits (a @ b)) \<Longrightarrow> \<exists>v w. u = v @ w \<and> v \<in> lang (lits a) \<and> w \<in> lang (lits b)"
proof (induction a arbitrary: u)
  case Nil
  then show ?case by (simp add: lits_def)
next
  case (Cons c a)
  then obtain x y where u: "u = x @ y" "x \<in> lang (lit c)" "y \<in> lang (lits (a @ b))" by (auto simp: lits_Cons)
  from Cons.IH[OF u(3)] obtain v w where "y = v @ w" "v \<in> lang (lits a)" "w \<in> lang (lits b)" by blast
  with u show ?case by (intro exI[of _ "x @ v"] exI[of _ w]) (auto simp: lits_Cons)
qed

lemma lits_spelling: "map lower_byte u = w \<Longrightarrow> u \<in> lang (lits w)"
proof (induction w arbitrary: u)
  case Nil
  then show ?case by (simp add: lits_def)
next
  case (Cons c w)
  then obtain x t where u: "u = x # t" "lower_byte x = c" "map lower_byte t = w" by auto
  then have "[x] \<in> lang (lit c)" by (simp add: lit_def Let_def)
  with u(1) Cons.IH[OF u(3)] have "u = [x] @ t \<and> [x] \<in> lang (lit c) \<and> t \<in> lang (lits w)" by simp
  then show ?case unfolding lits_Cons by blast
qed

lemma replace_copies:
  assumes "\<And>pv c s. c \<in> set u \<Longrightarrow> matchHere re pv (c # s) = None"
  shows "replaceFrom re f pv (u @ w) = u @ replaceFrom re f (lastByte pv u) w"
  using assms by (induction u arbitrary: pv) (auto simp: lastByte_def)

end
