(* ===== verification/Upstream_Log.thy ===== *)
theory Upstream_Log
  imports Regexp Convert
begin

text \<open>
  \<^verbatim>\<open>handlers/upstream_log.go\<close>: the line logged for an engine answer with an error status, and the redaction of credentials in the
  body snippet it shows.  The three expressions are those of the source, matched by the engine of \<^verbatim>\<open>Regexp\<close>.
\<close>

section \<open>Valid UTF-8\<close>

function runesOf :: "string \<Rightarrow> nat list" where
  "runesOf s =
     (if s = [] then []
      else let (r, n) = DecodeRune s in (if r \<noteq> RuneError then [r] else []) @ runesOf (drop n s))"
  by pat_completeness auto
termination
proof (relation "measure length")
  fix s x r n
  assume a: "\<not> s = []" "x = DecodeRune s" "(r, n) = x"
  then have "1 \<le> n" using decode_size[of s r n] by simp
  then show "(drop n s, s) \<in> measure length" using a(1) by (cases s) auto
qed simp

declare runesOf.simps [simp del]

definition utf8String :: "string \<Rightarrow> string" where
  "utf8String b = (if utf8_Valid b then b else concat (map EncodeRune (runesOf b)))"

text \<open>The logged text is valid UTF-8: what does not decode is left out.\<close>

lemma runes_valid: "utf8_Valid (concat (map EncodeRune (runesOf s)))"
proof (induction s rule: runesOf.induct)
  case (1 s)
  show ?case
  proof (cases "s = []")
    case False
    obtain r n where d: "DecodeRune s = (r, n)" by fastforce
    have IH: "utf8_Valid (concat (map EncodeRune (runesOf (drop n s))))" using 1[OF False d[symmetric]] by simp
    have runes: "runesOf s = (if r \<noteq> RuneError then [r] else []) @ runesOf (drop n s)"
      using False by (subst runesOf.simps) (simp add: d)
    show ?thesis
    proof (cases "r = RuneError")
      case False
      with \<open>s \<noteq> []\<close> d have "EncodeRune r \<noteq> []" "\<And>t. DecodeRune (EncodeRune r @ t) = (r, length (EncodeRune r))"
        using decode_encode[of s r n] by simp_all
      with IH False runes show ?thesis by (simp add: utf8_Valid.simps[of "EncodeRune r @ _"])
    qed (simp add: runes IH)
  qed (simp add: runesOf.simps utf8_Valid.simps)
qed

lemma utf8String_valid: "utf8_Valid (utf8String b)"
  by (simp add: utf8String_def runes_valid)

section \<open>Redaction\<close>

definition isQuote :: "char \<Rightarrow> bool" where "isQuote c = (c = CHR 0x22)"

text \<open>\<^verbatim>\<open>[^\s"',;}]\<close>, the bytes of a bare value.\<close>

definition bareByte :: "char \<Rightarrow> bool" where
  "bareByte c = (\<not> re_space c \<and> byte_of c \<notin> {0x22, 0x27, 0x2C, 0x3B, 0x7D})"

definition apiKeyRE :: regex where
  "apiKeyRE = concs [lits ''api'', Opt (Cls (\<lambda>c. c = CHR ''_'' \<or> c = CHR ''-'')), lits ''key'']"

definition spacesRE :: regex where "spacesRE = Star (Cls re_space)"

definition keywordRE :: regex where
  "keywordRE = alts [lits ''authorization'', apiKeyRE, lits ''bearer'', lits ''token'', lits ''password'', lits ''secret'']"

definition jsonStringKVRE :: regex where
  "jsonStringKVRE =
     concs [Cls isQuote, Group 1 keywordRE, Cls isQuote, spacesRE, Cls (\<lambda>c. c = CHR '':''), spacesRE, Cls isQuote,
            Star (Cls (\<lambda>c. \<not> isQuote c)), Cls isQuote]"

definition bearerTokenRE :: regex where
  "bearerTokenRE =
     Group 1 (Alt (concs [lits ''authorization'', spacesRE, Cls (\<lambda>c. c = CHR '':''), spacesRE,
                          Plus (Cls (\<lambda>c. byte_of c \<notin> {0x0D, 0x0A, 0x22}))])
                  (concs [WordBoundary, lits ''bearer'', Plus (Cls re_space), Plus (Cls bareByte),
                          Star (Conc (Cls (\<lambda>c. c = CHR ''.'')) (Plus (Cls bareByte)))]))"

definition genericKVRE :: regex where
  "genericKVRE =
     concs [Group 1 (alts [apiKeyRE, lits ''token'', lits ''password'', lits ''secret'']), spacesRE,
            Cls (\<lambda>c. c = CHR '':'' \<or> c = CHR ''=''), spacesRE, Opt (Cls isQuote), Group 2 (Plus (Cls bareByte)), Opt (Cls isQuote)]"

definition redacted :: string where "redacted = ''***REDACTED***''"

definition redactJSON :: "string \<Rightarrow> string" where
  "redactJSON m =
     (case FindStringSubmatch jsonStringKVRE m of
        None \<Rightarrow> m
      | Some _ \<Rightarrow>
          (case IndexByte m (CHR '':'') of
             None \<Rightarrow> m
           | Some colon \<Rightarrow> take (colon + 1) m @ [CHR 0x22] @ redacted @ [CHR 0x22]))"

text \<open>\<^verbatim>\<open>strings.IndexAny(match, " \t")\<close>.\<close>

fun indexBlank :: "string \<Rightarrow> nat option" where
  "indexBlank [] = None"
| "indexBlank (c # s) = (if byte_of c = 32 \<or> byte_of c = 9 then Some 0 else map_option Suc (indexBlank s))"

definition redactBearer :: "string \<Rightarrow> string" where
  "redactBearer m =
     (let bearer = (case indexBlank m of Some space \<Rightarrow> take (space + 1) m @ redacted | None \<Rightarrow> redacted) in
      if HasPrefix (ToLower m) ''authorization'' then
        (case IndexByte m (CHR '':'') of Some colon \<Rightarrow> take (colon + 1) m @ '' '' @ redacted | None \<Rightarrow> bearer)
      else bearer)"

fun strings_Index :: "string \<Rightarrow> string \<Rightarrow> nat option" where
  "strings_Index [] sub = (if sub = [] then Some 0 else None)"
| "strings_Index (c # s) sub = (if HasPrefix (c # s) sub then Some 0 else map_option Suc (strings_Index s sub))"

definition redactKV :: "string \<Rightarrow> string" where
  "redactKV m =
     (case FindStringSubmatch genericKVRE m of
        None \<Rightarrow> m
      | Some groups \<Rightarrow>
          (case strings_Index m (case map_of groups 2 of None \<Rightarrow> [] | Some v \<Rightarrow> v) of
             None \<Rightarrow> m
           | Some idx \<Rightarrow> take idx m @ redacted))"

definition redactCredentialFragments :: "string \<Rightarrow> string" where
  "redactCredentialFragments s0 =
     (let s1 = ReplaceAllStringFunc jsonStringKVRE s0 redactJSON;
          s2 = ReplaceAllStringFunc bearerTokenRE s1 redactBearer
      in ReplaceAllStringFunc genericKVRE s2 redactKV)"

definition sanitizeForLog :: "string \<Rightarrow> string" where
  "sanitizeForLog b = redactCredentialFragments (utf8String b)"

section \<open>The log line\<close>

record upstreamLine =
  ulnLevel :: logLevel
  ulnRequestID :: string
  ulnEngine :: string
  ulnEngineURL :: string
  ulnFilename :: string
  ulnMimeType :: string
  ulnStatus :: int
  ulnMs :: int
  ulnSnippet :: string

definition upstreamStatusLine ::
  "UpstreamLogConfig \<Rightarrow> ConvertResponse \<Rightarrow> string \<Rightarrow> string \<Rightarrow> string \<Rightarrow> string \<Rightarrow> string \<Rightarrow> int \<Rightarrow> upstreamLine option" where
  "upstreamStatusLine cfg r engName engURL requestID filename mime ms =
     (if \<not> ulEnabled cfg \<or> StatusCode r < 400 then None
      else
        (let level = (if StatusCode r < 500 then ulLevel4xx cfg else ulLevel5xx cfg)
         in Some \<lparr>ulnLevel = eventForLevel level (StatusCode r), ulnRequestID = requestID, ulnEngine = engName, ulnEngineURL = engURL,
                  ulnFilename = filename, ulnMimeType = mime, ulnStatus = StatusCode r, ulnMs = ms,
                  ulnSnippet = (if ulBodySnippetBytes cfg > 0 then sanitizeForLog (bodySnippet cfg r) else [])\<rparr>))"

section \<open>Matching a quoted pair\<close>

definition jsonKeywords :: "string list" where
  "jsonKeywords = [''authorization'', ''api_key'', ''api-key'', ''apikey'', ''bearer'', ''token'', ''password'', ''secret'']"

lemma lower_letters: "wordByte c" if "c \<in> set ''abcdefghijklmnopqrstuvwxyz''"
  using that by (auto simp: wordByte_def byte_of_def)

lemma rmatch_apiKey:
  assumes "u \<in> lang apiKeyRE" "k (lastByte pv u, s, cs) = Some x"
  shows "rmatch apiKeyRE k (pv, u @ s, cs) = Some x"
proof -
  from assms(1) obtain u1 u2 u3 where u: "u = u1 @ u2 @ u3" and l: "u1 \<in> lang (lits ''api'')" "u3 \<in> lang (lits ''key'')"
    and m: "u2 = [] \<or> (\<exists>y. u2 = [y] \<and> (y = CHR ''_'' \<or> y = CHR ''-''))"
    by (auto simp: apiKeyRE_def Opt_def)
  have key: "rmatch (lits ''key'') k (p, u3 @ s, cs) = k (lastByte p u3, s, cs)" for p
    using rmatch_lits[OF l(2)] by (simp add: lower_letters)
  have "rmatch (Opt (Cls (\<lambda>c. c = CHR ''_'' \<or> c = CHR ''-''))) (rmatch (lits ''key'') k) (lastByte pv u1, u2 @ u3 @ s, cs) = Some x"
    using m
  proof (elim disjE)
    assume e: "u2 = []"
    from l(2) obtain a b where ab: "u3 = a @ b" "a \<in> lang (lit (CHR ''k''))" by (auto simp: lits_Cons)
    from lang_lit[OF ab(2)] obtain y t where y: "a = y # t" "lower_byte y = CHR ''k'' \<or> byte_of y = 0xE2" by auto
    have "y \<noteq> CHR ''_''" "y \<noteq> CHR ''-''" using y(2) by (auto simp: lower_byte_def byte_of_def)
    then show ?thesis using key[of "lastByte pv u1"] assms(2) e
      by (simp add: Opt_def ab(1) y(1)) (simp add: ab(1) y(1) u lastByte_append)
  next
    assume "\<exists>y. u2 = [y] \<and> (y = CHR ''_'' \<or> y = CHR ''-'')"
    then obtain y where y: "u2 = [y]" "y = CHR ''_'' \<or> y = CHR ''-''" by blast
    then show ?thesis using key[of "Some y"] assms(2) by (auto simp: Opt_def u lastByte_def)
  qed
  then show ?thesis
    using rmatch_lits[OF l(1)] by (simp add: apiKeyRE_def u lower_letters)
qed

lemma keyword_cases:
  "u \<in> lang keywordRE \<longleftrightarrow> u \<in> lang (lits ''authorization'') \<or> u \<in> lang apiKeyRE \<or> u \<in> lang (lits ''bearer'')
     \<or> u \<in> lang (lits ''token'') \<or> u \<in> lang (lits ''password'') \<or> u \<in> lang (lits ''secret'')"
  by (simp add: keywordRE_def)

text \<open>A word that begins otherwise is not matched.\<close>

lemma rmatch_first_differs:
  assumes "u \<in> lang (lits (c # v))" "c \<noteq> d" "wordByte c" "wordByte d"
  shows "rmatch (lits (d # w)) k (pv, u @ s, cs) = None"
proof -
  from lits_append[of u "[c]" v] assms(1) obtain a b where "u = a @ b" "a \<in> lang (lits [c])" by auto
  with rmatch_lits_differ[of a "[]" c d w k pv "b @ s" cs] assms(2-) show ?thesis by simp
qed

lemma api_not_authorization:
  assumes "u \<in> lang apiKeyRE"
  shows "rmatch (lits ''authorization'') k (pv, u @ s, cs) = None"
proof -
  from assms obtain v w where "u = v @ w" "v \<in> lang (lits ''api'')" by (auto simp: apiKeyRE_def)
  moreover then obtain a b where "v = a @ b" "a \<in> lang (lits ''ap'')" using lits_append[of v "''ap''" "''i''"] by auto
  ultimately show ?thesis
    using rmatch_lits_differ[of a "''a''" "CHR ''p''" "CHR ''u''" "''thorization''" k pv "b @ w @ s" cs] by (simp add: lower_letters)
qed

lemma rmatch_keyword:
  assumes "u \<in> lang keywordRE" "k (lastByte pv u, s, cs) = Some x"
  shows "rmatch keywordRE k (pv, u @ s, cs) = Some x"
  using assms(1) unfolding keyword_cases
proof (elim disjE)
  assume 1: "u \<in> lang (lits ''authorization'')"
  from rmatch_lits[OF 1] assms(2) show ?thesis by (simp add: keywordRE_def lower_letters)
next
  assume "u \<in> lang apiKeyRE"
  then show ?thesis using rmatch_apiKey[of u k] assms(2) by (simp add: keywordRE_def api_not_authorization)
next
  assume 1: "u \<in> lang (lits ''bearer'')"
  note n = rmatch_first_differs[OF 1]
  from rmatch_lits[OF 1] assms(2) show ?thesis by (simp add: keywordRE_def apiKeyRE_def n lower_letters)
next
  assume 1: "u \<in> lang (lits ''token'')"
  note n = rmatch_first_differs[OF 1]
  from rmatch_lits[OF 1] assms(2) show ?thesis by (simp add: keywordRE_def apiKeyRE_def n lower_letters)
next
  assume 1: "u \<in> lang (lits ''password'')"
  note n = rmatch_first_differs[OF 1]
  from rmatch_lits[OF 1] assms(2) show ?thesis by (simp add: keywordRE_def apiKeyRE_def n lower_letters)
next
  assume 1: "u \<in> lang (lits ''secret'')"
  note n = rmatch_first_differs[OF 1]
  from rmatch_lits[OF 1] assms(2) show ?thesis by (simp add: keywordRE_def apiKeyRE_def n lower_letters)
qed

text \<open>A quoted pair: a keyword, a colon between spaces, a value.\<close>

definition pair :: "string \<Rightarrow> string \<Rightarrow> string \<Rightarrow> string \<Rightarrow> string" where
  "pair key w1 w2 val = CHR 0x22 # key @ CHR 0x22 # w1 @ CHR '':'' # w2 @ CHR 0x22 # val @ [CHR 0x22]"

definition isPair :: "string \<Rightarrow> string \<Rightarrow> string \<Rightarrow> string \<Rightarrow> bool" where
  "isPair key w1 w2 val \<longleftrightarrow> key \<in> lang keywordRE \<and> list_all re_space w1 \<and> list_all re_space w2 \<and> CHR 0x22 \<notin> set val"

lemma json_match:
  assumes "isPair key w1 w2 val"
  shows "matchHere jsonStringKVRE pv (pair key w1 w2 val @ q) = Some (Some (CHR 0x22), q, [(1, key)])"
proof -
  let ?Q = "Cls isQuote" and ?r = "\<lambda>cs. Some (Some (CHR 0x22), q, cs)"
  define k2 where "k2 = rmatch (Star (Cls (\<lambda>c. \<not> isQuote c))) (rmatch ?Q Some)"
  define k4 where "k4 = rmatch spacesRE (rmatch ?Q k2)"
  define k6 where "k6 = rmatch spacesRE (rmatch (Cls (\<lambda>c. c = CHR '':'')) k4)"
  have conc: "rmatch (Conc a b) k = rmatch a (rmatch b k)" for a b k by (rule ext) simp
  have sp: "\<not> re_space (CHR '':'')" "\<not> re_space (CHR 0x22)" by (simp_all add: re_space_def byte_of_def)
  have q: "isQuote (CHR 0x22)" by (simp add: isQuote_def)
  have nq: "list_all (\<lambda>c. \<not> isQuote c) val" using assms by (auto simp: isPair_def isQuote_def list_all_iff)
  have k2: "k2 (p, val @ CHR 0x22 # q, cs) = ?r cs" for p cs
    unfolding k2_def by (rule star_class_greedy[OF nq]) (simp_all add: q)
  have k4: "k4 (p, w2 @ CHR 0x22 # val @ CHR 0x22 # q, cs) = ?r cs" for p cs
    unfolding k4_def spacesRE_def using assms by (intro star_class_greedy) (simp_all add: isPair_def sp q k2)
  have k6: "k6 (p, w1 @ CHR '':'' # w2 @ CHR 0x22 # val @ CHR 0x22 # q, cs) = ?r cs" for p cs
    unfolding k6_def spacesRE_def using assms by (intro star_class_greedy) (simp_all add: isPair_def sp k4)
  have "matchHere jsonStringKVRE pv (CHR 0x22 # t) = rmatch (Group 1 keywordRE) (rmatch ?Q k6) (Some (CHR 0x22), t, [])" for t
    unfolding matchHere_def jsonStringKVRE_def k6_def k4_def k2_def concs.simps conc by (simp add: q)
  then show ?thesis
    using rmatch_keyword[of key] assms by (simp add: pair_def isPair_def mrest_def q k6)
qed

text \<open>A match at a quote is such a pair.\<close>

lemma json_match_sound:
  assumes "matchHere jsonStringKVRE pv (c # t) = Some x"
  shows "\<exists>key w1 w2 val q. c # t = pair key w1 w2 val @ q \<and> isPair key w1 w2 val"
proof -
  from rmatch_sound[OF assms[unfolded matchHere_def]] obtain u w where u: "c # t = u @ w" "u \<in> lang jsonStringKVRE" by blast
  from u(2) obtain key w1 w2 val where "u = pair key w1 w2 val" "key \<in> lang keywordRE"
    "w1 \<in> lang spacesRE" "w2 \<in> lang spacesRE" "val \<in> lang (Star (Cls (\<lambda>c. \<not> isQuote c)))"
    by (auto simp: jsonStringKVRE_def pair_def isQuote_def simp del: lang.simps(6))
  then have "u = pair key w1 w2 val" "isPair key w1 w2 val"
    unfolding spacesRE_def star_class_lang by (auto simp: isPair_def isQuote_def list_all_iff)
  with u(1) show ?thesis by blast
qed

lemma json_no_match: "c \<noteq> CHR 0x22 \<Longrightarrow> matchHere jsonStringKVRE pv (c # s) = None"
  using json_match_sound[of pv c s] by (cases "matchHere jsonStringKVRE pv (c # s)") (auto simp: pair_def)

lemma lit_bytes: "a \<in> lang (lit c) \<Longrightarrow> wordByte c \<Longrightarrow> x \<in> set a \<Longrightarrow> 65 \<le> byte_of x \<and> byte_of x \<noteq> 123"
  by (drule lang_lit) (auto simp: lower_byte_def wordByte_def split: if_splits)

lemma lits_bytes: "u \<in> lang (lits w) \<Longrightarrow> list_all wordByte w \<Longrightarrow> x \<in> set u \<Longrightarrow> 65 \<le> byte_of x \<and> byte_of x \<noteq> 123"
proof (induction w arbitrary: u)
  case (Cons c w)
  then obtain a b where "u = a @ b" "a \<in> lang (lit c)" "b \<in> lang (lits w)" by (auto simp: lits_Cons)
  with Cons lit_bytes[of a c x] show ?case by auto
qed (simp add: lits_def)

lemma keyword_bytes:
  assumes "u \<in> lang keywordRE"
  shows "CHR 0x22 \<notin> set u" "CHR '':'' \<notin> set u"
proof -
  have low: "list_all wordByte w \<Longrightarrow> v \<in> lang (lits w) \<Longrightarrow> x \<in> set v \<Longrightarrow> x \<noteq> CHR 0x22 \<and> x \<noteq> CHR '':''" for w v x
    using lits_bytes[of v w x] by (auto simp: byte_of_def)
  have api: "x \<noteq> CHR 0x22 \<and> x \<noteq> CHR '':''" if "v \<in> lang apiKeyRE" "x \<in> set v" for v x
  proof -
    from that(1) obtain u1 u2 u3 where "v = u1 @ u2 @ u3" "u1 \<in> lang (lits ''api'')" "u3 \<in> lang (lits ''key'')"
      and "u2 = [] \<or> (\<exists>y. u2 = [y] \<and> (y = CHR ''_'' \<or> y = CHR ''-''))"
      by (auto simp: apiKeyRE_def Opt_def)
    with that(2) low[of "''api''" u1 x] low[of "''key''" u3 x] show ?thesis by (auto simp: lower_letters)
  qed
  have "x \<noteq> CHR 0x22 \<and> x \<noteq> CHR '':''" if "x \<in> set u" for x
    using assms that unfolding keyword_cases by (elim disjE) (auto simp: lower_letters dest: low[rotated] api)
  then show "CHR 0x22 \<notin> set u" "CHR '':'' \<notin> set u" by blast+
qed

lemma IndexByte_append: "b \<notin> set u \<Longrightarrow> IndexByte (u @ b # r) b = Some (length u)"
  by (induction u) auto

lemma space_bytes: "list_all re_space w \<Longrightarrow> CHR '':'' \<notin> set w \<and> CHR 0x22 \<notin> set w"
  by (auto simp: list_all_iff re_space_def byte_of_def)

lemma redactJSON_pair:
  assumes "isPair key w1 w2 val"
  shows "redactJSON (pair key w1 w2 val) = CHR 0x22 # key @ CHR 0x22 # w1 @ CHR '':'' # CHR 0x22 # redacted @ [CHR 0x22]"
proof -
  let ?u = "CHR 0x22 # key @ CHR 0x22 # w1"
  have p: "pair key w1 w2 val = ?u @ CHR '':'' # w2 @ CHR 0x22 # val @ [CHR 0x22]" by (simp add: pair_def)
  have "CHR '':'' \<notin> set ?u" using keyword_bytes[of key] space_bytes[of w1] assms by (simp add: isPair_def)
  then have "IndexByte (pair key w1 w2 val) (CHR '':'') = Some (length ?u)" unfolding p by (rule IndexByte_append)
  moreover have "FindStringSubmatch jsonStringKVRE (pair key w1 w2 val) = Some [(1, key)]"
    using json_match[OF assms, of None "[]"] by (simp add: FindStringSubmatch_def pair_def)
  ultimately show ?thesis by (simp add: redactJSON_def p)
qed

section \<open>The first pass\<close>

abbreviation passJSON :: "char option \<Rightarrow> string \<Rightarrow> string" where
  "passJSON \<equiv> replaceFrom jsonStringKVRE redactJSON"

lemma passJSON_copies: "CHR 0x22 \<notin> set u \<Longrightarrow> passJSON pv (u @ w) = u @ passJSON (lastByte pv u) w"
  by (rule replace_copies) (metis json_no_match)

lemma passJSON_pair:
  assumes "isPair key w1 w2 val" "CHR 0x22 \<notin> set p"
  shows "passJSON pv (p @ pair key w1 w2 val @ q) =
    p @ CHR 0x22 # key @ CHR 0x22 # w1 @ CHR '':'' # CHR 0x22 # redacted @ CHR 0x22 # passJSON (Some (CHR 0x22)) q"
proof -
  have m: "matchHere jsonStringKVRE pv' (pair key w1 w2 val @ q) = Some (Some (CHR 0x22), q, [(1, key)])" for pv'
    by (rule json_match[OF assms(1)])
  obtain t where t: "pair key w1 w2 val = CHR 0x22 # t" by (simp add: pair_def)
  have "passJSON pv' (pair key w1 w2 val @ q) = redactJSON (pair key w1 w2 val) @ passJSON (Some (CHR 0x22)) q" for pv'
    using m[of pv'] unfolding t by simp
  then show ?thesis by (simp add: passJSON_copies[OF assms(2)] redactJSON_pair[OF assms(1)])
qed

lemma quote_split:
  "CHR 0x22 \<notin> set a \<Longrightarrow> CHR 0x22 \<notin> set b \<Longrightarrow> a @ CHR 0x22 # r = b @ CHR 0x22 # r' \<longleftrightarrow> a = b \<and> r = r'"
proof (induction a arbitrary: b)
  case Nil
  then show ?case by (cases b) auto
next
  case (Cons x a)
  then show ?case by (cases b) auto
qed

definition colonGap :: "string \<Rightarrow> bool" where
  "colonGap g = (\<exists>w1 w2. g = w1 @ CHR '':'' # w2 \<and> list_all re_space w1 \<and> list_all re_space w2)"

lemma json_match_key:
  assumes "matchHere jsonStringKVRE pv (CHR 0x22 # a @ CHR 0x22 # g @ CHR 0x22 # t) = Some x"
    "CHR 0x22 \<notin> set a" "CHR 0x22 \<notin> set g"
  shows "a \<in> lang keywordRE \<and> colonGap g"
proof -
  from json_match_sound[OF assms(1)] obtain key w1 w2 val q where
    e: "CHR 0x22 # a @ CHR 0x22 # g @ CHR 0x22 # t = pair key w1 w2 val @ q" and k: "isPair key w1 w2 val" by blast
  from e have "a @ CHR 0x22 # g @ CHR 0x22 # t = key @ CHR 0x22 # (w1 @ CHR '':'' # w2) @ CHR 0x22 # val @ CHR 0x22 # q"
    by (simp add: pair_def)
  with quote_split[OF assms(2)] keyword_bytes[of key] k
  have 1: "a = key" "g @ CHR 0x22 # t = (w1 @ CHR '':'' # w2) @ CHR 0x22 # val @ CHR 0x22 # q" by (simp_all add: isPair_def)
  have "CHR 0x22 \<notin> set (w1 @ CHR '':'' # w2)" using space_bytes[of w1] space_bytes[of w2] k by (simp add: isPair_def)
  with 1(2) quote_split[OF assms(3)] have "g = w1 @ CHR '':'' # w2" by blast
  with 1(1) k show ?thesis by (auto simp: colonGap_def isPair_def)
qed

lemma passJSON_segment:
  assumes "CHR 0x22 \<notin> set p" "CHR 0x22 \<notin> set a" "CHR 0x22 \<notin> set g" "g \<notin> lang keywordRE" "\<not> (a \<in> lang keywordRE \<and> colonGap g)"
  shows "passJSON pv (p @ CHR 0x22 # a @ CHR 0x22 # g @ CHR 0x22 # t) =
    p @ CHR 0x22 # a @ CHR 0x22 # passJSON (Some (CHR 0x22)) (g @ CHR 0x22 # t)"
proof -
  have open_quote: "matchHere jsonStringKVRE pv' (CHR 0x22 # a @ CHR 0x22 # g @ CHR 0x22 # t) = None" for pv'
    using json_match_key[of pv' a g t] assms by (cases "matchHere jsonStringKVRE pv' (CHR 0x22 # a @ CHR 0x22 # g @ CHR 0x22 # t)") auto
  have close_quote: "matchHere jsonStringKVRE pv' (CHR 0x22 # g @ CHR 0x22 # t) = None" for pv'
  proof (rule ccontr)
    assume "matchHere jsonStringKVRE pv' (CHR 0x22 # g @ CHR 0x22 # t) \<noteq> None"
    then obtain x where "matchHere jsonStringKVRE pv' (CHR 0x22 # g @ CHR 0x22 # t) = Some x" by blast
    from json_match_sound[OF this] obtain key w1 w2 val q where
      e: "CHR 0x22 # g @ CHR 0x22 # t = pair key w1 w2 val @ q" "isPair key w1 w2 val" by blast
    then have "g = key" using quote_split[OF assms(3)] keyword_bytes[of key] by (simp add: pair_def isPair_def)
    with e assms(4) show False by (simp add: isPair_def)
  qed
  have "passJSON pv' (CHR 0x22 # a @ CHR 0x22 # g @ CHR 0x22 # t) =
      CHR 0x22 # a @ CHR 0x22 # passJSON (Some (CHR 0x22)) (g @ CHR 0x22 # t)" for pv'
    by (simp add: open_quote close_quote passJSON_copies[OF assms(2)])
  then show ?thesis by (simp add: passJSON_copies[OF assms(1)])
qed

text \<open>
  A text of quoted strings with gaps between them, up to a gap in front of the next quote.  No gap spells a keyword, and the last
  one is not a lone colon, so the quote that follows opens a key.
\<close>

fun quotedText :: "(string \<times> string) list \<Rightarrow> string \<Rightarrow> string" where
  "quotedText [] g = g"
| "quotedText ((p, a) # segs) g = p @ CHR 0x22 # a @ CHR 0x22 # quotedText segs g"

definition quotedOk :: "(string \<times> string) list \<Rightarrow> string \<Rightarrow> bool" where
  "quotedOk segs g \<longleftrightarrow> CHR 0x22 \<notin> set g \<and> g \<notin> lang keywordRE \<and> \<not> colonGap g
     \<and> (\<forall>(p, a) \<in> set segs. CHR 0x22 \<notin> set p \<and> CHR 0x22 \<notin> set a \<and> p \<notin> lang keywordRE)"

lemma passJSON_prefix:
  "quotedOk segs g \<Longrightarrow>
   \<exists>p' pv'. \<forall>t. passJSON pv (quotedText segs g @ CHR 0x22 # t) = p' @ passJSON pv' (CHR 0x22 # t)"
proof (induction segs arbitrary: pv rule: induct_list012)
  case 1
  then show ?case using passJSON_copies[of g pv] by (auto simp: quotedOk_def)
next
  case (2 x)
  obtain p a where x: "x = (p, a)" by fastforce
  with 2 have "passJSON pv (quotedText [x] g @ CHR 0x22 # t) =
      p @ CHR 0x22 # a @ CHR 0x22 # g @ passJSON (lastByte (Some (CHR 0x22)) g) (CHR 0x22 # t)" for t
    using passJSON_segment[of p a g pv t] passJSON_copies[of g] by (simp add: quotedOk_def)
  then show ?case by (intro exI[of _ "p @ CHR 0x22 # a @ CHR 0x22 # g"] exI allI) simp
next
  case (3 x y zs)
  obtain p a p2 a2 where xy: "x = (p, a)" "y = (p2, a2)" by fastforce
  have ok: "quotedOk zs g" "quotedOk (y # zs) g" using 3(3) by (auto simp: quotedOk_def)
  have q: "CHR 0x22 \<notin> set p" "CHR 0x22 \<notin> set a" "CHR 0x22 \<notin> set p2" "CHR 0x22 \<notin> set a2" "p2 \<notin> lang keywordRE"
    using 3(3) by (auto simp: quotedOk_def xy)
  show ?case
  proof (cases "a \<in> lang keywordRE \<and> colonGap p2")
    case True
    then obtain w1 w2 where w: "p2 = w1 @ CHR '':'' # w2" "isPair a w1 w2 a2" using q by (auto simp: colonGap_def isPair_def)
    from 3(1)[OF ok(1)] obtain p' pv' where
      i: "\<And>t. passJSON (Some (CHR 0x22)) (quotedText zs g @ CHR 0x22 # t) = p' @ passJSON pv' (CHR 0x22 # t)" by blast
    have "quotedText (x # y # zs) g @ CHR 0x22 # t = p @ pair a w1 w2 a2 @ quotedText zs g @ CHR 0x22 # t" for t
      by (simp add: xy w(1) pair_def)
    then show ?thesis using passJSON_pair[OF w(2) q(1)] i
      by (intro exI[of _ "p @ CHR 0x22 # a @ CHR 0x22 # w1 @ CHR '':'' # CHR 0x22 # redacted @ CHR 0x22 # p'"] exI[of _ pv'] allI)
        (simp only: append_assoc append_Cons append_Nil)
  next
    case False
    from 3(2)[OF ok(2)] obtain p' pv' where
      i: "\<And>t. passJSON (Some (CHR 0x22)) (quotedText (y # zs) g @ CHR 0x22 # t) = p' @ passJSON pv' (CHR 0x22 # t)" by blast
    then show ?thesis using passJSON_segment[OF q(1,2,3,5) False, of pv]
      by (intro exI[of _ "p @ CHR 0x22 # a @ CHR 0x22 # p'"] exI[of _ pv'] allI) (simp add: xy)
  qed
qed

lemma passJSON_hides:
  assumes "quotedOk segs g" "isPair key w1 w2 v" "isPair key w1 w2 v'"
  shows "passJSON None (quotedText segs g @ pair key w1 w2 v @ q) = passJSON None (quotedText segs g @ pair key w1 w2 v' @ q)"
proof -
  from passJSON_prefix[OF assms(1)] obtain p pv where
    p: "\<And>t. passJSON None (quotedText segs g @ CHR 0x22 # t) = p @ passJSON pv (CHR 0x22 # t)" by blast
  have "passJSON None (quotedText segs g @ pair key w1 w2 u @ q) = p @ passJSON pv (pair key w1 w2 u @ q)" for u
    using p by (simp add: pair_def)
  then show ?thesis using passJSON_pair[OF assms(2), of "[]" pv q] passJSON_pair[OF assms(3), of "[]" pv q] by simp
qed

lemma ascii_valid: "list_all (\<lambda>c. byte_of c < 128) s \<Longrightarrow> utf8_Valid s"
proof (induction s)
  case (Cons c s)
  then have "DecodeRune (c # s) = (byte_of c, 1)" "byte_of c \<noteq> RuneError" by (auto simp: DecodeRune_def RuneError_def)
  with Cons show ?case by (subst utf8_Valid.simps) simp
qed (simp add: utf8_Valid.simps)

lemma gap_not_keyword:
  assumes "u = [] \<or> byte_of (hd u) < 65 \<or> byte_of (hd u) = 123"
  shows "u \<notin> lang keywordRE"
proof
  assume u: "u \<in> lang keywordRE"
  have word: "v @ t = u \<Longrightarrow> v \<in> lang (lits (c # w)) \<Longrightarrow> list_all wordByte (c # w) \<Longrightarrow> False" for v t c w
  proof -
    assume v: "v @ t = u" "v \<in> lang (lits (c # w))" and l: "list_all wordByte (c # w)"
    then obtain a b where "v = a @ b" "a \<in> lang (lit c)" by (auto simp: lits_Cons)
    moreover from lang_lit[OF this(2)] have "a \<noteq> []" by auto
    ultimately have "v \<noteq> []" "hd u \<in> set v" using v(1) by (cases a; auto)+
    with lits_bytes[OF v(2) l, of "hd u"] assms v(1) show False by auto
  qed
  have api: "u \<notin> lang apiKeyRE"
  proof
    assume "u \<in> lang apiKeyRE"
    then obtain v t where "v @ t = u" "v \<in> lang (lits ''api'')" by (auto simp: apiKeyRE_def)
    then show False using word[of v t "CHR ''a''" "''pi''"] by (simp add: lower_letters)
  qed
  from u show False
    using word[of u "[]" "CHR ''a''" "''uthorization''"] word[of u "[]" "CHR ''b''" "''earer''"] word[of u "[]" "CHR ''t''" "''oken''"]
      word[of u "[]" "CHR ''p''" "''assword''"] word[of u "[]" "CHR ''s''" "''ecret''"] api
    by (simp add: keyword_cases lower_letters) (elim disjE; simp)
qed

section \<open>What the log line shows\<close>

text \<open>
  C18: a credential in the snippet of a logged engine error does not reach the log.  Two answers of the same status whose snippets differ
  only in the value of a quoted credential (one of the keywords, in either case, a colon between spaces, a value in quotes), at any place
  of a text of quoted strings, are logged with the same line.
\<close>

theorem snippet_hides_quoted_secret:
  assumes "quotedOk segs g" "isPair key w1 w2 v" "isPair key w1 w2 v'" "StatusCode r = StatusCode r'"
    and "bodySnippet cfg r = quotedText segs g @ pair key w1 w2 v @ q" "utf8_Valid (bodySnippet cfg r)"
    and "bodySnippet cfg r' = quotedText segs g @ pair key w1 w2 v' @ q" "utf8_Valid (bodySnippet cfg r')"
  shows "upstreamStatusLine cfg r eng url rid fn mime ms = upstreamStatusLine cfg r' eng url rid fn mime ms"
proof -
  have "sanitizeForLog (bodySnippet cfg r) = sanitizeForLog (bodySnippet cfg r')"
    using passJSON_hides[OF assms(1-3), of q] assms(6,8)
    by (simp only: sanitizeForLog_def utf8String_def if_True redactCredentialFragments_def ReplaceAllStringFunc_def assms(5,7))
  then show ?thesis using assms(4) by (simp add: upstreamStatusLine_def)
qed

definition demo_log :: "int \<Rightarrow> UpstreamLogConfig" where
  "demo_log n = \<lparr>ulEnabled = True, ulBodySnippetBytes = n, ulLevel4xx = ''warn'', ulLevel5xx = ''error'',
     ulBodyLogBytes = 0, ulFullCapture = False, ulFullCaptureBodyBytes = 0\<rparr>"

definition demo_error_answer :: "string \<Rightarrow> ConvertResponse" where
  "demo_error_answer body = \<lparr>StatusCode = 502, respHeaders = [], respBody = \<lparr>srcData = body, srcErr = None\<rparr>\<rparr>"

text \<open>The body is the text of an error in which the engine echoes the token it was called with.\<close>

definition demo_body :: "string \<Rightarrow> string" where
  "demo_body v = quotedText [(''{'', ''error''), ('': '', ''denied'')] '', '' @ pair ''Token'' [] '' '' v @ ''}''"

lemma demo_snippet:
  "bodySnippet (demo_log 64) (demo_error_answer (demo_body ''hunter2'')) = demo_body ''hunter2''"
  "bodySnippet (demo_log 64) (demo_error_answer (demo_body ''xyzzy'')) = demo_body ''xyzzy''"
  by (simp_all add: bodySnippet_def demo_log_def demo_error_answer_def demo_body_def pair_def CopyN_def)

theorem snippet_hides_quoted_secret_witness:
  "upstreamStatusLine (demo_log 64) (demo_error_answer (demo_body ''hunter2'')) ''tika'' [] [] [] [] 0
     = upstreamStatusLine (demo_log 64) (demo_error_answer (demo_body ''xyzzy'')) ''tika'' [] [] [] [] 0"
proof (rule snippet_hides_quoted_secret)
  have n: "'', '' \<notin> lang keywordRE" "'': '' \<notin> lang keywordRE" "''{'' \<notin> lang keywordRE"
    by (rule gap_not_keyword, simp add: byte_of_def)+
  have "\<not> colonGap '', ''"
  proof
    assume "colonGap '', ''"
    then have "CHR '':'' \<in> set '', ''" unfolding colonGap_def by (metis in_set_conv_decomp)
    then show False by simp
  qed
  with n show "quotedOk [(''{'', ''error''), ('': '', ''denied'')] '', ''" by (simp add: quotedOk_def)
  have "''Token'' \<in> lang (lits ''token'')" by (rule lits_spelling) code_simp
  then have k: "''Token'' \<in> lang keywordRE" by (simp only: keyword_cases) simp
  have sp: "list_all re_space '' ''" by (simp add: re_space_def byte_of_def)
  show "isPair ''Token'' [] '' '' ''hunter2''" "isPair ''Token'' [] '' '' ''xyzzy''"
    unfolding isPair_def using k sp by simp_all
  show "bodySnippet (demo_log 64) (demo_error_answer (demo_body ''hunter2''))
      = quotedText [(''{'', ''error''), ('': '', ''denied'')] '', '' @ pair ''Token'' [] '' '' ''hunter2'' @ ''}''"
    unfolding demo_snippet by (simp only: demo_body_def)
  show "bodySnippet (demo_log 64) (demo_error_answer (demo_body ''xyzzy''))
      = quotedText [(''{'', ''error''), ('': '', ''denied'')] '', '' @ pair ''Token'' [] '' '' ''xyzzy'' @ ''}''"
    unfolding demo_snippet by (simp only: demo_body_def)
  show "utf8_Valid (bodySnippet (demo_log 64) (demo_error_answer (demo_body ''hunter2'')))"
    "utf8_Valid (bodySnippet (demo_log 64) (demo_error_answer (demo_body ''xyzzy'')))"
    unfolding demo_snippet by (rule ascii_valid, simp add: demo_body_def pair_def byte_of_def)+
qed (simp add: demo_error_answer_def)

text \<open>
  A value the snippet cuts off is logged as it is: no expression matches a quoted value without its closing quote.
\<close>

definition cut_body :: string where
  "cut_body = ''{'' @ CHR 0x22 # ''password'' @ CHR 0x22 # CHR '':'' # CHR 0x22 # ''hun''"

lemmas regex_eval = matchHere_def bearerTokenRE_def genericKVRE_def keywordRE_def apiKeyRE_def spacesRE_def Opt_def Plus_def
  lits_def lit_def lower_byte_def byte_of_def isQuote_def re_space_def re_word_def mrest_def bareByte_def

lemma cut_pass2: "ReplaceAllStringFunc bearerTokenRE cut_body redactBearer = cut_body"
  by (simp add: ReplaceAllStringFunc_def cut_body_def regex_eval)

lemma cut_pass3: "ReplaceAllStringFunc genericKVRE cut_body redactKV = cut_body"
  by (simp add: ReplaceAllStringFunc_def cut_body_def regex_eval)

lemma cut_pass1: "ReplaceAllStringFunc jsonStringKVRE cut_body redactJSON = cut_body"
  by (simp add: ReplaceAllStringFunc_def cut_body_def jsonStringKVRE_def regex_eval)

lemma cut_valid: "utf8_Valid cut_body"
  by (rule ascii_valid) (simp add: cut_body_def byte_of_def)

text \<open>
  A credential the snippet cuts off is logged as it is.  With 16 bytes of snippet configured, the line for an answer that echoes a
  quoted password shows the password as far as the snippet goes, since no expression matches a quoted value without its closing quote.
\<close>

theorem cut_off_secret_is_logged:
  "map_option ulnSnippet (upstreamStatusLine (demo_log 16) (demo_error_answer (''{'' @ pair ''password'' [] [] ''hunter2'' @ ''}'')) [] [] [] [] [] 0)
     = Some (''{'' @ CHR 0x22 # ''password'' @ CHR 0x22 # CHR '':'' # CHR 0x22 # ''hun'')"
proof -
  have "bodySnippet (demo_log 16) (demo_error_answer (''{'' @ pair ''password'' [] [] ''hunter2'' @ ''}'')) = cut_body"
    by (simp add: bodySnippet_def demo_log_def demo_error_answer_def pair_def CopyN_def cut_body_def)
  moreover have "sanitizeForLog cut_body = cut_body"
    by (simp only: sanitizeForLog_def utf8String_def cut_valid if_True redactCredentialFragments_def Let_def cut_pass1 cut_pass2 cut_pass3)
  ultimately show ?thesis
    by (simp add: upstreamStatusLine_def) (simp add: demo_log_def demo_error_answer_def cut_body_def)
qed

end
