(* ===== verification/Spec2Isabelle.thy ===== *)
theory Spec2Isabelle
  imports Lifecycle Adapter_Wire Upstream_Log
begin

text \<open>
  A verification of owui-cee-proxy, the proxy that sits between OpenWebUI and several content extraction engines.

  \<^bold>\<open>The program.\<close>  A caller uploads documents, or names URLs, on one of two facades: the Docling endpoints
  (\<^verbatim>\<open>handlers/convert.go\<close>, with asynchronous variants in \<^verbatim>\<open>handlers/async.go\<close>) and the external endpoint
  (\<^verbatim>\<open>handlers/external.go\<close>).  The request runs through the middleware chain (\<^verbatim>\<open>transport/http/middleware\<close>), is staged in memory or in temp
  files (\<^verbatim>\<open>internal/spool\<close>), its MIME type is resolved (\<^verbatim>\<open>internal/engine/mimedetect\<close>), the registry picks an engine
  (\<^verbatim>\<open>internal/engine\<close>), and the engine's adapter (\<^verbatim>\<open>internal/engine/compat\<close>) speaks to the backend.  Sources are vetted by the
  SSRF policy (\<^verbatim>\<open>handlers/ssrf.go\<close>).  Asynchronous submissions go through an orchestrator over Redis and a worker
  (\<^verbatim>\<open>internal/tasks\<close>).  Each engine is also mounted as a reverse proxy (\<^verbatim>\<open>transport/http/reverseproxy\<close>).  All of it is put together from a
  configuration (\<^verbatim>\<open>internal/config\<close>) by \<^verbatim>\<open>internal/app\<close> and \<^verbatim>\<open>transport/http/routes.go\<close> and started by \<^verbatim>\<open>cmd/proxy\<close>.

  \<^bold>\<open>The theories\<close>, with the sources under \<^verbatim>\<open>src/internal\<close> they model and what they show.

  \<^item> \<^verbatim>\<open>Prelude\<close>: Go strings, errors and maps.
  \<^item> \<^verbatim>\<open>Routing\<close> (\<^verbatim>\<open>engine/engine.go\<close>, \<^verbatim>\<open>mime.go\<close>, \<^verbatim>\<open>routing_strategy.go\<close>): the state is the record \<^verbatim>\<open>staticRegistry\<close>, the operations
    \<^verbatim>\<open>NewRegistry\<close>, \<^verbatim>\<open>PickRouteVerbose\<close> and the accessors.  The dispatcher refines a declarative rule, and the order in which Go
    iterates over the engine map cannot be seen.  The interface for handlers and worker is the locale \<^verbatim>\<open>engine_registry\<close>.
  \<^item> \<^verbatim>\<open>Mimedetect\<close> (\<^verbatim>\<open>engine/mimedetect\<close>): the decision table of the resolver.
  \<^item> \<^verbatim>\<open>Spool\<close> (\<^verbatim>\<open>spool\<close>, \<^verbatim>\<open>handlers/mime_resolve.go\<close>): a staged part is its source, within the caps, and leaves no temp file.  What
    the handlers need of a staged body is the locale \<^verbatim>\<open>read_seeker\<close>.
  \<^item> \<^verbatim>\<open>Http_Header\<close> (\<^verbatim>\<open>handlers/respond_headers.go\<close>, \<^verbatim>\<open>engine/compatutil/headers.go\<close>): header maps, as the locale \<^verbatim>\<open>header_store\<close>, and the
    allowlists.
  \<^item> \<^verbatim>\<open>Netip\<close>, \<^verbatim>\<open>Ssrf\<close> (\<^verbatim>\<open>handlers/ssrf.go\<close>, \<^verbatim>\<open>validateSources\<close> of \<^verbatim>\<open>convert.go\<close>): addresses as words; the exact sets of addresses let through,
    the bounded cache, and that engines only get vetted addresses.
  \<^item> \<^verbatim>\<open>Config\<close> (\<^verbatim>\<open>config\<close>): the structs, the defaults and every validation; what a configuration that loads guarantees.
  \<^item> \<^verbatim>\<open>Compatutil\<close>, \<^verbatim>\<open>Authutil\<close> (\<^verbatim>\<open>engine/compatutil\<close>, \<^verbatim>\<open>engine/authutil\<close>): sanitisers, joined URLs and credentials.
  \<^item> \<^verbatim>\<open>Reverseproxy\<close> (\<^verbatim>\<open>transport/http/reverseproxy\<close>): path confinement and the exact headers of a passthrough request.
  \<^item> \<^verbatim>\<open>Convert\<close> (\<^verbatim>\<open>handlers/convert.go\<close>, \<^verbatim>\<open>external.go\<close>, \<^verbatim>\<open>fallback.go\<close>, \<^verbatim>\<open>engine/respond\<close>): requests are built exactly, a fallback resends the whole
    upload, nothing leaks, facades are respected, engine errors are not echoed.
  \<^item> \<^verbatim>\<open>Regexp\<close>, \<^verbatim>\<open>Upstream_Log\<close> (\<^verbatim>\<open>handlers/upstream_log.go\<close>): UTF-8 and Go's regular expressions; which credentials the snippet of a logged
    engine error hides and which it does not.
  \<^item> \<^verbatim>\<open>Tasks\<close>, \<^verbatim>\<open>Async\<close> (\<^verbatim>\<open>tasks\<close>, \<^verbatim>\<open>handlers/async.go\<close>): tokens are bound to their caller, the worker accounts for every task, concurrent
    submissions with one idempotency key agree on a token (a step relation and an invariant), and an upload is followed from its submission
    to its result.
  \<^item> \<^verbatim>\<open>Adapters\<close>, \<^verbatim>\<open>Adapter_Contract\<close>, \<^verbatim>\<open>Adapter_Wire\<close> (\<^verbatim>\<open>engine/compat\<close>): the four adapters; each is an interpretation of the locale
    \<^verbatim>\<open>engine_adapter\<close>, in which delivery, confinement to the backend and behaviour without a backend are proved once; what is on the wire.
  \<^item> \<^verbatim>\<open>Middleware\<close> (\<^verbatim>\<open>transport/http/middleware\<close>): the wrappers and response writers; observing a request does not change it.
  \<^item> \<^verbatim>\<open>Health\<close> (\<^verbatim>\<open>handlers/health.go\<close>): readiness in any order of completion of the probes.
  \<^item> \<^verbatim>\<open>Httpclient\<close> (\<^verbatim>\<open>httpclient\<close>, \<^verbatim>\<open>breaker\<close>, \<^verbatim>\<open>transport/http/server.go\<close>): client settings, TLS policy, instrumented round trips.
  \<^item> \<^verbatim>\<open>App\<close> (\<^verbatim>\<open>app/app.go\<close>, \<^verbatim>\<open>transport/http/routes.go\<close>): a configuration that loads builds; requests without a key reach no handler; the
    audit capture hides credentials.
  \<^item> \<^verbatim>\<open>Observability\<close> (\<^verbatim>\<open>observability/logger.go\<close>, \<^verbatim>\<open>app/adapters.go\<close>, \<^verbatim>\<open>app/bootstrap.go\<close>): logger settings and levels, metric samples, the
    record of a pick (\<^verbatim>\<open>handlers/pick_decision_log.go\<close>), and start-up lines, which depend on credentials only through their lengths.
  \<^item> \<^verbatim>\<open>Lifecycle\<close> (\<^verbatim>\<open>app/app.go\<close>, \<^verbatim>\<open>cmd/proxy\<close>, \<^verbatim>\<open>scripts/migrate-config\<close>): the goroutines of a run as a step relation that ends, exit statuses, the
    migration of an old configuration.

  \<^bold>\<open>How the code is read.\<close>  A Go string is the list of its bytes.  \<^verbatim>\<open>strings.ToLower\<close>, \<^verbatim>\<open>strings.TrimSpace\<close> and \<^verbatim>\<open>%q\<close> are those of ASCII: on strings with
  bytes from 0x80 on, which Go folds as Unicode, the model leaves these bytes alone.  A Go map is an association list with distinct keys;
  iteration is in list order, and where the order could matter the statement is for every order.  Errors are values with their message and
  the sentinels they wrap; every early return and every panic the code can reach is a branch.  Durations and sizes are integers, with the
  wrap-around of \<^verbatim>\<open>int64\<close> written out where sums are taken of caller-controlled numbers, and addresses are lists of 8-bit words.  Concurrency is a
  step relation (submissions, the run of the process, the DNS cache) or a permutation (probes).

  \<^bold>\<open>Bounds and termination.\<close>  No definition has fuel that a result depends on: loops over data are structural recursions, the others
  (\<^verbatim>\<open>ReplaceAll\<close>, \<^verbatim>\<open>show_nat\<close>, \<^verbatim>\<open>utf8_Valid\<close>, \<^verbatim>\<open>runesOf\<close>, \<^verbatim>\<open>replaceFrom\<close>) have a proof of termination by the length of what is left.  The repetition of
  a regular expression is bounded by the length of the remaining text, which is enough because a round that consumes nothing stops.

  \<^bold>\<open>Parameters.\<close>  Code outside the repository is an argument: the magic-byte sniffer, the URL parser and printer, DNS, the outcome of file
  operations, the merged configuration koanf delivers, the validator's notions of a URL and of a host and port, hash functions, fresh
  tokens and identifiers, Redis and asynq outcomes, the token bucket, the clock, the HTTP round trip behind the breaker, the JSON decoder, the
  time zone database.  What a theorem needs of one of them is a hypothesis of that theorem, and its witness gives a concrete function for it.

  \<^bold>\<open>Not modelled.\<close>  The matching of paths to routes (chi), the pooling and protocol code of \<^verbatim>\<open>net/http\<close>, the state machine of the breaker library,
  asynq's scheduling and retries, context deadlines and cancellation inside a call, OpenTelemetry spans, the declaration of the Prometheus
  collectors, zerolog's encoder, YAML decoding and encoding, flag parsing and signal delivery, the build-tag variant of the spool for systems other than
  Linux, and the test suite \<^verbatim>\<open>engine/enginetest\<close>: these are libraries, input and output, or test code.
\<close>

end
